theory Spec2Isabelle
  imports Complex_Main "HOL-Library.Product_Lexorder" "HOL-Library.List_Lexorder"
    "HOL-Library.Char_ord"
begin

section \<open>Conventions\<close>

text \<open>
  The program is \<^verbatim>\<open>Code/Live_spectogram.py\<close>: a Qt window object whose methods read and
  write its attributes from timer callbacks.  Each method is a function from the attributes
  it touches (a record) and the values it reads from its collaborators (the receiver, the
  clock, the widgets) to the updated attributes and the effects it issues.

  Python floats and numpy arrays of floats are \<^typ>\<open>real\<close> and \<^typ>\<open>real list\<close>.  The
  arithmetic of the sweep planner (\<^verbatim>\<open>validate_sweep_inputs\<close>: the step count, the centre
  frequencies, the frequency axis) is the one of IEEE binary64: every operation is followed by
  the rounding \<open>fl\<close> defined below.  Elsewhere (magnitudes, powers in dB, scores, times) the
  arithmetic is the exact one.  No overflow, infinity or NaN occurs; a capture that numpy would
  find non-finite is therefore an absent capture (\<^term>\<open>None\<close>).
  An exception that the method catches itself is a result of the method, with the
  attributes as they were when it was raised.
\<close>

section \<open>Rounding and numpy helpers\<close>

text \<open>Python's \<^verbatim>\<open>round(x)\<close>: to the nearest integer, a tie to the even one.\<close>

definition py_round :: "real \<Rightarrow> int" where
  "py_round x =
     (let f = \<lfloor>x\<rfloor>; d = x - of_int f
      in if d < 1 / 2 then f else if 1 / 2 < d then f + 1 else if even f then f else f + 1)"

text \<open>
  The result of a binary64 operation whose exact result is \<open>x\<close>: \<open>x\<close> rounded to 53
  significant bits, to the nearest such number, a tie to the one with an even significand
  (the rule \<^const>\<open>py_round\<close> implements on the significand).  The exponent is not bounded:
  this is the hardware's result for \<open>x = 0\<close> and for every \<open>x\<close> with
  \<open>2 ** -1022 \<le> |x| < 2 ** 1024\<close>, which covers every value the planner computes from bounds
  between 1 Hz and 4 GHz at a sample rate between 100 kHz and 20 MHz.
\<close>

definition fl :: "real \<Rightarrow> real" where
  "fl x = (if x = 0 then 0
           else (let q = 2 powr (of_int \<lfloor>log 2 \<bar>x\<bar>\<rfloor> - 52)
                 in sgn x * (of_int (py_round (\<bar>x\<bar> / q)) * q)))"

text \<open>
  \<^verbatim>\<open>np.linspace(a, b, n, endpoint=False)\<close> for two floats:
  \<^verbatim>\<open>
  delta = stop - start
  y = arange(0, num)
  step = delta / div                      # div = num
  if step == 0: y /= div; y *= delta
  else:         y *= step
  y += start
  \<close>
\<close>

definition linspace_open :: "real \<Rightarrow> real \<Rightarrow> nat \<Rightarrow> real list" where
  "linspace_open a b n =
     (let delta = fl (b - a); st = fl (delta / real n)
      in map (\<lambda>j. fl ((if st = 0 then fl (fl (real j / real n) * delta) else fl (real j * st)) + a))
           [0..<n])"

text \<open>
  \<^verbatim>\<open>np.linspace(a, b, n)\<close>, right edge included: \<open>div = num - 1\<close>, the last sample is set to
  \<open>b\<close>; with one sample there is no step and the sample is \<^verbatim>\<open>0 * delta + a\<close>.
\<close>

definition linspace_closed :: "real \<Rightarrow> real \<Rightarrow> nat \<Rightarrow> real list" where
  "linspace_closed a b n =
     (let d = n - 1; delta = fl (b - a)
      in if d = 0 then map (\<lambda>j. fl (fl (real j * delta) + a)) [0..<n]
         else (let st = fl (delta / real d)
               in (map (\<lambda>j. fl ((if st = 0 then fl (fl (real j / real d) * delta)
                                     else fl (real j * st)) + a)) [0..<n])[n - 1 := b]))"

section \<open>Sweep planner: \<^verbatim>\<open>validate_sweep_inputs\<close>\<close>

text \<open>
  The attributes every mode of the window has (\<^verbatim>\<open>toggle_checked\<close> is the state of the
  Start/Stop button), and those that the sweep planner and the sweep capture use.
  \<^verbatim>\<open>last_fft\<close>, \<^verbatim>\<open>sweep_prev_linear\<close>, \<^verbatim>\<open>peak_env\<close> and \<^verbatim>\<open>_step_freq_hz\<close> may be
  \<^verbatim>\<open>None\<close>; \<^verbatim>\<open>_last_sweep_sig\<close> may be unset.
\<close>

datatype mode = Time | Frequency | WideSpectrum | WideSpectrumFrequency | Jamming | Delay

type_synonym sweep_sig = "real \<times> real \<times> int \<times> nat \<times> int"

record window =
  mode :: mode
  rebuilding :: bool
  toggle_checked :: bool
  fft_size :: nat
  samp_rate :: real

record sweep_state = window +
  sweep_active :: bool
  sweep_busy :: bool
  probe_present :: bool
  center_freqs :: "real list"
  total_steps :: nat
  total_bins :: nat
  freq_axis :: "real list"
  sweep_buffer :: "real list"
  sweep_ptr :: nat
  step_freq_hz :: "real option"
  cap_retries :: nat
  last_fft :: "real list option"
  last_valid_sweep_start :: real
  last_valid_sweep_end :: real
  last_sweep_sig :: "sweep_sig option"
  sweep_avg_alpha :: real
  sweep_prev_linear :: "real list option"
  sweep_db_cal :: real
  peak_enabled :: bool
  peak_env :: "real list option"

text \<open>What the planner shows or prints, in order.\<close>

datatype plan_effect =
    Notice string
  | SetStartText string
  | SetEndText string
  | StopFlowgraph
  | LogConfigured nat nat nat
  | LogParseError

text \<open>The hard limits, 1 Hz to 4 GHz, of the two sweep bounds.\<close>

definition clamp_start :: "real \<Rightarrow> real \<times> plan_effect list" where
  "clamp_start f =
     (if f \<le> 0 then (1, [SetStartText ''1'', Notice ''Sweep Start set to 1 Hz''])
      else if 4000000000 < f then (4000000000, [SetStartText ''4e9'', Notice ''Sweep Start set to 4 GHz''])
      else (f, []))"

definition clamp_end :: "real \<Rightarrow> real \<times> plan_effect list" where
  "clamp_end f =
     (if f \<le> 0 then (1, [SetEndText ''1'', Notice ''Sweep End set to 1 Hz''])
      else if 4000000000 < f then (4000000000, [SetEndText ''4e9'', Notice ''Sweep End set to 4 GHz''])
      else (f, []))"

text \<open>
  The fallback both failure paths install: one FFT frame of bins, a dummy axis, a zeroed
  buffer; a running sweep is stopped.  The plan itself (\<^verbatim>\<open>center_freqs\<close>) is left as it was.
\<close>

definition sweep_fallback :: "sweep_state \<Rightarrow> sweep_state \<times> plan_effect list" where
  "sweep_fallback s =
     (s\<lparr>total_bins := fft_size s,
        freq_axis := linspace_closed 0 (samp_rate s) (fft_size s),
        sweep_buffer := replicate (fft_size s) 0,
        toggle_checked := False\<rparr>,
      if toggle_checked s then [StopFlowgraph] else [])"

text \<open>
  \<^verbatim>\<open>center_freqs = [sweep_start + (i + 0.5) * step for i in range(num_steps)]\<close>: a float
  addition, a float product, a float addition.
\<close>

definition plan_center_freqs :: "real \<Rightarrow> real \<Rightarrow> int \<Rightarrow> real list" where
  "plan_center_freqs sweep_start step num_steps =
     map (\<lambda>i. fl (sweep_start + fl (fl (real i + 1 / 2) * step))) [0..<nat num_steps]"

text \<open>
  \<^verbatim>\<open>bin_freqs = np.linspace(-step / 2.0, step / 2.0, fft_size, endpoint=False)\<close>,
  \<^verbatim>\<open>freq_axis = np.concatenate([bin_freqs + cf for cf in center_freqs])\<close>
\<close>

definition plan_freq_axis :: "real \<Rightarrow> nat \<Rightarrow> real list \<Rightarrow> real list" where
  "plan_freq_axis step n cfs =
     concat (map (\<lambda>cf. map (\<lambda>b. fl (b + cf)) (linspace_open (fl (- step / 2)) (fl (step / 2)) n)) cfs)"


definition plan_center :: "real \<Rightarrow> real \<Rightarrow> nat \<Rightarrow> real" where
  "plan_center start step i = fl (start + fl (fl (real i + 1 / 2) * step))"

text \<open>
  \<^verbatim>\<open>validate_sweep_inputs(quiet)\<close>.  The two arguments after \<open>quiet\<close> are what
  \<^verbatim>\<open>parse_freq_input\<close> returned for the two text fields, \<^term>\<open>None\<close> when it raised.
  The result is the returned flag, the attributes after the call and the effects.
  \<^verbatim>\<open>ratio = (sweep_end - sweep_start) / step\<close> is a float subtraction and a float division;
  \<^verbatim>\<open>int(np.ceil(ratio))\<close> is exact.
\<close>

definition validate_sweep_inputs ::
  "bool \<Rightarrow> real option \<Rightarrow> real option \<Rightarrow> sweep_state \<Rightarrow> bool \<times> sweep_state \<times> plan_effect list" where
  "validate_sweep_inputs quiet start_in end_in s =
     (case (start_in, end_in) of
        (Some f0, Some f1) \<Rightarrow>
          (let (sweep_start, e0) = clamp_start f0;
               (sweep_end, e1) = clamp_end f1
           in if sweep_end \<le> sweep_start then
                (let (s', e2) = sweep_fallback s
                 in (False, s', e0 @ e1 @ [Notice ''Sweep End must be greater than Sweep Start''] @ e2))
              else
                (let s1 = s\<lparr>last_valid_sweep_start := sweep_start, last_valid_sweep_end := sweep_end\<rparr>;
                     step = samp_rate s
                 in if step \<le> 0 then
                      (let (s', e2) = sweep_fallback s1
                       in (False, s', e0 @ e1 @ [LogParseError, Notice ''[ERROR] Invalid sweep inputs''] @ e2))
                    else
                      (let ratio = fl (fl (sweep_end - sweep_start) / step);
                           num_steps = \<lceil>ratio\<rceil>
                       in if num_steps < 1 then
                            (let (s', e2) = sweep_fallback s1
                             in (False, s', e0 @ e1 @ [LogParseError, Notice ''[ERROR] Invalid sweep inputs''] @ e2))
                          else
                            (let sig = (of_int (py_round (sweep_start * 10)) / 10,
                                        of_int (py_round (sweep_end * 10)) / 10,
                                        py_round step, fft_size s, num_steps);
                                 same_as_last = (last_sweep_sig s1 = Some sig);
                                 cfs = plan_center_freqs sweep_start step num_steps;
                                 steps = length cfs;
                                 bins = steps * fft_size s;
                                 s2 = s1\<lparr>last_sweep_sig := Some sig,
                                         center_freqs := cfs,
                                         total_steps := steps,
                                         total_bins := bins,
                                         freq_axis := plan_freq_axis step (fft_size s) cfs,
                                         sweep_buffer := replicate bins 0,
                                         sweep_prev_linear := None,
                                         sweep_ptr := 0,
                                         peak_env := None\<rparr>
                             in (True, s2,
                                 e0 @ e1 @ (if \<not> quiet \<and> \<not> same_as_last
                                            then [LogConfigured steps (fft_size s) bins] else []))))))
      | _ \<Rightarrow>
          (let (s', e2) = sweep_fallback s
           in (False, s', [LogParseError, Notice ''[ERROR] Invalid sweep inputs''] @ e2)))"

text \<open>
  A freshly built wide-spectrum window (\<^verbatim>\<open>__init__\<close> and the sweep controls it builds):
  20 MS/s, 1024 bins, the text fields at 80 MHz and 100 MHz, nothing planned or captured yet.
\<close>

definition sweep_init :: sweep_state where
  "sweep_init =
     \<lparr>mode = WideSpectrum, rebuilding = False, toggle_checked = False, fft_size = 1024,
      samp_rate = 20000000, sweep_active = False, sweep_busy = False, probe_present = True,
      center_freqs = [], total_steps = 0, total_bins = 0, freq_axis = [], sweep_buffer = [],
      sweep_ptr = 0, step_freq_hz = None, cap_retries = 0, last_fft = None,
      last_valid_sweep_start = 80000000, last_valid_sweep_end = 100000000,
      last_sweep_sig = None, sweep_avg_alpha = 1 / 5, sweep_prev_linear = None,
      sweep_db_cal = 0, peak_enabled = False, peak_env = None\<rparr>"

section \<open>Sweep capture: \<^verbatim>\<open>capture_fft\<close>\<close>

text \<open>A Python slice \<^verbatim>\<open>xs[a:b]\<close> with \<open>0 \<le> a\<close> and \<open>0 \<le> b\<close>.\<close>

definition py_slice :: "'a list \<Rightarrow> nat \<Rightarrow> nat \<Rightarrow> 'a list" where
  "py_slice xs a b = take (b - a) (drop a xs)"

text \<open>\<^verbatim>\<open>xs[a:b] = v\<close> for a scalar \<open>v\<close>: every position of the slice gets \<open>v\<close>.\<close>

definition fill_slice :: "'a list \<Rightarrow> nat \<Rightarrow> nat \<Rightarrow> 'a \<Rightarrow> 'a list" where
  "fill_slice xs a b v = map (\<lambda>i. if a \<le> i \<and> i < b then v else xs ! i) [0..<length xs]"

text \<open>
  \<^verbatim>\<open>buf[a:b] = v\<close> for an array \<open>v\<close>: numpy clips the slice to the buffer and raises unless
  \<open>v\<close> has the length of the slice or length one (which it repeats).
\<close>

definition assign_slice :: "'a list \<Rightarrow> nat \<Rightarrow> nat \<Rightarrow> 'a list \<Rightarrow> 'a list option" where
  "assign_slice buf a b v =
     (let n = length buf; a' = min a n; b' = max a' (min b n); m = b' - a'
      in if length v = m then Some (take a' buf @ v @ drop b' buf)
         else if length v = 1 then Some (take a' buf @ replicate m (v ! 0) @ drop b' buf)
         else None)"

text \<open>\<^verbatim>\<open>buf[sel]\<close> for an array of indices: an index past the end raises.\<close>

definition take_indices :: "'a list \<Rightarrow> nat list \<Rightarrow> 'a list option" where
  "take_indices buf sel = (if list_all (\<lambda>k. k < length buf) sel then Some (map ((!) buf) sel) else None)"

text \<open>\<^verbatim>\<open>xs[::stride]\<close> for \<open>stride \<ge> 1\<close>: the elements at 0, stride, 2 stride, ...\<close>

definition every_nth :: "nat \<Rightarrow> 'a list \<Rightarrow> 'a list" where
  "every_nth stride xs = map ((!) xs) (filter (\<lambda>i. i mod stride = 0) [0..<length xs])"

definition mean :: "real list \<Rightarrow> real" where
  "mean xs = sum_list xs / real (length xs)"

text \<open>
  \<^verbatim>\<open>np.allclose(a, b, rtol=0.0, atol=t)\<close>: every \<open>|a[i] - b[i]| \<le> t\<close>.  Arrays of
  different lengths broadcast when one of them has length one, and raise otherwise.
\<close>

definition np_allclose :: "real list \<Rightarrow> real list \<Rightarrow> real \<Rightarrow> bool option" where
  "np_allclose a b t =
     (if length a = length b then Some (list_all2 (\<lambda>x y. \<bar>x - y\<bar> \<le> t) a b)
      else if length b = 1 then Some (list_all (\<lambda>x. \<bar>x - b ! 0\<bar> \<le> t) a)
      else if length a = 1 then Some (list_all (\<lambda>y. \<bar>a ! 0 - y\<bar> \<le> t) b)
      else None)"

text \<open>
  The DC notch of \<^verbatim>\<open>capture_fft\<close>, on the scaled magnitudes (\<open>c\<close> the centre bin, \<open>k = 2\<close>):
  \<^verbatim>\<open>
  if fft_size >= 16:
      loL, loR = max(0, c - (k + 3)), max(0, c - (k + 1))
      hiL, hiR = min(fft_size, c + (k + 1)), min(fft_size, c + (k + 3))
      neigh = []
      if loL < loR: neigh.extend(mags[loL:loR])
      if hiL < hiR: neigh.extend(mags[hiL:hiR])
      if len(neigh) >= 2:
          mags[max(0, c - k):min(fft_size, c + k + 1)] = float(np.mean(neigh))
  \<close>
  Subtraction on \<^typ>\<open>nat\<close> stops at 0, which is the \<^verbatim>\<open>max(0, _)\<close> of the source.
\<close>

definition notch_neigh :: "nat \<Rightarrow> real list \<Rightarrow> real list" where
  "notch_neigh n mags =
     (let c = n div 2; k = 2;
          loL = c - (k + 3); loR = c - (k + 1);
          hiL = min n (c + (k + 1)); hiR = min n (c + (k + 3))
      in (if loL < loR then py_slice mags loL loR else []) @
         (if hiL < hiR then py_slice mags hiL hiR else []))"

definition dc_notch :: "nat \<Rightarrow> real list \<Rightarrow> real list" where
  "dc_notch n mags =
     (let c = n div 2; k = 2
      in if 16 \<le> n then
           (let neigh = notch_neigh n mags
            in if 2 \<le> length neigh then fill_slice mags (c - k) (min n (c + k + 1)) (mean neigh)
               else mags)
         else mags)"

text \<open>\<^verbatim>\<open>mags *= (1.0 / float(self.fft_size))\<close>\<close>

definition scale_mags :: "nat \<Rightarrow> real list \<Rightarrow> real list" where
  "scale_mags n mags = map (\<lambda>x. x * (1 / real n)) mags"

text \<open>\<^verbatim>\<open>np.clip(x, lo, hi)\<close>\<close>

definition clip :: "real \<Rightarrow> real \<Rightarrow> real \<Rightarrow> real" where
  "clip x lo hi = min (max x lo) hi"

datatype capture_outcome =
    Ignored
  | RetryScheduled nat
  | StepSkipped
  | NoBinsInRange
  | Captured
  | CaptureError

datatype capture_effect =
    SetCurve "real list" "real list"
  | SetPeak "real list" "real list"
  | PeakVisible bool
  | LogCaptureError

text \<open>
  The bounded retry that every failed check of \<^verbatim>\<open>capture_fft\<close> runs:
  \<^verbatim>\<open>
  if self._cap_retries < 3:
      self._cap_retries += 1
      Qt.QTimer.singleShot(8, self.capture_fft)
      return
  self.sweep_ptr = (self.sweep_ptr + 1) % len(self.center_freqs)
  self._cap_retries = 0
  return
  \<close>
  The \<^verbatim>\<open>finally\<close> clause clears \<^verbatim>\<open>sweep_busy\<close> on the way out.
\<close>

definition advance_ptr :: "sweep_state \<Rightarrow> sweep_state" where
  "advance_ptr s = s\<lparr>sweep_ptr := (sweep_ptr s + 1) mod length (center_freqs s), cap_retries := 0\<rparr>"

definition retry_or_skip :: "sweep_state \<Rightarrow> sweep_state \<times> capture_outcome \<times> capture_effect list" where
  "retry_or_skip s =
     (if cap_retries s < 3
      then (s\<lparr>cap_retries := cap_retries s + 1, sweep_busy := False\<rparr>, RetryScheduled 8, [])
      else ((advance_ptr s)\<lparr>sweep_busy := False\<rparr>, StepSkipped, []))"

text \<open>An exception inside the \<^verbatim>\<open>try\<close>: logged, \<^verbatim>\<open>sweep_busy\<close> cleared, nothing else undone.\<close>

definition capture_failed :: "sweep_state \<Rightarrow> sweep_state \<times> capture_outcome \<times> capture_effect list" where
  "capture_failed s = (s\<lparr>sweep_busy := False\<rparr>, CaptureError, [LogCaptureError])"

text \<open>
  \<^verbatim>\<open>mask = (freq_axis >= start) & (freq_axis <= end); idx = np.flatnonzero(mask)\<close>
\<close>

definition in_range_idx :: "real list \<Rightarrow> real \<Rightarrow> real \<Rightarrow> nat list" where
  "in_range_idx axis start end = filter (\<lambda>k. start \<le> axis ! k \<and> axis ! k \<le> end) [0..<length axis]"

text \<open>
  The second half of \<^verbatim>\<open>capture_fft\<close>, once the segment is in the buffer: mask the axis to
  the sweep range, decimate to at most 1024 points, smooth in linear power, convert to dB,
  plot, keep the peak envelope, advance.
\<close>

definition stitch_and_plot :: "sweep_state \<Rightarrow> sweep_state \<times> capture_outcome \<times> capture_effect list" where
  "stitch_and_plot s =
     (let start = last_valid_sweep_start s;
          end = last_valid_sweep_end s;
          idx = in_range_idx (freq_axis s) start end
      in if idx = [] then ((advance_ptr s)\<lparr>sweep_busy := False\<rparr>, NoBinsInRange, [])
         else
           (let max_bins = 1024;
                stride = nat \<lceil>real (length idx) / real max_bins\<rceil>;
                sel = every_nth stride idx
            in case take_indices (sweep_buffer s) sel of
                 None \<Rightarrow> capture_failed s
               | Some y_lin \<Rightarrow>
                  (let x_hz = map ((!) (freq_axis s)) sel;
                       a = clip (sweep_avg_alpha s) 0 1;
                       prev = (case sweep_prev_linear s of
                                 None \<Rightarrow> y_lin
                               | Some p \<Rightarrow> if length p \<noteq> length y_lin then y_lin else p);
                       sm_lin = map (\<lambda>(p, y). (1 - a) * p + a * y) (zip prev y_lin);
                       s1 = s\<lparr>sweep_prev_linear := Some sm_lin\<rparr>;
                       db = map (\<lambda>v. max (20 * log 10 (clip v (1 / 10 ^ 12) (10 ^ 9)) + sweep_db_cal s)
                                          (- 140)) sm_lin;
                       x_mhz = map (\<lambda>x. x / 1000000) x_hz;
                       (s2, pe) =
                         (if peak_enabled s1 then
                            (let env = (case peak_env s1 of
                                          None \<Rightarrow> db
                                        | Some e \<Rightarrow> if length e \<noteq> length db then db
                                                    else map (\<lambda>(u, v). max u v) (zip e db))
                             in (s1\<lparr>peak_env := Some env\<rparr>, [SetPeak x_mhz env, PeakVisible True]))
                          else (s1, [PeakVisible False]))
                   in ((advance_ptr s2)\<lparr>sweep_busy := False\<rparr>, Captured, SetCurve x_mhz db # pe))))"

text \<open>
  \<^verbatim>\<open>capture_fft\<close>.  \<open>tuned\<close> and \<open>tuned_after\<close> are what \<^verbatim>\<open>src.get_center_freq(0)\<close>
  returned before and after the read (\<^term>\<open>None\<close> when it raised); \<open>raw\<close> is the vector
  \<^verbatim>\<open>probe.level()\<close> returned (\<^term>\<open>None\<close> when it raised, returned nothing or returned
  a value that is not finite).
\<close>

definition capture_fft ::
  "real option \<Rightarrow> real list option \<Rightarrow> real option \<Rightarrow> sweep_state
     \<Rightarrow> sweep_state \<times> capture_outcome \<times> capture_effect list" where
  "capture_fft tuned raw tuned_after s =
     (if (mode s \<noteq> WideSpectrum \<and> mode s \<noteq> WideSpectrumFrequency) \<or> \<not> sweep_active s \<or> rebuilding s
      then (s\<lparr>sweep_busy := False\<rparr>, Ignored, [])
      else if \<not> probe_present s \<or> center_freqs s = []
      then (s\<lparr>sweep_busy := False\<rparr>, Ignored, [])
      else case step_freq_hz s of
        None \<Rightarrow> (s\<lparr>cap_retries := 0, sweep_busy := False\<rparr>, Ignored, [])
      | Some step \<Rightarrow>
         (if (case tuned of None \<Rightarrow> False | Some t \<Rightarrow> 1 < \<bar>t - step\<bar>) then retry_or_skip s
          else case raw of
            None \<Rightarrow> retry_or_skip s
          | Some mags \<Rightarrow>
             (if length mags \<noteq> fft_size s then retry_or_skip s
              else if (case tuned_after of None \<Rightarrow> True | Some t \<Rightarrow> 1 < \<bar>t - step\<bar>) then retry_or_skip s
              else case (case last_fft s of
                           None \<Rightarrow> Some False
                         | Some l \<Rightarrow> np_allclose mags l (1 / 10 ^ 8)) of
                None \<Rightarrow> capture_failed s
              | Some True \<Rightarrow> retry_or_skip s
              | Some False \<Rightarrow>
                 (let s1 = s\<lparr>last_fft := Some mags\<rparr>;
                      seg = dc_notch (fft_size s1) (scale_mags (fft_size s1) mags);
                      expected = length (center_freqs s1) * fft_size s1;
                      s2 = (if length (sweep_buffer s1) \<noteq> expected
                            then s1\<lparr>sweep_buffer := replicate expected 0\<rparr> else s1);
                      b = sweep_ptr s2 * fft_size s2;
                      e = b + fft_size s2
                  in case assign_slice (sweep_buffer s2) b e seg of
                       None \<Rightarrow> capture_failed s2
                     | Some buf \<Rightarrow> stitch_and_plot (s2\<lparr>sweep_buffer := buf\<rparr>)))))"

text \<open>
  A sweep in progress, for the examples: two steps of 4 bins, tuned to the first step, the
  last accepted capture being \<open>[1, 2, 3, 4]\<close>.
\<close>

definition stale_example :: sweep_state where
  "stale_example = sweep_init\<lparr>sweep_active := True, fft_size := 4,
     center_freqs := [90000000, 110000000], step_freq_hz := Some 90000000,
     last_fft := Some [1, 2, 3, 4]\<rparr>"





section \<open>Python string helpers\<close>

text \<open>
  Text is ASCII.  \<^verbatim>\<open>str.strip()\<close> removes leading and trailing whitespace: tab, line feed,
  vertical tab, form feed, carriage return, the four separators \<open>0x1c\<close> to \<open>0x1f\<close> and space.
\<close>

definition py_space :: "char \<Rightarrow> bool" where
  "py_space c = (c \<in> set [CHR 0x09, CHR 0x0A, CHR 0x0B, CHR 0x0C, CHR 0x0D,
                            CHR 0x1C, CHR 0x1D, CHR 0x1E, CHR 0x1F, CHR '' ''])"

definition py_strip :: "string \<Rightarrow> string" where
  "py_strip t = rev (dropWhile py_space (rev (dropWhile py_space t)))"

text \<open>\<^verbatim>\<open>str.upper()\<close>: the letters \<open>a\<close> to \<open>z\<close> become \<open>A\<close> to \<open>Z\<close>.\<close>

definition upper_char :: "char \<Rightarrow> char" where
  "upper_char c =
     (case map_of (zip ''abcdefghijklmnopqrstuvwxyz'' ''ABCDEFGHIJKLMNOPQRSTUVWXYZ'') c of
        None \<Rightarrow> c | Some u \<Rightarrow> u)"

definition py_upper :: "string \<Rightarrow> string" where
  "py_upper t = map upper_char t"

text \<open>\<^verbatim>\<open>t.split(":")\<close>: the pieces between the colons, at least one piece.\<close>

fun split_colon :: "string \<Rightarrow> string list" where
  "split_colon [] = [[]]"
| "split_colon (c # cs) =
     (if c = CHR '':'' then [] # split_colon cs
      else (case split_colon cs of [] \<Rightarrow> [[c]] | p # ps \<Rightarrow> (c # p) # ps))"

text \<open>\<^verbatim>\<open>xs.index(x)\<close> for an \<open>x\<close> that occurs in \<open>xs\<close>.\<close>

fun index_of :: "'a list \<Rightarrow> 'a \<Rightarrow> nat" where
  "index_of [] x = 0"
| "index_of (y # ys) x = (if y = x then 0 else Suc (index_of ys x))"

section \<open>Frequency policy: \<^verbatim>\<open>validate_port_ranges\<close>\<close>

datatype range_error =
    InvalidFormat string
  | LowerNotBelowUpper string
  | UpperExceeds string
  | OverlapOrTouch string string

text \<open>
  One text field, as the \<^verbatim>\<open>try\<close> block reads it.  \<open>pyfloat\<close> is Python's \<^verbatim>\<open>float()\<close> on a
  string, \<^term>\<open>None\<close> when it raises \<^verbatim>\<open>ValueError\<close>.
  \<^verbatim>\<open>
  text = line.text().strip()
  parts = text.replace(" ", "").split(":")
  if len(parts) != 2: raise ValueError("Invalid format")
  low = float(parts[0]); high = float(parts[1])
  if low >= high: raise ValueError("Lower bound must be < upper bound")
  if high > 4000: raise ValueError("Upper limit exceeds 4000 MHz")
  \<close>
\<close>

definition read_range :: "(string \<Rightarrow> real option) \<Rightarrow> string \<Rightarrow> (real \<times> real) option" where
  "read_range pyfloat t =
     (let parts = split_colon (filter (\<lambda>c. c \<noteq> CHR '' '') (py_strip t))
      in if length parts \<noteq> 2 then None
         else case pyfloat (parts ! 0) of
                None \<Rightarrow> None
              | Some low \<Rightarrow> (case pyfloat (parts ! 1) of None \<Rightarrow> None | Some high \<Rightarrow> Some (low, high)))"

fun collect_ranges ::
  "(string \<Rightarrow> real option) \<Rightarrow> (string \<times> string) list \<Rightarrow> range_error + (real \<times> real \<times> string) list" where
  "collect_ranges pyfloat [] = Inr []"
| "collect_ranges pyfloat ((port, t) # rest) =
     (case read_range pyfloat t of
        None \<Rightarrow> Inl (InvalidFormat port)
      | Some (low, high) \<Rightarrow>
          if high \<le> low then Inl (LowerNotBelowUpper port)
          else if 4000 < high then Inl (UpperExceeds port)
          else (case collect_ranges pyfloat rest of
                  Inl e \<Rightarrow> Inl e
                | Inr rs \<Rightarrow> Inr ((low, high, port) # rs)))"

text \<open>
  \<^verbatim>\<open>
  for i in range(len(ranges) - 1):
      if ranges[i][1] >= ranges[i + 1][0]: ... return False
  \<close>
\<close>

fun first_overlap :: "(real \<times> real \<times> string) list \<Rightarrow> range_error option" where
  "first_overlap (a # b # rest) =
     (if fst b \<le> fst (snd a) then Some (OverlapOrTouch (snd (snd a)) (snd (snd b)))
      else first_overlap (b # rest))"
| "first_overlap _ = None"

text \<open>
  \<^verbatim>\<open>validate_port_ranges\<close>: the fields in the order of the dictionary; \<^verbatim>\<open>ranges.sort()\<close>
  orders the triples \<open>(low, high, port)\<close> lexicographically.  \<^term>\<open>None\<close> is \<^verbatim>\<open>return True\<close>,
  an error is \<^verbatim>\<open>return False\<close> with that message shown.
\<close>

definition validate_port_ranges ::
  "(string \<Rightarrow> real option) \<Rightarrow> (string \<times> string) list \<Rightarrow> range_error option" where
  "validate_port_ranges pyfloat port_inputs =
     (case collect_ranges pyfloat port_inputs of
        Inl e \<Rightarrow> Some e
      | Inr ranges \<Rightarrow> first_overlap (sort ranges))"

text \<open>
  The claim's reading of the same check, on the ranges themselves: some range has
  \<open>low \<ge> high\<close>, or \<open>high > 4000\<close>, or, the ranges sorted by their lower bound, some range
  reaches the lower bound of its successor.
\<close>

definition spec_rejects :: "(real \<times> real \<times> string) list \<Rightarrow> bool" where
  "spec_rejects rs =
     ((\<exists>r \<in> set rs. fst (snd r) \<le> fst r) \<or> (\<exists>r \<in> set rs. 4000 < fst (snd r)) \<or>
      (let xs = sort_key fst rs
       in \<exists>i. i + 1 < length xs \<and> fst (xs ! (i + 1)) \<le> fst (snd (xs ! i))))"

text \<open>
  Python's \<^verbatim>\<open>float()\<close> on the literals the examples use: digits, optionally a point and
  more digits.  \<^term>\<open>None\<close> on every other string, so it stands for \<^verbatim>\<open>float()\<close> on such
  literals only.
\<close>

definition digit_val :: "char \<Rightarrow> nat option" where
  "digit_val c = map_of (zip ''0123456789'' [0, 1, 2, 3, 4, 5, 6, 7, 8, 9]) c"

fun digits_val :: "nat \<Rightarrow> string \<Rightarrow> nat option" where
  "digits_val acc [] = Some acc"
| "digits_val acc (c # cs) = (case digit_val c of None \<Rightarrow> None | Some d \<Rightarrow> digits_val (10 * acc + d) cs)"

definition decimal_float :: "string \<Rightarrow> real option" where
  "decimal_float t =
     (let ip = takeWhile (\<lambda>c. c \<noteq> CHR ''.'') t; rest = dropWhile (\<lambda>c. c \<noteq> CHR ''.'') t
      in if ip = [] then None
         else case digits_val 0 ip of
                None \<Rightarrow> None
              | Some i \<Rightarrow>
                 (if rest = [] then Some (real i)
                  else if tl rest = [] then None
                  else case digits_val 0 (tl rest) of
                         None \<Rightarrow> None
                       | Some f \<Rightarrow> Some (real i + real f / 10 ^ length (tl rest))))"

section \<open>Antenna selection: \<^verbatim>\<open>update_antenna\<close>\<close>

text \<open>
  The attributes of the window that the antenna selection and the detector use.
  \<^verbatim>\<open>antenna_edit\<close> is the text of the antenna field, \<^term>\<open>None\<close> in the modes that do not build
  it; \<^verbatim>\<open>antenna_error_label\<close>, \<^verbatim>\<open>has_src\<close> and \<^verbatim>\<open>has_oc_panel\<close> say whether the label, the
  receiver and the LED panel exist.  An attribute read with \<^verbatim>\<open>getattr(self, name, default)\<close>
  or tested with \<^verbatim>\<open>hasattr\<close> is an option, \<^term>\<open>None\<close> while it is unset.
\<close>

record det_state = window +
  antenna_select :: string
  antenna_edit :: "string option"
  antenna_error_label :: bool
  has_src :: bool
  has_oc_panel :: bool
  ports :: "string list"
  current_port_index :: nat
  jam_alpha :: real
  jam_thresh_db :: real
  jam_occ_min :: real
  jam_occ_multipeak :: real
  jam_span_min :: real
  jam_sfm_min_db :: real
  sfm_offset :: real
  jam_median_db :: real
  jam_band_db :: real
  jam_hold_s :: real
  jam_cooldown_s :: real
  jam_ready_at :: real
  jam_baseline_db :: "real list option"
  jam_started :: "real option"
  jam_cooldown_until :: real
  sfm_ref :: "real option"
  jam_mask :: "bool list option"
  jam_ignore_until :: "real option"
  baseline_freeze_until :: "real option"
  occ_req_ema :: "real option"
  jam_band_state :: bool
  jam_med_state :: bool
  score_ema :: "real option"
  jam_last_switch :: "real option"
  last_score_at_switch :: "real option"
  jam_debug :: bool
  jam_last_dbg :: real

text \<open>What the two methods do to the hardware and the widgets, in order.\<close>

datatype ui_effect =
    HwSetAntenna string
  | LogSwitched string
  | PanelSetActive string
  | AntennaChanged string
  | WarnInvalid string
  | ShowAntennaError string
  | SetAntennaEditText string
  | ShowJamAlert
  | DebugLine
  | LogDetectorError

definition valid_ports :: "string list" where
  "valid_ports = [''A1'', ''A2'', ''A3'', ''A4'', ''B1'', ''B2'', ''B3'', ''B4'']"

text \<open>
  \<^verbatim>\<open>update_antenna(val)\<close>.  \<open>clk\<close> holds the two readings of \<^verbatim>\<open>time.time()\<close> the jamming
  branch takes.  A failing \<^verbatim>\<open>src.set_antenna\<close> is caught and logged, so the command counts
  as issued either way.
\<close>

definition update_antenna :: "string option \<Rightarrow> real \<times> real \<Rightarrow> det_state \<Rightarrow> det_state \<times> ui_effect list" where
  "update_antenna val clk s =
     (let v = (case val of
                 None \<Rightarrow> (case antenna_edit s of
                             None \<Rightarrow> antenna_select s
                           | Some t \<Rightarrow> py_upper (py_strip t))
               | Some x \<Rightarrow> py_upper (py_strip x))
      in if v \<in> set valid_ports then
           (let s1 = s\<lparr>antenna_select := v\<rparr>;
                s2 = (if mode s1 = Jamming then
                        s1\<lparr>jam_baseline_db := None,
                           jam_ready_at := fst clk + 3 / 2,
                           current_port_index :=
                             (if antenna_select s1 \<in> set (ports s1)
                              then index_of (ports s1) (antenna_select s1)
                              else current_port_index s1),
                           jam_last_switch := Some (snd clk)\<rparr>
                      else s1)
            in (s2, (if has_src s then [HwSetAntenna v] else []) @ [LogSwitched v] @
                    (if has_oc_panel s then [PanelSetActive v] else []) @ [AntennaChanged v]))
         else
           (s\<lparr>antenna_edit := (case antenna_edit s of None \<Rightarrow> None | Some _ \<Rightarrow> Some (antenna_select s))\<rparr>,
            [WarnInvalid v] @ (if antenna_error_label s then [ShowAntennaError v] else []) @
            (case antenna_edit s of None \<Rightarrow> [] | Some _ \<Rightarrow> [SetAntennaEditText (antenna_select s)])))"

section \<open>Interference detector: \<^verbatim>\<open>check_jamming\<close>\<close>

text \<open>
  An elementwise operation on two numpy arrays: equal lengths, or one of them of length one,
  which is repeated; anything else raises.
\<close>

definition broadcast2 :: "(real \<Rightarrow> real \<Rightarrow> real) \<Rightarrow> real list \<Rightarrow> real list \<Rightarrow> real list option" where
  "broadcast2 f a b =
     (if length a = length b then Some (map (\<lambda>(x, y). f x y) (zip a b))
      else if length a = 1 then Some (map (f (a ! 0)) b)
      else if length b = 1 then Some (map (\<lambda>x. f x (b ! 0)) a)
      else None)"

text \<open>\<^verbatim>\<open>xs[m]\<close> for a boolean mask: the lengths must agree, or numpy raises.\<close>

definition mask_select :: "real list \<Rightarrow> bool list \<Rightarrow> real list option" where
  "mask_select xs m = (if length xs = length m then Some (map fst (filter snd (zip xs m))) else None)"

text \<open>\<^verbatim>\<open>np.median\<close> of a non-empty array.\<close>

definition median :: "real list \<Rightarrow> real" where
  "median xs =
     (let s = sort xs; n = length s
      in if even n then (s ! (n div 2 - 1) + s ! (n div 2)) / 2 else s ! (n div 2))"

text \<open>\<^verbatim>\<open>mags *= 1 / fft_size;  power_db = 20 * log10(clip(mags, 1e-12, 1e9))\<close>\<close>

definition power_db_of :: "nat \<Rightarrow> real list \<Rightarrow> real list" where
  "power_db_of n mags = map (\<lambda>x. 20 * log 10 (clip x (1 / 10 ^ 12) (10 ^ 9))) (scale_mags n mags)"

text \<open>
  \<^verbatim>\<open>
  def spectral_flatness_db(power_lin, eps=1e-12):
      x = np.clip(power_lin, eps, None)
      gmean = np.exp(np.mean(np.log(x)))
      amean = np.mean(x)
      return 10.0 * np.log10((gmean / (amean + eps)) + eps)
  \<close>
\<close>

definition spectral_flatness_db :: "real list \<Rightarrow> real" where
  "spectral_flatness_db power_lin =
     (let eps = 1 / 10 ^ 12;
          x = map (\<lambda>v. max v eps) power_lin;
          gmean = exp (mean (map ln x));
          amean = mean x
      in 10 * log 10 (gmean / (amean + eps) + eps))"

text \<open>The longest run of consecutive \<^term>\<open>True\<close>, which the source gets from the edges of the padded array.\<close>

fun run_scan :: "nat \<Rightarrow> nat \<Rightarrow> bool list \<Rightarrow> nat" where
  "run_scan cur best [] = max cur best"
| "run_scan cur best (b # bs) = (if b then run_scan (Suc cur) best bs else run_scan 0 (max cur best) bs)"

definition max_run :: "bool list \<Rightarrow> nat" where
  "max_run over = run_scan 0 0 over"

text \<open>
  The occupancy requirement of one tick, before smoothing:
  \<^verbatim>\<open>
  scale   = (256.0 / max(64.0, float(Nmask))) ** 0.5
  occ_req = max(0.10, min(0.45, self.jam_occ_min * scale))
  if   sfm_db >= -3.5: occ_req = max(0.10, 0.85 * occ_req)
  elif sfm_db >= -4.0: occ_req = max(0.12, 0.92 * occ_req)
  \<close>
\<close>

definition occ_req_of :: "real \<Rightarrow> nat \<Rightarrow> real \<Rightarrow> real" where
  "occ_req_of occ_min Nmask sfm_db =
     (let scale = sqrt (256 / max 64 (real Nmask));
          occ_req = max (1 / 10) (min (45 / 100) (occ_min * scale))
      in if - (7 / 2) \<le> sfm_db then max (1 / 10) (85 / 100 * occ_req)
         else if - 4 \<le> sfm_db then max (12 / 100) (92 / 100 * occ_req)
         else occ_req)"

text \<open>
  \<^verbatim>\<open>
  if not hasattr(self, "_occ_req_ema") or self._occ_req_ema is None: self._occ_req_ema = occ_req
  else: self._occ_req_ema = 0.6 * self._occ_req_ema + 0.4 * occ_req
  occ_req_eff = float(np.clip(self._occ_req_ema, 0.10, 0.45))
  \<close>
\<close>

definition occ_req_smooth :: "real option \<Rightarrow> real \<Rightarrow> real" where
  "occ_req_smooth ema occ_req = (case ema of None \<Rightarrow> occ_req | Some e \<Rightarrow> 6 / 10 * e + 4 / 10 * occ_req)"

definition occ_req_eff_of :: "real \<Rightarrow> real" where
  "occ_req_eff_of ema = clip ema (1 / 10) (45 / 100)"

text \<open>
  \<^verbatim>\<open>
  band_lift = 10.0 * np.log10((np.mean(10.0**(masked_curr/10.0)) + eps) /
                              (np.mean(10.0**(masked_base/10.0)) + eps))
  \<close>
\<close>

definition band_lift_of :: "real list \<Rightarrow> real list \<Rightarrow> real" where
  "band_lift_of masked_curr masked_base =
     (let eps = 1 / 10 ^ 12
      in 10 * log 10 ((mean (map (\<lambda>v. 10 powr (v / 10)) masked_curr) + eps) /
                      (mean (map (\<lambda>v. 10 powr (v / 10)) masked_base) + eps)))"

text \<open>
  \<^verbatim>\<open>
  score = 0.6 * (occ / max(occ_req_eff, 1e-6)) + 0.25 * max(0.0, band_lift / max(band_on, 1e-6))
        + 0.15 * max(0.0, med_lift / max(med_on, 1e-6))
  \<close>
\<close>

definition jam_score :: "real \<Rightarrow> real \<Rightarrow> real \<Rightarrow> real \<Rightarrow> real \<Rightarrow> real \<Rightarrow> real" where
  "jam_score occ occ_req_eff band_lift band_on med_lift med_on =
     6 / 10 * (occ / max occ_req_eff (1 / 10 ^ 6))
     + 25 / 100 * max 0 (band_lift / max band_on (1 / 10 ^ 6))
     + 15 / 100 * max 0 (med_lift / max med_on (1 / 10 ^ 6))"

text \<open>
  The score a switch needs: the score recorded at the last switch, halved every 8 seconds
  since, plus 0.10, and at least 1.10.
  \<^verbatim>\<open>
  age   = now - getattr(self, "jam_last_switch", 0.0)
  decay = 0.5 ** max(0.0, age / 8.0)
  last  = getattr(self, "_last_score_at_switch", 0.0) * decay
  need  = max(1.10, last + 0.10)
  \<close>
\<close>

definition jam_need :: "real \<Rightarrow> real option \<Rightarrow> real option \<Rightarrow> real" where
  "jam_need now last_switch score_at_switch =
     (let age = now - (case last_switch of None \<Rightarrow> 0 | Some t \<Rightarrow> t);
          decay = (1 / 2) powr (max 0 (age / 8));
          last = (case score_at_switch of None \<Rightarrow> 0 | Some l \<Rightarrow> l) * decay
      in max (11 / 10) (last + 1 / 10))"

text \<open>
  The statistics and decisions of one tick, lines 2036 to 2125 of the source: flatness and its
  reference, occupancy and its requirement, band lift, longest run, the two hysteresis flags,
  the baseline freeze, the composite condition \<open>cond\<close>, the score and the stickiness test
  \<open>improves\<close>.  The result is the attributes after these lines, \<open>cond\<close>, \<open>improves\<close>, the
  flatness of the tick and the debug line if one is printed.
\<close>

definition jam_decide ::
  "real \<Rightarrow> real list \<Rightarrow> real list \<Rightarrow> real \<Rightarrow> det_state
     \<Rightarrow> det_state \<times> bool \<times> bool \<times> real \<times> ui_effect list" where
  "jam_decide now masked_curr masked_base med_lift s =
     (let Nmask = length masked_curr;
          p_lin = map (\<lambda>v. 10 powr (v / 10)) masked_curr;
          sfm_db = spectral_flatness_db p_lin;
          ref = (case sfm_ref s of None \<Rightarrow> sfm_db | Some r \<Rightarrow> 95 / 100 * r + 5 / 100 * sfm_db);
          sfm_gate = max (jam_sfm_min_db s) (ref + sfm_offset s);
          over = map (\<lambda>(c, b). jam_thresh_db s \<le> c - b) (zip masked_curr masked_base);
          n_over = length (filter id over);
          occ = real n_over / real (max 1 Nmask);
          occ_req = occ_req_of (jam_occ_min s) Nmask sfm_db;
          ema = occ_req_smooth (occ_req_ema s) occ_req;
          occ_req_eff = occ_req_eff_of ema;
          band_lift = band_lift_of masked_curr masked_base;
          span_frac = real (max_run over) / real Nmask;
          band_on = jam_band_db s;
          med_on = jam_median_db s;
          band_off = max (1 / 2) (band_on - 8 / 10);
          med_off = max (1 / 2) (med_on - 8 / 10);
          band_ok = ((if \<not> jam_band_state s then band_on else band_off) \<le> band_lift);
          med_ok = ((if \<not> jam_med_state s then med_on else med_off) \<le> med_lift);
          min_bins = max 6 (nat \<lfloor>6 / 1000 * real Nmask\<rfloor>);
          enough_bins = (min_bins \<le> n_over);
          freeze_until = (case baseline_freeze_until s of None \<Rightarrow> 0 | Some f \<Rightarrow> f);
          pre = (8 / 10 * occ_req_eff \<le> occ \<and>
                 (8 / 10 * band_on \<le> band_lift \<or> 8 / 10 * med_on \<le> med_lift \<or>
                  8 / 10 * jam_span_min s \<le> span_frac));
          cond_wideband = (enough_bins \<and> occ_req_eff \<le> occ \<and> (sfm_gate \<le> sfm_db \<or> band_ok));
          cond_multipeak = (enough_bins \<and> jam_occ_multipeak s \<le> occ \<and> jam_span_min s \<le> span_frac);
          cond_median = med_ok;
          cond = (cond_wideband \<or> cond_multipeak \<or> cond_median);
          score = jam_score occ occ_req_eff band_lift band_on med_lift med_on;
          sema = (case score_ema s of None \<Rightarrow> score | Some e \<Rightarrow> 8 / 10 * e + 2 / 10 * score);
          need = jam_need now (jam_last_switch s) (last_score_at_switch s);
          improves = (need \<le> sema);
          dbg = (jam_debug s \<and> 1 / 2 < now - jam_last_dbg s)
      in (s\<lparr>sfm_ref := Some ref,
            occ_req_ema := Some ema,
            jam_band_state := band_ok,
            jam_med_state := med_ok,
            baseline_freeze_until :=
              (if pre \<and> freeze_until \<le> now then Some (now + 6 / 10) else baseline_freeze_until s),
            score_ema := Some sema,
            jam_last_dbg := (if dbg then now else jam_last_dbg s)\<rparr>,
          cond, improves, sfm_db, if dbg then [DebugLine] else []))"

text \<open>
  The hold, dwell and cooldown gate and the switch, lines 2127 to 2159:
  \<^verbatim>\<open>
  if cond and improves:
      if self.jam_started is None: self.jam_started = now
      held        = (now - self.jam_started) >= self.jam_hold_s
      dwell_ok    = (now - getattr(self, "jam_last_switch", 0.0)) >= 0.6
      cooldown_ok = now >= self.jam_cooldown_until
      if held and dwell_ok and cooldown_ok:
          (alert)
          self.current_port_index = (self.current_port_index + 1) % len(self.ports)
          new_port = self.ports[self.current_port_index]
          if self.antenna_edit is not None: self.antenna_edit.setText(new_port)
          self.update_antenna()
          (re-arm)
  else:
      self.jam_started = None
  \<close>
  With no ports the remainder raises, after the alert; the method logs it.
\<close>

definition jam_gate ::
  "real \<Rightarrow> real \<times> real \<Rightarrow> real list \<Rightarrow> real \<Rightarrow> bool \<Rightarrow> bool \<Rightarrow> det_state \<Rightarrow> det_state \<times> ui_effect list" where
  "jam_gate now clk power_db sfm_db cond improves s =
     (if cond \<and> improves then
        (let started = (case jam_started s of None \<Rightarrow> now | Some t \<Rightarrow> t);
             s1 = s\<lparr>jam_started := Some started\<rparr>;
             held = (jam_hold_s s1 \<le> now - started);
             dwell_ok = (6 / 10 \<le> now - (case jam_last_switch s1 of None \<Rightarrow> 0 | Some t \<Rightarrow> t));
             cooldown_ok = (jam_cooldown_until s1 \<le> now)
         in if held \<and> dwell_ok \<and> cooldown_ok then
              (if ports s1 = [] then (s1, [ShowJamAlert, LogDetectorError])
               else
                 (let idx = (current_port_index s1 + 1) mod length (ports s1);
                      new_port = ports s1 ! idx;
                      s2 = s1\<lparr>current_port_index := idx,
                              antenna_edit := (case antenna_edit s1 of None \<Rightarrow> None | Some _ \<Rightarrow> Some new_port)\<rparr>;
                      e1 = (case antenna_edit s1 of None \<Rightarrow> [] | Some _ \<Rightarrow> [SetAntennaEditText new_port]);
                      (s3, e2) = update_antenna None clk s2;
                      s4 = s3\<lparr>jam_last_switch := Some now,
                              jam_cooldown_until := now + jam_cooldown_s s3,
                              jam_started := None,
                              jam_ready_at := now + 8 / 10,
                              baseline_freeze_until := Some (now + 6 / 10),
                              jam_baseline_db := Some power_db,
                              sfm_ref := Some sfm_db,
                              last_score_at_switch := score_ema s3,
                              jam_last_dbg := now\<rparr>
                  in (s4, ShowJamAlert # e1 @ e2)))
            else (s1, []))
      else (s\<lparr>jam_started := None\<rparr>, []))"

text \<open>
  The baseline a tick works with:
  \<^verbatim>\<open>
  freeze_until = getattr(self, "_baseline_freeze_until", 0.0)
  if now >= freeze_until:
      self.jam_baseline_db = (1.0 - self.jam_alpha) * self.jam_baseline_db + self.jam_alpha * power_db
  \<close>
  \<^term>\<open>None\<close> when the two arrays do not fit and numpy raises.
\<close>

definition ema_baseline :: "real \<Rightarrow> real list \<Rightarrow> real list \<Rightarrow> det_state \<Rightarrow> real list option" where
  "ema_baseline now power_db base0 s =
     (let freeze_until = (case baseline_freeze_until s of None \<Rightarrow> 0 | Some f \<Rightarrow> f)
      in if freeze_until \<le> now
         then broadcast2 (\<lambda>b p. (1 - jam_alpha s) * b + jam_alpha s * p) base0 power_db
         else Some base0)"

text \<open>
  The first part of \<^verbatim>\<open>check_jamming\<close>, lines 1987 to 2034: the guards, the capture, the
  ignore window, the baseline and its freeze, the ready window, the mask, the two medians and
  the 8 dB safety valve.  It either ends the tick (\<^term>\<open>Inl\<close>: the attributes and the effects
  the tick ends with) or hands over to the statistics (\<^term>\<open>Inr\<close>: the power spectrum, the
  masked current and baseline bins, the median lift, and the attributes so far).
  \<open>raw\<close> is the vector \<^verbatim>\<open>probe.level()\<close> returned (\<^term>\<open>None\<close> when it raised, returned
  nothing or returned a value that is not finite), \<open>now\<close> the reading of \<^verbatim>\<open>time.time()\<close>.
\<close>

definition jam_front ::
  "real list option \<Rightarrow> real \<Rightarrow> det_state
     \<Rightarrow> (det_state \<times> ui_effect list) + (real list \<times> real list \<times> real list \<times> real \<times> det_state)" where
  "jam_front raw now s =
     (if rebuilding s then Inl (s, [])
      else if mode s \<noteq> Jamming \<or> \<not> toggle_checked s then Inl (s, [])
      else case raw of
        None \<Rightarrow> Inl (s, [])
      | Some mags \<Rightarrow>
         (if length mags \<noteq> fft_size s then Inl (s, [])
          else
            (let power_db = power_db_of (fft_size s) mags
             in if (case jam_ignore_until s of None \<Rightarrow> False | Some u \<Rightarrow> now < u) then Inl (s, [])
                else case jam_baseline_db s of
                  None \<Rightarrow> Inl (s\<lparr>jam_baseline_db := Some power_db\<rparr>, [])
                | Some base0 \<Rightarrow>
                   (case ema_baseline now power_db base0 s of
                      None \<Rightarrow> Inl (s, [LogDetectorError])
                    | Some base \<Rightarrow>
                       (let s1 = s\<lparr>jam_baseline_db := Some base\<rparr>
                        in if now < jam_ready_at s1 then Inl (s1, [])
                           else case jam_mask s1 of
                             None \<Rightarrow> Inl (s1, [])
                           | Some m \<Rightarrow>
                              (if m = [] \<or> \<not> list_ex id m then Inl (s1, [])
                               else case mask_select power_db m of
                                 None \<Rightarrow> Inl (s1, [LogDetectorError])
                               | Some masked_curr \<Rightarrow>
                                  (case mask_select base m of
                                     None \<Rightarrow> Inl (s1, [LogDetectorError])
                                   | Some masked_base \<Rightarrow>
                                      (let med_lift = median masked_curr - median masked_base
                                       in if 8 < med_lift then
                                            Inl (s1\<lparr>jam_baseline_db := Some power_db,
                                                    jam_ignore_until := Some (now + 8 / 10)\<rparr>, [])
                                          else Inr (power_db, masked_curr, masked_base, med_lift, s1)))))))))"

text \<open>
  \<^verbatim>\<open>check_jamming\<close>, one tick of the detector: the first part, then the statistics and
  the gate.  \<open>clk\<close> holds the two later readings of the clock that \<^verbatim>\<open>update_antenna\<close> takes
  if the tick switches.
\<close>

definition check_jamming ::
  "real list option \<Rightarrow> real \<Rightarrow> real \<times> real \<Rightarrow> det_state \<Rightarrow> det_state \<times> ui_effect list" where
  "check_jamming raw now clk s =
     (case jam_front raw now s of
        Inl r \<Rightarrow> r
      | Inr (power_db, masked_curr, masked_base, med_lift, s1) \<Rightarrow>
          (let (s2, cond, improves, sfm_db, e1) = jam_decide now masked_curr masked_base med_lift s1;
               (s3, e2) = jam_gate now clk power_db sfm_db cond improves s2
           in (s3, e1 @ e2)))"

text \<open>The ports a tick switched to: the \<^verbatim>\<open>antenna_changed\<close> signals among its effects.\<close>

fun switch_events :: "ui_effect list \<Rightarrow> string list" where
  "switch_events [] = []"
| "switch_events (AntennaChanged p # es) = p # switch_events es"
| "switch_events (_ # es) = switch_events es"

text \<open>
  A run of the detector: the ticks in order, each with its capture and clock readings; the
  result is the port switches with the time of the tick that made them.
\<close>

fun run_detector ::
  "det_state \<Rightarrow> (real list option \<times> real \<times> (real \<times> real)) list \<Rightarrow> (real \<times> string) list" where
  "run_detector s [] = []"
| "run_detector s ((raw, now, clk) # ticks) =
     map (Pair now) (switch_events (snd (check_jamming raw now clk s)))
       @ run_detector (fst (check_jamming raw now clk s)) ticks"

text \<open>
  \<^verbatim>\<open>_rebuild_jam_mask\<close>: every bin but the centre bin with \<open>max(2, fft_size // 256)\<close> bins on
  each side of it, the first two and the last two.
\<close>

definition rebuild_jam_mask :: "nat \<Rightarrow> bool list" where
  "rebuild_jam_mask n =
     (let k = max 2 (n div 256); c = n div 2
      in map (\<lambda>i. \<not> (c - k \<le> i \<and> i < min n (c + k + 1)) \<and> \<not> i < 2 \<and> \<not> n - 2 \<le> i) [0..<n])"

text \<open>The cyclic order of the ports: \<^verbatim>\<open>self.ports = ['A4','A3','A2','A1','B4','B3','B2','B1']\<close>.\<close>

definition det_ports :: "string list" where
  "det_ports = [''A4'', ''A3'', ''A2'', ''A1'', ''B4'', ''B3'', ''B2'', ''B1'']"

text \<open>
  A jamming window as \<^verbatim>\<open>__init__\<close> and \<^verbatim>\<open>_build_jamming_pipeline\<close> build it with \<open>n\<close>
  bins (1024 in the source), after the Start button was pressed at time \<open>t0\<close>: the handler
  clears the baseline and the hold, sets \<^verbatim>\<open>jam_ready_at = t0 + 1.5\<close>, \<^verbatim>\<open>jam_last_switch = t0\<close> and
  \<^verbatim>\<open>_score_ema = 0.0\<close>.  (It also sets \<^verbatim>\<open>jam_last_score_at_switch\<close>, an attribute nothing
  reads; \<^verbatim>\<open>_last_score_at_switch\<close>, the one the detector reads, exists after the first switch.)
\<close>

definition det_init :: "nat \<Rightarrow> real \<Rightarrow> det_state" where
  "det_init n t0 =
     \<lparr>mode = Jamming, rebuilding = False, toggle_checked = True, fft_size = n,
      samp_rate = 20000000, antenna_select = ''A4'', antenna_edit = Some ''A4'',
      antenna_error_label = True, has_src = True, has_oc_panel = True,
      ports = det_ports,
      current_port_index = 0, jam_alpha = 5 / 100, jam_thresh_db = 65 / 10, jam_occ_min = 1 / 2,
      jam_occ_multipeak = 15 / 100, jam_span_min = 8 / 1000, jam_sfm_min_db = - 5,
      sfm_offset = 8 / 10, jam_median_db = 2, jam_band_db = 3 / 2, jam_hold_s = 4 / 10,
      jam_cooldown_s = 4, jam_ready_at = t0 + 3 / 2, jam_baseline_db = None, jam_started = None,
      jam_cooldown_until = 0, sfm_ref = None, jam_mask = Some (rebuild_jam_mask n),
      jam_ignore_until = None, baseline_freeze_until = None, occ_req_ema = None,
      jam_band_state = False, jam_med_state = False, score_ema = Some 0,
      jam_last_switch = Some t0, last_score_at_switch = None, jam_debug = True, jam_last_dbg = 0\<rparr>"

text \<open>
  The occupancy requirement as the specification words it: the clamped value, times 0.85
  when the flatness is at least \<open>-3.5\<close> dB, times 0.92 when it is at least \<open>-4.0\<close> dB.
\<close>

definition spec_occ_req :: "real \<Rightarrow> nat \<Rightarrow> real \<Rightarrow> real" where
  "spec_occ_req occ_min N sfm_db =
     (let r = clip (occ_min * sqrt (256 / max 64 (real N))) (1 / 10) (45 / 100)
      in if - (7 / 2) \<le> sfm_db then 85 / 100 * r
         else if - 4 \<le> sfm_db then 92 / 100 * r
         else r)"







text \<open>
  A capture of \<open>n\<close> bins whose power is \<open>db\<close> dB in every bin (the scaled magnitude is
  \<open>10 ** (db / 20)\<close>), and the number of bins the mask of the default 1024-bin detector keeps.
\<close>

definition level_mags :: "nat \<Rightarrow> real \<Rightarrow> real list" where
  "level_mags n db = replicate n (real n * 10 powr (db / 20))"

definition mask_bins :: nat where
  "mask_bins = length (filter id (rebuild_jam_mask 1024))"

text \<open>
  States of the default detector (1024 bins), started at time 0, in the middle of a run: its
  baseline is \<open>-10\<close> dB in every bin (\<open>step_state\<close>); its baseline is \<open>-7\<close> dB and its smoothed
  score has grown to 2 (\<open>gap_state\<close>); the same with a hold that began at 9.5 s
  (\<open>hold_state\<close>).
\<close>

definition step_state :: det_state where
  "step_state = (det_init 1024 0)\<lparr>jam_baseline_db := Some (replicate 1024 (- 10))\<rparr>"




text \<open>
  A detector with 16 bins (7 of them in the mask), started at time 0, in the middle of a hold
  that began at 9.5 s, whose baseline lies 7 dB below the capture \<open>flat_mags\<close> (every scaled
  magnitude 1, that is 0 dB) and whose smoothed score has grown to 2.
\<close>

definition flat_mags :: "real list" where
  "flat_mags = [16, 16, 16, 16, 16, 16, 16, 16, 16, 16, 16, 16, 16, 16, 16, 16]"

definition held_state :: det_state where
  "held_state = (det_init 16 0)\<lparr>jam_baseline_db :=
     Some [- 7, - 7, - 7, - 7, - 7, - 7, - 7, - 7, - 7, - 7, - 7, - 7, - 7, - 7, - 7, - 7],
     jam_started := Some (19 / 2), score_ema := Some 2\<rparr>"

text \<open>The baseline of \<open>held_state\<close> after one moving-average step towards 0 dB.\<close>

definition held_base :: "real list" where
  "held_base = [- 133 / 20, - 133 / 20, - 133 / 20, - 133 / 20, - 133 / 20, - 133 / 20,
     - 133 / 20, - 133 / 20, - 133 / 20, - 133 / 20, - 133 / 20, - 133 / 20, - 133 / 20, - 133 / 20,
     - 133 / 20, - 133 / 20]"

text \<open>
  A capture 7 dB above \<open>flat_mags\<close> (every scaled magnitude \<open>10 ** (7 / 20)\<close>), and a run of
  three ticks from \<open>held_state\<close>: the flat capture at 10 s, the louder one at 20 s and at
  20.5 s.
\<close>

definition loud_mags :: "real list" where
  "loud_mags = replicate 16 (16 * 10 powr (7 / 20))"

definition three_ticks :: "(real list option \<times> real \<times> (real \<times> real)) list" where
  "three_ticks = [(Some flat_mags, 10, (10, 10)), (Some loud_mags, 20, (20, 20)),
                  (Some loud_mags, 41 / 2, (41 / 2, 41 / 2))]"

section \<open>Properties\<close>
section \<open>Double-precision rounding\<close>

text \<open>
  Rounding to the nearest integer is off by at most one half and leaves integers alone;
  rounding to binary64 has a relative error of at most \<open>2 ** -53\<close>, keeps the sign, and leaves
  alone every integer multiple of a power of two whose multiplier is below \<open>2 ** 53\<close>.
\<close>

lemma py_round_error: "\<bar>of_int (py_round x) - x\<bar> \<le> 1 / 2"
proof -
  define d where "d = x - of_int \<lfloor>x\<rfloor>"
  have d: "0 \<le> d" "d < 1" unfolding d_def by linarith+
  have x: "x = of_int \<lfloor>x\<rfloor> + d" by (simp add: d_def)
  have "py_round x = \<lfloor>x\<rfloor> \<and> d \<le> 1 / 2 \<or> py_round x = \<lfloor>x\<rfloor> + 1 \<and> 1 / 2 \<le> d"
    unfolding py_round_def Let_def d_def[symmetric] by auto
  then show ?thesis
  proof
    assume a: "py_round x = \<lfloor>x\<rfloor> \<and> d \<le> 1 / 2"
    then have "of_int (py_round x) - x = - d" using x by simp
    then show ?thesis using a d by simp
  next
    assume a: "py_round x = \<lfloor>x\<rfloor> + 1 \<and> 1 / 2 \<le> d"
    then have "of_int (py_round x) - x = 1 - d" using x by simp
    then show ?thesis using a d by simp
  qed
qed

lemma py_round_int: "py_round (of_int z) = z"
  by (simp add: py_round_def)


lemma fl_error: "\<bar>fl x - x\<bar> \<le> \<bar>x\<bar> / 2 ^ 53"
proof (cases "x = 0")
  case True
  then show ?thesis by (simp add: fl_def)
next
  case False
  define e where "e = \<lfloor>log 2 \<bar>x\<bar>\<rfloor>"
  define q :: real where "q = 2 powr (of_int e - 52)"
  define m where "m = \<bar>x\<bar> / q"
  have q: "0 < q" by (simp add: q_def)
  have ax: "0 < \<bar>x\<bar>" using False by simp
  have "of_int e \<le> log 2 \<bar>x\<bar>" unfolding e_def by linarith
  then have "2 powr (of_int e) \<le> 2 powr (log 2 \<bar>x\<bar>)" by (intro powr_mono) simp_all
  then have lo: "2 powr (of_int e) \<le> \<bar>x\<bar>" using ax by simp
  have "q = 2 powr (of_int e) / 2 ^ 52" by (simp add: q_def powr_diff)
  then have qb: "q / 2 \<le> \<bar>x\<bar> / 2 ^ 53" using lo by simp
  have f: "fl x = sgn x * (of_int (py_round m) * q)"
    using False by (simp add: fl_def Let_def e_def q_def m_def)
  have x: "x = sgn x * (m * q)" using q by (simp add: m_def sgn_if abs_if)
  have "fl x - x = sgn x * ((of_int (py_round m) - m) * q)"
    by (subst f, subst (2) x) (simp add: algebra_simps)
  then have "\<bar>fl x - x\<bar> = \<bar>of_int (py_round m) - m\<bar> * q"
    using False q by (simp add: abs_mult sgn_if)
  also have "\<dots> \<le> 1 / 2 * q" using py_round_error[of m] q by (intro mult_right_mono) simp_all
  also have "\<dots> \<le> \<bar>x\<bar> / 2 ^ 53" using qb by simp
  finally show ?thesis .
qed

lemma fl_pos: "0 < x \<Longrightarrow> 0 < fl x"
proof -
  assume h: "0 < x"
  have "\<bar>fl x - x\<bar> \<le> x / 2 ^ 53" using fl_error[of x] h by simp
  moreover have "x / 2 ^ 53 < x" using h by simp
  ultimately show ?thesis by linarith
qed

text \<open>The rounding of a number whose binade is known, and of a number that needs no rounding.\<close>

lemma fl_binade:
  assumes "2 powr (of_int e) \<le> \<bar>x\<bar>" "\<bar>x\<bar> < 2 powr (of_int e + 1)"
  shows "fl x = sgn x * (of_int (py_round (\<bar>x\<bar> / 2 powr (of_int e - 52))) * 2 powr (of_int e - 52))"
proof -
  have ax: "0 < \<bar>x\<bar>" using assms(1) by (smt (verit) powr_gt_zero)
  then have nz: "x \<noteq> 0" by simp
  have "log 2 (2 powr (of_int e)) \<le> log 2 \<bar>x\<bar>" using assms(1) ax by (subst log_le_cancel_iff) simp_all
  then have a: "of_int e \<le> log 2 \<bar>x\<bar>" by simp
  have "log 2 \<bar>x\<bar> < log 2 (2 powr (of_int e + 1))" using assms(2) ax by (subst log_less_cancel_iff) simp_all
  then have b: "log 2 \<bar>x\<bar> < of_int e + 1" by simp
  have "\<lfloor>log 2 \<bar>x\<bar>\<rfloor> = e" using a b by linarith
  then show ?thesis using nz by (simp add: fl_def Let_def)
qed

lemma fl_exact:
  assumes "\<bar>m\<bar> < 2 ^ 53"
  shows "fl (of_int m * 2 powr (of_int k)) = of_int m * 2 powr (of_int k)"
proof (cases "m = 0")
  case True
  then show ?thesis by (simp add: fl_def)
next
  case False
  define a :: real where "a = of_int \<bar>m\<bar>"
  define p where "p = \<lfloor>log 2 a\<rfloor>"
  have "1 \<le> \<bar>m\<bar>" using False by linarith
  then have a1: "1 \<le> a" unfolding a_def by linarith
  have apos: "0 < a" using a1 by linarith
  have "a < 2 ^ 53" unfolding a_def using assms by (metis of_int_less_numeral_power_cancel_iff)
  then have "a < 2 powr 53" by simp
  then have "log 2 a < log 2 (2 powr 53)" using apos by (subst log_less_cancel_iff) simp_all
  then have "log 2 a < 53" by (simp only: log_powr_cancel)
  then have p52: "p \<le> 52" unfolding p_def by linarith
  have pl: "of_int p \<le> log 2 a" "log 2 a < of_int p + 1"
    unfolding p_def by linarith+
  have "(2::real) powr (of_int p) \<le> 2 powr (log 2 a)" using pl(1) by (intro powr_mono) simp_all
  then have lo: "2 powr (of_int p) \<le> a" using apos by simp
  have "2 powr (log 2 a) < (2::real) powr (of_int p + 1)" using pl(2) by (intro powr_less_mono) simp_all
  then have hi: "a < 2 powr (of_int p + 1)" using apos by simp
  define x :: real where "x = of_int m * 2 powr (of_int k)"
  have ax: "\<bar>x\<bar> = a * 2 powr (of_int k)" by (simp add: x_def a_def abs_mult)
  have "2 powr (of_int p) * 2 powr (of_int k) \<le> a * 2 powr (of_int k)"
    using lo by (intro mult_right_mono) simp_all
  then have b1: "2 powr (of_int (p + k)) \<le> \<bar>x\<bar>"
    unfolding ax by (simp add: powr_add)
  have b2: "\<bar>x\<bar> < 2 powr (of_int (p + k) + 1)"
  proof -
    have "a * 2 powr (of_int k) < 2 powr (of_int p + 1) * 2 powr (of_int k)"
      using hi by (intro mult_strict_right_mono) simp_all
    also have "\<dots> = 2 powr (of_int (p + k) + 1)" by (simp add: powr_add[symmetric] algebra_simps)
    finally show ?thesis unfolding ax .
  qed
  have pw: "(2::real) powr (of_int (52 - p)) = 2 ^ nat (52 - p)"
    using p52 by (simp add: powr_realpow[symmetric])
  have "\<bar>x\<bar> / 2 powr (of_int (p + k) - 52) = a * 2 powr (of_int (52 - p))"
    unfolding ax by (simp add: powr_diff powr_add field_simps)
  also have "\<dots> = of_int (\<bar>m\<bar> * 2 ^ nat (52 - p))" unfolding pw a_def by simp
  finally have r: "py_round (\<bar>x\<bar> / 2 powr (of_int (p + k) - 52)) = \<bar>m\<bar> * 2 ^ nat (52 - p)"
    by (simp only: py_round_int)
  have "fl x = sgn x * (of_int (\<bar>m\<bar> * 2 ^ nat (52 - p)) * 2 powr (of_int (p + k) - 52))"
    using fl_binade[OF b1 b2] by (simp only: r)
  also have "of_int (\<bar>m\<bar> * 2 ^ nat (52 - p)) * 2 powr (of_int (p + k) - 52)
      = a * (2 powr (of_int (52 - p)) * 2 powr (of_int (p + k) - 52))"
    unfolding pw a_def by simp
  also have "2 powr (of_int (52 - p)) * 2 powr (of_int (p + k) - 52) = (2::real) powr (of_int k)"
    by (simp add: powr_add[symmetric])
  also have "sgn x * (a * 2 powr (of_int k)) = x"
    unfolding ax[symmetric] by (simp add: sgn_if)
  finally show ?thesis unfolding x_def .
qed



lemma fl_abs_error:
  assumes "\<bar>x\<bar> \<le> 2 ^ 41"
  shows "\<bar>fl x - x\<bar> \<le> 1 / 2 ^ 12"
proof -
  have "\<bar>fl x - x\<bar> \<le> \<bar>x\<bar> / 2 ^ 53" by (rule fl_error)
  also have "\<dots> \<le> 2 ^ 41 / 2 ^ 53" using assms by (intro divide_right_mono) simp_all
  also have "\<dots> = (1::real) / 2 ^ 12" by simp
  finally show ?thesis .
qed

lemma fl_of_int: "\<bar>m\<bar> < 2 ^ 53 \<Longrightarrow> fl (of_int m) = of_int m"
  using fl_exact[of m 0] by simp

lemma fl_dyadic:
  assumes "\<bar>m\<bar> < 2 ^ 53"
  shows "fl (of_int m / 2 ^ k) = of_int m / 2 ^ k"
proof -
  have "(2::real) powr (of_int (- int k)) = 1 / 2 ^ k"
    by (simp add: powr_minus_divide powr_realpow)
  then show ?thesis using fl_exact[OF assms, of "- int k"] by simp
qed

lemma fl_numeral: "(numeral k :: int) < 2 ^ 53 \<Longrightarrow> fl (numeral k) = numeral k"
  using fl_of_int[of "numeral k"] by simp

lemma fl_1: "fl 1 = 1"
  using fl_of_int[of 1] by simp

lemma fl_halves: "fl (1 / 2) = 1 / 2" "fl (3 / 2) = 3 / 2"
  using fl_dyadic[of 1 1] fl_dyadic[of 3 1] by simp_all

section \<open>The sweep plan\<close>

text \<open>
  The step count the planner computes is positive, at most 40001 for bounds up to 4 GHz and a
  sample rate of at least 100 kHz, and the quotient it is the ceiling of is within
  \<open>2 ** -36\<close> of the exact one.
\<close>

lemma ratio_error:
  assumes "0 < d" "d \<le> 4000000000" "100000 \<le> r"
  shows "\<bar>fl (fl d / r) - d / r\<bar> \<le> 1 / 2 ^ 36" and "0 < fl (fl d / r)"
proof -
  define eps :: real where "eps = 1 / 2 ^ 53"
  define x where "x = d / r"
  define y where "y = fl d / r"
  have r: "0 < r" using assms by linarith
  have e0: "0 \<le> eps" "eps \<le> 1" by (simp_all add: eps_def)
  have x0: "0 < x" using assms r by (simp add: x_def)
  have a: "\<bar>fl d - d\<bar> \<le> eps * d" using fl_error[of d] assms by (simp add: eps_def)
  have fd: "0 < fl d" using assms by (intro fl_pos)
  have y0: "0 < y" using fd r by (simp add: y_def)
  have "y - x = (fl d - d) / r" by (simp add: x_def y_def diff_divide_distrib)
  then have "\<bar>y - x\<bar> = \<bar>fl d - d\<bar> / r" using r by simp
  also have "\<dots> \<le> eps * d / r" using a r by (intro divide_right_mono) simp_all
  also have "\<dots> = eps * x" by (simp add: x_def)
  finally have b: "\<bar>y - x\<bar> \<le> eps * x" .
  have "eps * x \<le> 1 * x" using e0 x0 by (intro mult_right_mono) simp_all
  then have y2: "y \<le> 2 * x" using b by linarith
  have "\<bar>fl y - y\<bar> \<le> eps * \<bar>y\<bar>" using fl_error[of y] by (simp add: eps_def)
  also have "\<bar>y\<bar> = y" using y0 by simp
  also have "eps * y \<le> eps * (2 * x)" using y2 e0 by (intro mult_left_mono) simp_all
  finally have c: "\<bar>fl y - y\<bar> \<le> 2 * (eps * x)" by simp
  have "d / r \<le> 4000000000 / 100000"
    using assms r by (intro frac_le) simp_all
  then have dr: "x \<le> 40000" by (simp add: x_def)
  have "eps * x \<le> eps * 40000" using dr e0 by (intro mult_left_mono)
  moreover have "3 * (eps * 40000) \<le> 1 / 2 ^ 36" by (simp add: eps_def)
  ultimately have "3 * (eps * x) \<le> 1 / 2 ^ 36" by linarith
  then have "\<bar>fl y - x\<bar> \<le> 1 / 2 ^ 36" using b c by linarith
  then show "\<bar>fl (fl d / r) - d / r\<bar> \<le> 1 / 2 ^ 36" by (simp only: x_def y_def)
  show "0 < fl (fl d / r)" using y0 unfolding y_def by (rule fl_pos)
qed

lemma steps_bound:
  assumes "0 < d" "d \<le> 4000000000" "100000 \<le> r"
  shows "1 \<le> \<lceil>fl (fl d / r)\<rceil>" and "\<lceil>fl (fl d / r)\<rceil> \<le> 40001"
proof -
  note e = ratio_error[OF assms]
  show "1 \<le> \<lceil>fl (fl d / r)\<rceil>" using e(2) by linarith
  have r: "0 < r" using assms by linarith
  have "d / r \<le> 4000000000 / 100000"
    using assms r by (intro frac_le) simp_all
  then have "d / r \<le> 40000" by simp
  moreover have "(1::real) / 2 ^ 36 < 1" by simp
  ultimately have "fl (fl d / r) < 40001" using e(1) by linarith
  then show "\<lceil>fl (fl d / r)\<rceil> \<le> 40001" by linarith
qed

text \<open>A planned centre frequency is within \<open>3 * 2 ** -12\<close> Hz of \<open>start + (i + 0.5) * step\<close>.\<close>

lemma plan_center_error:
  assumes "0 < start" "start \<le> 4000000000" "0 < step" "step \<le> 20000000" "i \<le> 40000"
  shows "\<bar>plan_center start step i - (start + (real i + 1 / 2) * step)\<bar> \<le> 3 / 2 ^ 12"
proof -
  define eps :: real where "eps = 1 / 2 ^ 53"
  define u :: real where "u = 1 / 2 ^ 12"
  define t where "t = real i + 1 / 2"
  define h where "h = fl t"
  have t: "0 < t" "t \<le> 40001" using assms(5) by (simp_all add: t_def)
  have ts: "t * step \<le> 40001 * 20000000" using t assms by (intro mult_mono) simp_all
  have ts0: "0 \<le> t * step" using t assms by simp
  have "\<bar>h - t\<bar> \<le> eps * t" using fl_error[of t] t by (simp add: h_def eps_def)
  then have "\<bar>h - t\<bar> * step \<le> eps * t * step" using assms by (intro mult_right_mono) simp_all
  moreover have "\<bar>h * step - t * step\<bar> = \<bar>h - t\<bar> * step"
    using assms by (simp add: left_diff_distrib[symmetric] abs_mult)
  moreover have "eps * t * step = eps * (t * step)" by simp
  moreover have "eps * (t * step) \<le> eps * (40001 * 20000000)"
    using ts by (intro mult_left_mono) (simp_all add: eps_def)
  moreover have "eps * (40001 * 20000000) \<le> u" by (simp add: eps_def u_def)
  ultimately have a: "\<bar>h * step - t * step\<bar> \<le> u" by linarith
  have u1: "u \<le> 1" by (simp add: u_def)
  have "\<bar>h * step\<bar> \<le> 2 ^ 41" using a ts ts0 u1 by (simp add: abs_if split: if_splits)
  then have "\<bar>fl (h * step) - h * step\<bar> \<le> u" unfolding u_def by (rule fl_abs_error)
  then have b: "\<bar>fl (h * step) - t * step\<bar> \<le> 2 * u" using a by linarith
  have "\<bar>start + fl (h * step)\<bar> \<le> 2 ^ 41" using b ts ts0 u1 assms(1,2) by (simp add: abs_if split: if_splits)
  then have "\<bar>fl (start + fl (h * step)) - (start + fl (h * step))\<bar> \<le> u"
    unfolding u_def by (rule fl_abs_error)
  then have "\<bar>fl (start + fl (h * step)) - (start + t * step)\<bar> \<le> 3 * u" using b by linarith
  then show ?thesis unfolding plan_center_def h_def t_def u_def by simp
qed

lemma plan_center_freqs_nth:
  "i < nat k \<Longrightarrow> plan_center_freqs start step k ! i = plan_center start step i"
  by (simp add: plan_center_freqs_def plan_center_def)

text \<open>
  With bounds that need no clamping and a positive sample rate the planner succeeds, and the
  plan it stores is the one computed from the bounds; what the sweep capture reads besides the
  plan is left as it was.
\<close>

lemma validate_sweep_inputs_plan:
  assumes "0 < start" "start < end" "end \<le> 4000000000" "0 < samp_rate s"
    and "validate_sweep_inputs q (Some start) (Some end) s = (ok, s', es)"
  shows "ok"
    and "center_freqs s' = plan_center_freqs start (samp_rate s) \<lceil>fl (fl (end - start) / samp_rate s)\<rceil>"
    and "total_steps s' = nat \<lceil>fl (fl (end - start) / samp_rate s)\<rceil>"
    and "freq_axis s' = plan_freq_axis (samp_rate s) (fft_size s) (center_freqs s')"
    and "last_valid_sweep_start s' = start" and "last_valid_sweep_end s' = end"
    and "fft_size s' = fft_size s" and "samp_rate s' = samp_rate s"
    and "1 \<le> \<lceil>fl (fl (end - start) / samp_rate s)\<rceil>"
    and "mode s' = mode s" "rebuilding s' = rebuilding s" "sweep_active s' = sweep_active s"
      "probe_present s' = probe_present s" "step_freq_hz s' = step_freq_hz s"
      "last_fft s' = last_fft s" "sweep_ptr s' = 0"
      "length (sweep_buffer s') = total_steps s' * fft_size s'"
proof -
  have "0 < fl (end - start)" using assms by (intro fl_pos) simp
  then have "0 < fl (end - start) / samp_rate s" using assms by simp
  then have "0 < fl (fl (end - start) / samp_rate s)" by (rule fl_pos)
  then show c1: "1 \<le> \<lceil>fl (fl (end - start) / samp_rate s)\<rceil>" by linarith
  then have c: "\<not> \<lceil>fl (fl (end - start) / samp_rate s)\<rceil> < 1" by linarith
  have cs: "clamp_start start = (start, [])" and ce: "clamp_end end = (end, [])"
    using assms by (simp_all add: clamp_start_def clamp_end_def)
  have l: "length (plan_center_freqs start (samp_rate s) \<lceil>fl (fl (end - start) / samp_rate s)\<rceil>)
     = nat \<lceil>fl (fl (end - start) / samp_rate s)\<rceil>"
    by (simp add: plan_center_freqs_def)
  have *: "(ok, s', es) = validate_sweep_inputs q (Some start) (Some end) s" using assms(5) by simp
  show "ok"
    and "center_freqs s' = plan_center_freqs start (samp_rate s) \<lceil>fl (fl (end - start) / samp_rate s)\<rceil>"
    and "total_steps s' = nat \<lceil>fl (fl (end - start) / samp_rate s)\<rceil>"
    and "freq_axis s' = plan_freq_axis (samp_rate s) (fft_size s) (center_freqs s')"
    and "last_valid_sweep_start s' = start" and "last_valid_sweep_end s' = end"
    and "fft_size s' = fft_size s" and "samp_rate s' = samp_rate s"
    and "mode s' = mode s" "rebuilding s' = rebuilding s" "sweep_active s' = sweep_active s"
      "probe_present s' = probe_present s" "step_freq_hz s' = step_freq_hz s"
      "last_fft s' = last_fft s" "sweep_ptr s' = 0"
      "length (sweep_buffer s') = total_steps s' * fft_size s'"
    using * assms(2,4) c unfolding validate_sweep_inputs_def
    by (simp_all add: cs ce l Let_def)
qed

text \<open>
  C1.  For every configuration with \<open>1e6 \<le> start < end \<le> 4e9\<close> and a sample rate between
  \<open>1e5\<close> and \<open>20e6\<close> the planner accepts.  The number of steps is the ceiling of the quotient
  \<open>(end - start) / rate\<close> as binary64 arithmetic computes it (a rounded difference, a rounded
  division), which is within \<open>2 ** -36\<close> of the exact quotient; it is at least one.  There are
  as many centre frequencies, the \<open>i\<close>-th being \<open>start + (i + 0.5) * rate\<close> as binary64
  arithmetic computes it, which is within \<open>3 * 2 ** -12\<close> Hz of the exact value.
\<close>

theorem sweep_plan_steps:
  assumes "1000000 \<le> start" "start < end" "end \<le> 4000000000"
    and "100000 \<le> samp_rate s" "samp_rate s \<le> 20000000"
    and "validate_sweep_inputs q (Some start) (Some end) s = (ok, s', es)"
  shows "ok \<and> int (total_steps s') = \<lceil>fl (fl (end - start) / samp_rate s)\<rceil>
     \<and> \<bar>fl (fl (end - start) / samp_rate s) - (end - start) / samp_rate s\<bar> \<le> 1 / 2 ^ 36
     \<and> 1 \<le> total_steps s'
     \<and> length (center_freqs s') = total_steps s'
     \<and> (\<forall>i < total_steps s'.
           center_freqs s' ! i = fl (start + fl (fl (real i + 1 / 2) * samp_rate s))
           \<and> \<bar>center_freqs s' ! i - (start + (real i + 1 / 2) * samp_rate s)\<bar> \<le> 3 / 2 ^ 12)"
proof -
  have r: "0 < samp_rate s" and s0: "0 < start" "start \<le> 4000000000" using assms by linarith+
  have d: "0 < end - start" "end - start \<le> 4000000000" using assms by linarith+
  note p = validate_sweep_inputs_plan[OF s0(1) assms(2,3) r assms(6)]
  note e = ratio_error[OF d assms(4)]
  note b = steps_bound[OF d assms(4)]
  have n: "1 \<le> nat \<lceil>fl (fl (end - start) / samp_rate s)\<rceil>" using b(1) by linarith
  have 1: "int (total_steps s') = \<lceil>fl (fl (end - start) / samp_rate s)\<rceil>"
    using p(3) b(1) by simp
  have 2: "length (center_freqs s') = total_steps s'"
    using p(2,3) by (simp add: plan_center_freqs_def)
  have 3: "center_freqs s' ! i = fl (start + fl (fl (real i + 1 / 2) * samp_rate s))
       \<and> \<bar>center_freqs s' ! i - (start + (real i + 1 / 2) * samp_rate s)\<bar> \<le> 3 / 2 ^ 12"
    if "i < total_steps s'" for i
  proof -
    have i: "i < nat \<lceil>fl (fl (end - start) / samp_rate s)\<rceil>" using that p(3) by simp
    then have i4: "i \<le> 40000" using b(2) by linarith
    have c: "center_freqs s' ! i = plan_center start (samp_rate s) i"
      unfolding p(2) by (rule plan_center_freqs_nth[OF i])
    show ?thesis
      unfolding c using plan_center_error[OF s0 r assms(5) i4]
      by (simp add: plan_center_def)
  qed
  have n': "1 \<le> total_steps s'" using n p(3) by simp
  from p(1) 1 e(1) n' 2 3 show ?thesis by blast
qed

lemma list_of_one: "length xs = 1 \<Longrightarrow> xs ! 0 = a \<Longrightarrow> xs = [a]"
  by (cases xs) auto

lemma list_of_two: "length xs = 2 \<Longrightarrow> xs ! 0 = a \<Longrightarrow> xs ! 1 = b \<Longrightarrow> xs = [a, b]"
  by (cases xs; cases "tl xs") auto

text \<open>
  The first example of C1, from the theorem: 80 MHz to 100 MHz at 20 MS/s is one step centred
  at 90 MHz, exactly.
\<close>

theorem sweep_plan_steps_witness:
  "(1000000::real) \<le> 80000000 \<and> (80000000::real) < 100000000 \<and> (100000000::real) \<le> 4000000000
   \<and> 100000 \<le> samp_rate sweep_init \<and> samp_rate sweep_init \<le> 20000000
   \<and> fst (validate_sweep_inputs False (Some 80000000) (Some 100000000) sweep_init)
   \<and> total_steps (fst (snd (validate_sweep_inputs False (Some 80000000) (Some 100000000) sweep_init))) = 1
   \<and> center_freqs (fst (snd (validate_sweep_inputs False (Some 80000000) (Some 100000000) sweep_init))) = [90000000]"
proof -
  obtain ok s' es where v: "validate_sweep_inputs False (Some 80000000) (Some 100000000) sweep_init = (ok, s', es)"
    by (cases "validate_sweep_inputs False (Some 80000000) (Some 100000000) sweep_init") auto
  have r: "samp_rate sweep_init = 20000000" by (simp add: sweep_init_def)
  have h: "(1000000::real) \<le> 80000000" "(80000000::real) < 100000000" "(100000000::real) \<le> 4000000000"
    "100000 \<le> samp_rate sweep_init" "samp_rate sweep_init \<le> 20000000" by (simp_all add: r)
  from sweep_plan_steps[OF h v]
  have ok: ok and n: "int (total_steps s') = \<lceil>fl (fl (100000000 - 80000000) / samp_rate sweep_init)\<rceil>"
    and l: "length (center_freqs s') = total_steps s'"
    and e: "\<forall>i < total_steps s'. center_freqs s' ! i = fl (80000000 + fl (fl (real i + 1 / 2) * samp_rate sweep_init))
           \<and> \<bar>center_freqs s' ! i - (80000000 + (real i + 1 / 2) * samp_rate sweep_init)\<bar> \<le> 3 / 2 ^ 12"
    by blast+
  have n1: "total_steps s' = 1" using n by (simp add: r fl_numeral fl_1)
  have "center_freqs s' ! 0 = 90000000" using e n1 by (simp add: r fl_numeral fl_halves)
  then have "center_freqs s' = [90000000]" using l n1 by (intro list_of_one) simp_all
  then show ?thesis using ok n1 h by (simp add: v)
qed

text \<open>The second example of C1: 80 MHz to 120 MHz at 20 MS/s is two steps, at 90 and 110 MHz.\<close>

lemma sweep_plan_two_steps:
  "total_steps (fst (snd (validate_sweep_inputs False (Some 80000000) (Some 120000000) sweep_init))) = 2
   \<and> center_freqs (fst (snd (validate_sweep_inputs False (Some 80000000) (Some 120000000) sweep_init)))
       = [90000000, 110000000]"
proof -
  obtain ok s' es where v: "validate_sweep_inputs False (Some 80000000) (Some 120000000) sweep_init = (ok, s', es)"
    by (cases "validate_sweep_inputs False (Some 80000000) (Some 120000000) sweep_init") auto
  have r: "samp_rate sweep_init = 20000000" by (simp add: sweep_init_def)
  have h: "(0::real) < 80000000" "(80000000::real) < 120000000" "(120000000::real) \<le> 4000000000"
    "0 < samp_rate sweep_init" by (simp_all add: r)
  note p = validate_sweep_inputs_plan[OF h v]
  have q: "\<lceil>fl (fl (120000000 - 80000000) / samp_rate sweep_init)\<rceil> = 2"
    by (simp add: r fl_numeral)
  have n: "total_steps s' = 2" using p(3) by (simp only: q)
  have "center_freqs s' = [90000000, 110000000]"
    unfolding p(2) q by (simp add: r plan_center_freqs_def numeral_2_eq_2 fl_numeral fl_halves)
  then show ?thesis using n by (simp add: v)
qed

text \<open>
  The claim's formula read over the reals fails.  The bounds \<open>1000000 + 3 * 2 ** -33\<close> and
  \<open>4000000 + 2 ** -31\<close> are binary64 numbers; at 1 MS/s their exact distance is a little more
  than three steps, so the ceiling of the exact quotient is 4; the float subtraction rounds
  the distance to 3000000 and the planner plans 3 steps.
\<close>

lemma rounded_bounds_are_floats:
  "fl (1000000 + 3 / 2 ^ 33) = 1000000 + 3 / 2 ^ 33"
  "fl (4000000 + 1 / 2 ^ 31) = 4000000 + 1 / 2 ^ 31"
proof -
  have "(1000000 + 3 / 2 ^ 33 :: real) = of_int 8589934592000003 / 2 ^ 33" by simp
  then show "fl (1000000 + 3 / 2 ^ 33) = 1000000 + 3 / 2 ^ 33"
    using fl_dyadic[of 8589934592000003 33] by simp
  have "(4000000 + 1 / 2 ^ 31 :: real) = of_int 8589934592000001 / 2 ^ 31" by simp
  then show "fl (4000000 + 1 / 2 ^ 31) = 4000000 + 1 / 2 ^ 31"
    using fl_dyadic[of 8589934592000001 31] by simp
qed

lemma rounded_bounds_difference: "fl ((4000000 + 1 / 2 ^ 31) - (1000000 + 3 / 2 ^ 33)) = 3000000"
proof -
  define x :: real where "x = (4000000 + 1 / 2 ^ 31) - (1000000 + 3 / 2 ^ 33)"
  have x: "x = 3000000 + 1 / 2 ^ 33" by (simp add: x_def)
  have b: "2 powr (of_int 21) \<le> \<bar>x\<bar>" "\<bar>x\<bar> < 2 powr (of_int 21 + 1)"
    unfolding x by simp_all
  have q: "(2::real) powr (of_int 21 - 52) = 1 / 2 ^ 31"
    by (simp add: powr_minus_divide)
  have ax: "\<bar>x\<bar> = 25769803776000001 / 2 ^ 33" unfolding x by simp
  have m: "\<bar>x\<bar> / (1 / 2 ^ 31) = 25769803776000001 / 4" unfolding ax by simp
  have r: "py_round (\<bar>x\<bar> / (1 / 2 ^ 31)) = 6442450944000000"
    unfolding m by (simp add: py_round_def)
  have "fl x = sgn x * (of_int (py_round (\<bar>x\<bar> / (1 / 2 ^ 31))) * (1 / 2 ^ 31))"
    using fl_binade[OF b] unfolding q .
  also have "\<dots> = 3000000" unfolding r by (simp add: x)
  finally show ?thesis unfolding x_def .
qed

theorem sweep_plan_rounding_counterexample:
  "fl (1000000 + 3 / 2 ^ 33) = 1000000 + 3 / 2 ^ 33
   \<and> fl (4000000 + 1 / 2 ^ 31) = 4000000 + 1 / 2 ^ 31
   \<and> total_steps (fst (snd (validate_sweep_inputs False (Some (1000000 + 3 / 2 ^ 33))
         (Some (4000000 + 1 / 2 ^ 31)) (sweep_init\<lparr>samp_rate := 1000000\<rparr>)))) = 3
   \<and> \<lceil>((4000000 + 1 / 2 ^ 31) - (1000000 + 3 / 2 ^ 33)) / (1000000 :: real)\<rceil> = 4"
proof -
  let ?s = "sweep_init\<lparr>samp_rate := 1000000\<rparr>"
  obtain ok s' es where v: "validate_sweep_inputs False (Some (1000000 + 3 / 2 ^ 33))
         (Some (4000000 + 1 / 2 ^ 31)) ?s = (ok, s', es)"
    by (cases "validate_sweep_inputs False (Some (1000000 + 3 / 2 ^ 33)) (Some (4000000 + 1 / 2 ^ 31)) ?s") auto
  have h: "(0::real) < 1000000 + 3 / 2 ^ 33" "(1000000 + 3 / 2 ^ 33 :: real) < 4000000 + 1 / 2 ^ 31"
    "(4000000 + 1 / 2 ^ 31 :: real) \<le> 4000000000" "0 < samp_rate ?s"
    by simp_all
  note p = validate_sweep_inputs_plan[OF h v]
  have q: "\<lceil>fl (fl ((4000000 + 1 / 2 ^ 31) - (1000000 + 3 / 2 ^ 33)) / samp_rate ?s)\<rceil> = 3"
    unfolding rounded_bounds_difference by (simp add: fl_numeral)
  have 1: "total_steps s' = 3" using p(3) by (simp only: q)
  have "((4000000 + 1 / 2 ^ 31) - (1000000 + 3 / 2 ^ 33)) / (1000000 :: real) = 3 + 1 / (2 ^ 33 * 1000000)"
    by simp
  moreover have "\<lceil>3 + 1 / (2 ^ 33 * 1000000 :: real)\<rceil> = 4"
    by (simp add: ceiling_eq_iff)
  ultimately have 2: "\<lceil>((4000000 + 1 / 2 ^ 31) - (1000000 + 3 / 2 ^ 33)) / (1000000 :: real)\<rceil> = 4"
    by simp
  have t3: "total_steps (fst (snd (validate_sweep_inputs False (Some (1000000 + 3 / 2 ^ 33))
         (Some (4000000 + 1 / 2 ^ 31)) ?s))) = 3"
    unfolding v using 1 by simp
  from rounded_bounds_are_floats t3 2 show ?thesis by (intro conjI)
qed

section \<open>The stitched frequency axis\<close>












section \<open>Stale captures\<close>

text \<open>
  A capture that passes the tuner and length checks and is within \<open>1e-8\<close> of the last accepted
  capture, bin by bin, takes the bounded-retry exit.
\<close>

lemma capture_fft_stale:
  assumes act: "mode s = WideSpectrum \<or> mode s = WideSpectrumFrequency" "sweep_active s" "\<not> rebuilding s"
      "probe_present s" "center_freqs s \<noteq> []"
    and step: "step_freq_hz s = Some step"
    and tuned: "tuned = None \<or> (\<exists>t. tuned = Some t \<and> \<bar>t - step\<bar> \<le> 1)"
    and len: "length mags = fft_size s"
    and after: "tuned_after = Some t'" "\<bar>t' - step\<bar> \<le> 1"
    and stale: "last_fft s = Some l" "length l = length mags" "list_all2 (\<lambda>x y. \<bar>x - y\<bar> \<le> 1 / 10 ^ 8) mags l"
  shows "capture_fft tuned (Some mags) tuned_after s = retry_or_skip s"
proof -
  have t: "\<not> (case tuned of None \<Rightarrow> False | Some t \<Rightarrow> 1 < \<bar>t - step\<bar>)"
    using tuned by (auto split: option.splits)
  have a: "\<not> (case tuned_after of None \<Rightarrow> True | Some t \<Rightarrow> 1 < \<bar>t - step\<bar>)"
    using after by simp
  have c: "np_allclose mags l (1 / 10 ^ 8) = Some True"
    using stale(2,3) by (simp add: np_allclose_def)
  have g: "\<not> ((mode s \<noteq> WideSpectrum \<and> mode s \<noteq> WideSpectrumFrequency) \<or> \<not> sweep_active s \<or> rebuilding s)"
    "\<not> (\<not> probe_present s \<or> center_freqs s = [])"
    using act by auto
  show ?thesis
    unfolding capture_fft_def using step len t a c stale(1)
    by (simp only: g if_False option.case if_True bool.case simp_thms)
qed

lemma stale_capture_steps:
  assumes "mode s = WideSpectrum \<or> mode s = WideSpectrumFrequency" "sweep_active s" "\<not> rebuilding s"
      "probe_present s" "center_freqs s \<noteq> []"
    and "step_freq_hz s = Some step"
    and "tuned = None \<or> (\<exists>t. tuned = Some t \<and> \<bar>t - step\<bar> \<le> 1)"
    and "length mags = fft_size s"
    and "tuned_after = Some t'" "\<bar>t' - step\<bar> \<le> 1"
    and "last_fft s = Some l" "length l = length mags" "list_all2 (\<lambda>x y. \<bar>x - y\<bar> \<le> 1 / 10 ^ 8) mags l"
  shows "capture_fft tuned (Some mags) tuned_after s =
           (if cap_retries s < 3
            then (s\<lparr>cap_retries := cap_retries s + 1, sweep_busy := False\<rparr>, RetryScheduled 8, [])
            else (s\<lparr>sweep_ptr := (sweep_ptr s + 1) mod length (center_freqs s), cap_retries := 0,
                    sweep_busy := False\<rparr>, StepSkipped, []))"
    and "cap_retries s = 0 \<Longrightarrow>
         ((\<lambda>u. fst (capture_fft tuned (Some mags) tuned_after u)) ^^ 4) s =
           s\<lparr>sweep_ptr := (sweep_ptr s + 1) mod length (center_freqs s), cap_retries := 0, sweep_busy := False\<rparr>"
proof -
  let ?f = "\<lambda>u. fst (capture_fft tuned (Some mags) tuned_after u)"
  have step1: "capture_fft tuned (Some mags) tuned_after (s\<lparr>cap_retries := k, sweep_busy := b\<rparr>)
      = retry_or_skip (s\<lparr>cap_retries := k, sweep_busy := b\<rparr>)" for k b
    using assms by (intro capture_fft_stale[where step = step and t' = t' and l = l]) simp_all
  show "capture_fft tuned (Some mags) tuned_after s =
           (if cap_retries s < 3
            then (s\<lparr>cap_retries := cap_retries s + 1, sweep_busy := False\<rparr>, RetryScheduled 8, [])
            else (s\<lparr>sweep_ptr := (sweep_ptr s + 1) mod length (center_freqs s), cap_retries := 0,
                    sweep_busy := False\<rparr>, StepSkipped, []))"
    using capture_fft_stale[OF assms] by (simp add: retry_or_skip_def advance_ptr_def)
  assume z: "cap_retries s = 0"
  have 1: "?f s = s\<lparr>cap_retries := 1, sweep_busy := False\<rparr>"
    using capture_fft_stale[OF assms] z by (simp add: retry_or_skip_def)
  have 2: "?f (s\<lparr>cap_retries := 1, sweep_busy := False\<rparr>) = s\<lparr>cap_retries := 2, sweep_busy := False\<rparr>"
    by (simp add: step1 retry_or_skip_def)
  have 3: "?f (s\<lparr>cap_retries := 2, sweep_busy := False\<rparr>) = s\<lparr>cap_retries := 3, sweep_busy := False\<rparr>"
    by (simp add: step1 retry_or_skip_def)
  have 4: "?f (s\<lparr>cap_retries := 3, sweep_busy := False\<rparr>)
      = s\<lparr>sweep_ptr := (sweep_ptr s + 1) mod length (center_freqs s), cap_retries := 0, sweep_busy := False\<rparr>"
    by (simp add: step1 retry_or_skip_def advance_ptr_def)
  have "(?f ^^ 4) s = ?f (?f (?f (?f s)))" by (simp add: numeral_eq_Suc)
  then show "(?f ^^ 4) s =
           s\<lparr>sweep_ptr := (sweep_ptr s + 1) mod length (center_freqs s), cap_retries := 0, sweep_busy := False\<rparr>"
    by (simp only: 1 2 3 4)
qed

text \<open>
  C4.  During a sweep step, a captured vector that equals the preceding accepted capture
  (\<^verbatim>\<open>last_fft\<close>) up to an absolute tolerance of \<open>1e-8\<close> is rejected: while fewer than 3 retries
  were made, the retry count goes up and a retry is scheduled 8 ms later; after 3 retries the
  step is skipped, with no error logged, and the step pointer advances by one modulo the
  number of steps.  From a retry count of 0, four such captures in a row end in that skip.
\<close>

theorem stale_capture_retry_then_skip:
  assumes "mode s = WideSpectrum \<or> mode s = WideSpectrumFrequency" "sweep_active s" "\<not> rebuilding s"
      "probe_present s" "center_freqs s \<noteq> []"
    and "step_freq_hz s = Some step"
    and "tuned = None \<or> (\<exists>t. tuned = Some t \<and> \<bar>t - step\<bar> \<le> 1)"
    and "length mags = fft_size s"
    and "tuned_after = Some t'" "\<bar>t' - step\<bar> \<le> 1"
    and "last_fft s = Some l" "length l = length mags" "list_all2 (\<lambda>x y. \<bar>x - y\<bar> \<le> 1 / 10 ^ 8) mags l"
  shows "capture_fft tuned (Some mags) tuned_after s =
           (if cap_retries s < 3
            then (s\<lparr>cap_retries := cap_retries s + 1, sweep_busy := False\<rparr>, RetryScheduled 8, [])
            else (s\<lparr>sweep_ptr := (sweep_ptr s + 1) mod length (center_freqs s), cap_retries := 0,
                    sweep_busy := False\<rparr>, StepSkipped, []))
       \<and> (cap_retries s = 0 \<longrightarrow>
         ((\<lambda>u. fst (capture_fft tuned (Some mags) tuned_after u)) ^^ 4) s =
           s\<lparr>sweep_ptr := (sweep_ptr s + 1) mod length (center_freqs s), cap_retries := 0, sweep_busy := False\<rparr>)"
  using stale_capture_steps[OF assms] by blast

text \<open>
  A two-step sweep with 4 bins, tuned to its first step, fed the vector it accepted last: the
  first call schedules a retry, the fourth skips to step 1.
\<close>

theorem stale_capture_retry_then_skip_witness:
  "(mode stale_example = WideSpectrum \<or> mode stale_example = WideSpectrumFrequency)
   \<and> sweep_active stale_example \<and> \<not> rebuilding stale_example \<and> probe_present stale_example
   \<and> center_freqs stale_example \<noteq> [] \<and> step_freq_hz stale_example = Some 90000000
   \<and> length [1, 2, 3, 4 :: real] = fft_size stale_example
   \<and> \<bar>90000000 - 90000000 :: real\<bar> \<le> 1
   \<and> last_fft stale_example = Some [1, 2, 3, 4]
   \<and> list_all2 (\<lambda>x y. \<bar>x - y\<bar> \<le> 1 / 10 ^ 8) [1, 2, 3, 4 :: real] [1, 2, 3, 4]
   \<and> cap_retries stale_example = 0
   \<and> capture_fft (Some 90000000) (Some [1, 2, 3, 4]) (Some 90000000) stale_example
        = (stale_example\<lparr>cap_retries := 1, sweep_busy := False\<rparr>, RetryScheduled 8, [])
   \<and> ((\<lambda>u. fst (capture_fft (Some 90000000) (Some [1, 2, 3, 4]) (Some 90000000) u)) ^^ 4) stale_example
        = stale_example\<lparr>sweep_ptr := 1, cap_retries := 0, sweep_busy := False\<rparr>"
proof -
  have h: "mode stale_example = WideSpectrum \<or> mode stale_example = WideSpectrumFrequency"
    "sweep_active stale_example" "\<not> rebuilding stale_example" "probe_present stale_example"
    "center_freqs stale_example \<noteq> []" "step_freq_hz stale_example = Some 90000000"
    "Some 90000000 = None \<or> (\<exists>t. Some 90000000 = Some t \<and> \<bar>t - 90000000 :: real\<bar> \<le> 1)"
    "length [1, 2, 3, 4 :: real] = fft_size stale_example"
    "Some (90000000 :: real) = Some 90000000" "\<bar>90000000 - 90000000 :: real\<bar> \<le> 1"
    "last_fft stale_example = Some [1, 2, 3, 4]" "length [1, 2, 3, 4 :: real] = length [1, 2, 3, 4 :: real]"
    "list_all2 (\<lambda>x y. \<bar>x - y\<bar> \<le> 1 / 10 ^ 8) [1, 2, 3, 4 :: real] [1, 2, 3, 4]"
    by (simp_all add: stale_example_def sweep_init_def)
  have z: "cap_retries stale_example = 0" "sweep_ptr stale_example = 0"
    "length (center_freqs stale_example) = 2"
    by (simp_all add: stale_example_def sweep_init_def)
  from stale_capture_retry_then_skip[OF h] z h
  show ?thesis by simp
qed

section \<open>Scaling and the DC notch\<close>














section \<open>Frequency-policy ranges\<close>

text \<open>
  The loop over adjacent pairs finds nothing exactly when each range ends below the start of
  its successor.  For ranges with \<open>low < high\<close> that is: every range ends below the start
  of every later one.
\<close>

lemma first_overlap_None_iff:
  "first_overlap xs = None \<longleftrightarrow> successively (\<lambda>a b. fst (snd a) < fst b) xs"
  by (induction xs rule: first_overlap.induct) (auto simp: not_le)

lemma disjoint_chain_sorted_wrt:
  fixes xs :: "(real \<times> real \<times> string) list"
  assumes "\<forall>r \<in> set xs. fst r < fst (snd r)"
  shows "successively (\<lambda>a b. fst (snd a) < fst b) xs \<longleftrightarrow> sorted_wrt (\<lambda>a b. fst (snd a) < fst b) xs"
proof (rule successively_iff_sorted_wrt_strong)
  fix x y z :: "real \<times> real \<times> string"
  assume "y \<in> set xs" "fst (snd x) < fst y" "fst (snd y) < fst z"
  moreover from this assms have "fst y < fst (snd y)" by blast
  ultimately show "fst (snd x) < fst z" by linarith
qed

text \<open>
  Whether the ranges are pairwise apart does not depend on their order, so the sort by the
  whole triple and a sort by the lower bound alone give the same verdict.
\<close>

lemma sorted_wrt_insort_key_sym:
  assumes "\<And>a b. P a b \<Longrightarrow> P b a"
  shows "sorted_wrt P (insort_key f x xs) \<longleftrightarrow> sorted_wrt P (x # xs)"
  using assms by (induction xs) (auto simp: set_insort_key)

lemma sorted_wrt_sort_key_sym:
  assumes "\<And>a b. P a b \<Longrightarrow> P b a"
  shows "sorted_wrt P (sort_key f xs) \<longleftrightarrow> sorted_wrt P xs"
proof (induction xs)
  case Nil
  show ?case by simp
next
  case (Cons x xs)
  have "sorted_wrt P (sort_key f (x # xs)) \<longleftrightarrow> sorted_wrt P (x # sort_key f xs)"
    using sorted_wrt_insort_key_sym[of P f x "sort_key f xs"] assms by (simp add: sort_key_def)
  then show ?case using Cons by simp
qed

lemma sorted_low_disjoint_iff:
  fixes xs :: "(real \<times> real \<times> string) list"
  assumes "sorted (map fst xs)" "\<forall>r \<in> set xs. fst r < fst (snd r)"
  shows "sorted_wrt (\<lambda>a b. fst (snd a) < fst b) xs
     \<longleftrightarrow> sorted_wrt (\<lambda>a b. fst (snd a) < fst b \<or> fst (snd b) < fst a) xs"
  using assms
proof (induction xs)
  case Nil
  show ?case by simp
next
  case (Cons x xs)
  have k: "fst (snd x) < fst y" if "y \<in> set xs" "fst (snd x) < fst y \<or> fst (snd y) < fst x" for y
  proof -
    have "fst x \<le> fst y" "fst y < fst (snd y)" using Cons.prems that(1) by auto
    then show ?thesis using that(2) by linarith
  qed
  have h: "(\<forall>y \<in> set xs. fst (snd x) < fst y)
      \<longleftrightarrow> (\<forall>y \<in> set xs. fst (snd x) < fst y \<or> fst (snd y) < fst x)"
    using k by blast
  have ih: "sorted_wrt (\<lambda>a b. fst (snd a) < fst b) xs
     \<longleftrightarrow> sorted_wrt (\<lambda>a b. fst (snd a) < fst b \<or> fst (snd b) < fst a) xs"
    using Cons by simp
  show ?case by (simp only: sorted_wrt.simps h ih)
qed

lemma sorted_map_fst_sort: "sorted (map fst (sort (rs :: (real \<times> real \<times> string) list)))"
proof -
  have "sorted (sort rs)" by simp
  then have "sorted_wrt (\<lambda>a b. fst a \<le> fst b) (sort rs)"
    by (rule sorted_wrt_mono_rel[rotated]) (auto simp: less_eq_prod_def)
  then show ?thesis by (simp add: sorted_map)
qed

lemma overlap_order_independent:
  assumes "\<forall>r \<in> set rs. fst r < fst (snd r)"
  shows "first_overlap (sort rs) = None \<longleftrightarrow>
     \<not> (\<exists>i. i + 1 < length (sort_key fst rs) \<and> fst (sort_key fst rs ! (i + 1)) \<le> fst (snd (sort_key fst rs ! i)))"
proof -
  let ?R = "\<lambda>a b :: real \<times> real \<times> string. fst (snd a) < fst b"
  let ?S = "\<lambda>a b :: real \<times> real \<times> string. fst (snd a) < fst b \<or> fst (snd b) < fst a"
  have v1: "\<forall>r \<in> set (sort rs). fst r < fst (snd r)"
    and v2: "\<forall>r \<in> set (sort_key fst rs). fst r < fst (snd r)" using assms by simp_all
  have sym: "\<And>a b. ?S a b \<Longrightarrow> ?S b a" by blast
  have "first_overlap (sort rs) = None \<longleftrightarrow> sorted_wrt ?R (sort rs)"
    by (simp only: first_overlap_None_iff disjoint_chain_sorted_wrt[OF v1])
  also have "\<dots> \<longleftrightarrow> sorted_wrt ?S (sort rs)"
    by (rule sorted_low_disjoint_iff[OF sorted_map_fst_sort v1])
  also have "\<dots> \<longleftrightarrow> sorted_wrt ?S rs"
    by (rule sorted_wrt_sort_key_sym[of ?S, OF sym])
  also have "\<dots> \<longleftrightarrow> sorted_wrt ?S (sort_key fst rs)"
    by (rule sorted_wrt_sort_key_sym[of ?S, OF sym, symmetric])
  also have "\<dots> \<longleftrightarrow> sorted_wrt ?R (sort_key fst rs)"
    by (rule sorted_low_disjoint_iff[OF _ v2, symmetric]) simp
  also have "\<dots> \<longleftrightarrow> successively ?R (sort_key fst rs)"
    by (simp only: disjoint_chain_sorted_wrt[OF v2])
  also have "\<dots> \<longleftrightarrow> \<not> (\<exists>i. i + 1 < length (sort_key fst rs) \<and> fst (sort_key fst rs ! (i + 1)) \<le> fst (snd (sort_key fst rs ! i)))"
    by (auto simp: successively_conv_nth not_le)
  finally show ?thesis .
qed

lemma collect_ranges_parsed:
  assumes "list_all2 (\<lambda>(port, t) r. read_range pf t = Some (fst r, fst (snd r)) \<and> snd (snd r) = port) inputs rs"
  shows "if (\<forall>r \<in> set rs. fst r < fst (snd r) \<and> fst (snd r) \<le> 4000)
         then collect_ranges pf inputs = Inr rs
         else (\<exists>e. collect_ranges pf inputs = Inl e)"
  using assms
proof (induction inputs rs rule: list_all2_induct)
  case Nil
  show ?case by simp
next
  case (Cons x xs r rs)
  obtain port t where x: "x = (port, t)" by (cases x)
  obtain lo hi p where r: "r = (lo, hi, p)" by (cases r)
  from Cons(1) have rd: "read_range pf t = Some (lo, hi)" "p = port" by (auto simp: x r)
  show ?case using Cons(3) by (auto simp: x r rd split: if_splits)
qed

text \<open>
  C9.  For text fields that each read as a pair of numbers \<open>low:high\<close>, the validation rejects
  exactly when some range has \<open>low \<ge> high\<close>, or some range has \<open>high > 4000\<close>, or, the ranges
  sorted by lower bound, some adjacent pair has \<open>high[i] \<ge> low[i+1]\<close>.
\<close>

theorem validate_port_ranges_rejects_iff:
  assumes "list_all2 (\<lambda>(port, t) r. read_range pf t = Some (fst r, fst (snd r)) \<and> snd (snd r) = port) inputs rs"
  shows "validate_port_ranges pf inputs \<noteq> None \<longleftrightarrow> spec_rejects rs"
proof (cases "\<forall>r \<in> set rs. fst r < fst (snd r) \<and> fst (snd r) \<le> 4000")
  case True
  then have c: "collect_ranges pf inputs = Inr rs" using collect_ranges_parsed[OF assms] by simp
  have v: "\<forall>r \<in> set rs. fst r < fst (snd r)" using True by blast
  have n: "\<not> (\<exists>r \<in> set rs. fst (snd r) \<le> fst r)" "\<not> (\<exists>r \<in> set rs. 4000 < fst (snd r))"
    using True by (auto simp: not_le)
  show ?thesis
    using overlap_order_independent[OF v] n
    by (simp add: validate_port_ranges_def c spec_rejects_def Let_def)
next
  case False
  have "\<exists>e. collect_ranges pf inputs = Inl e"
    using collect_ranges_parsed[OF assms] by (simp only: False if_False)
  then obtain e where c: "collect_ranges pf inputs = Inl e" by blast
  have "(\<exists>r \<in> set rs. fst (snd r) \<le> fst r) \<or> (\<exists>r \<in> set rs. 4000 < fst (snd r))"
    using False by (auto simp: not_le not_less)
  then show ?thesis by (auto simp: validate_port_ranges_def c spec_rejects_def)
qed

text \<open>The first example of C9: \<open>0:100\<close> and \<open>100:200\<close> touch and are rejected.\<close>

theorem validate_port_ranges_rejects_iff_witness:
  "list_all2 (\<lambda>(port, t) r. read_range decimal_float t = Some (fst r, fst (snd r)) \<and> snd (snd r) = port)
     [(''A4'', ''0:100''), (''A3'', ''100:200'')] [(0, 100, ''A4''), (100, 200, ''A3'')]
   \<and> validate_port_ranges decimal_float [(''A4'', ''0:100''), (''A3'', ''100:200'')]
        = Some (OverlapOrTouch ''A4'' ''A3'')
   \<and> spec_rejects [(0, 100, ''A4''), (100, 200, ''A3'')]"
proof -
  have h: "list_all2 (\<lambda>(port, t) r. read_range decimal_float t = Some (fst r, fst (snd r)) \<and> snd (snd r) = port)
     [(''A4'', ''0:100''), (''A3'', ''100:200'')] [(0, 100, ''A4''), (100, 200, ''A3'')]"
    by code_simp
  have v: "validate_port_ranges decimal_float [(''A4'', ''0:100''), (''A3'', ''100:200'')]
        = Some (OverlapOrTouch ''A4'' ''A3'')"
    by code_simp
  from validate_port_ranges_rejects_iff[OF h] v
  have "spec_rejects [(0, 100, ''A4''), (100, 200, ''A3'')]" by simp
  with h v show ?thesis by blast
qed

text \<open>The second example of C9: \<open>0:100\<close> and \<open>100.1:200\<close> are accepted.\<close>

lemma validate_port_ranges_accepts_example:
  "validate_port_ranges decimal_float [(''A4'', ''0:100''), (''A3'', ''100.1:200'')] = None"
  by code_simp

text \<open>A field that does not read as \<open>low:high\<close> is rejected as well.\<close>

lemma validate_port_ranges_malformed:
  assumes "(port, t) \<in> set inputs" "read_range pf t = None"
  shows "validate_port_ranges pf inputs \<noteq> None"
proof -
  have "\<exists>e. collect_ranges pf inputs = Inl e" using assms(1)
  proof (induction inputs)
    case Nil
    then show ?case by simp
  next
    case (Cons x xs)
    obtain p u where x: "x = (p, u)" by (cases x)
    show ?case
    proof (cases "x = (port, t)")
      case True
      then show ?thesis using assms(2) by (simp add: x)
    next
      case False
      then have "\<exists>e. collect_ranges pf xs = Inl e" using Cons by auto
      then show ?thesis by (auto simp: x split: option.splits)
    qed
  qed
  then show ?thesis by (auto simp: validate_port_ranges_def)
qed

section \<open>Antenna selection\<close>

text \<open>
  C10.  For a text that, stripped and upper-cased, is not one of the eight port names, whether
  it is passed as the argument or read from the antenna field, \<^verbatim>\<open>update_antenna\<close> leaves
  \<^verbatim>\<open>antenna_select\<close> (and every attribute but the text of the field) as it was, sends no
  antenna command to the receiver and emits no \<^verbatim>\<open>antenna_changed\<close>.
\<close>

theorem update_antenna_invalid_keeps_port:
  assumes "py_upper (py_strip val) \<notin> set valid_ports"
    and "arg = Some val \<or> (arg = None \<and> antenna_edit s = Some val)"
  shows "antenna_select (fst (update_antenna arg clk s)) = antenna_select s
       \<and> fst (update_antenna arg clk s) =
           s\<lparr>antenna_edit := (case antenna_edit s of None \<Rightarrow> None | Some _ \<Rightarrow> Some (antenna_select s))\<rparr>
       \<and> (\<forall>p. HwSetAntenna p \<notin> set (snd (update_antenna arg clk s)))
       \<and> (\<forall>p. AntennaChanged p \<notin> set (snd (update_antenna arg clk s)))"
  using assms by (auto simp: update_antenna_def Let_def split: option.splits)

text \<open>Only valid names change the selection: a valid name is selected and announced.\<close>

lemma update_antenna_valid_selects:
  assumes "py_upper (py_strip val) \<in> set valid_ports"
  shows "antenna_select (fst (update_antenna (Some val) clk s)) = py_upper (py_strip val)
       \<and> AntennaChanged (py_upper (py_strip val)) \<in> set (snd (update_antenna (Some val) clk s))"
  using assms by (simp add: update_antenna_def Let_def)

lemma update_antenna_changes_only_to_valid:
  assumes "antenna_select (fst (update_antenna (Some val) clk s)) \<noteq> antenna_select s"
  shows "py_upper (py_strip val) \<in> set valid_ports"
  using assms by (auto simp: update_antenna_def Let_def split: if_splits)

text \<open>The text \<open>" a9 "\<close> normalises to \<open>A9\<close>, which is no port: the selection stays \<open>A4\<close>.\<close>

theorem update_antenna_invalid_keeps_port_witness:
  "py_upper (py_strip '' a9 '') \<notin> set valid_ports
   \<and> antenna_select (fst (update_antenna (Some '' a9 '') (0, 0) (det_init 16 0))) = ''A4''
   \<and> snd (update_antenna (Some '' a9 '') (0, 0) (det_init 16 0))
        = [WarnInvalid ''A9'', ShowAntennaError ''A9'', SetAntennaEditText ''A4'']"
proof -
  have n: "py_upper (py_strip '' a9 '') = ''A9''" by code_simp
  have h: "py_upper (py_strip '' a9 '') \<notin> set valid_ports" unfolding n by (simp add: valid_ports_def)
  have a: "Some '' a9 '' = Some '' a9 '' \<or> (Some '' a9 '' = None \<and> antenna_edit (det_init 16 0) = Some '' a9 '')" by simp
  from update_antenna_invalid_keeps_port[OF h a, of "(0, 0)"]
  have 1: "antenna_select (fst (update_antenna (Some '' a9 '') (0, 0) (det_init 16 0))) = antenna_select (det_init 16 0)"
    by blast
  have 2: "snd (update_antenna (Some '' a9 '') (0, 0) (det_init 16 0))
        = [WarnInvalid ''A9'', ShowAntennaError ''A9'', SetAntennaEditText ''A4'']"
    using h by (simp add: update_antenna_def n det_init_def Let_def)
  show ?thesis using h 1 2 by (simp add: det_init_def)
qed

section \<open>The adaptive occupancy requirement\<close>

text \<open>The source's \<^verbatim>\<open>max(0.10, min(0.45, x))\<close> is the clamp of \<open>x\<close> to \<open>[0.10, 0.45]\<close>.\<close>

lemma clamp_eq: "max (1 / 10) (min (45 / 100) x) = clip x (1 / 10) (45 / 100)"
  by (simp add: clip_def max_def min_def)

lemma occ_req_of_tiers:
  "occ_req_of occ_min N sfm_db =
     (let r = clip (occ_min * sqrt (256 / max 64 (real N))) (1 / 10) (45 / 100)
      in if - (7 / 2) \<le> sfm_db then max (1 / 10) (85 / 100 * r)
         else if - 4 \<le> sfm_db then max (12 / 100) (92 / 100 * r)
         else r)"
  by (simp only: occ_req_of_def Let_def clamp_eq)

lemma sqrt_256_1000: "505 / 1000 < sqrt (256 / 1000)" "sqrt (256 / 1000) < 507 / 1000"
proof -
  have "(505 / 1000)\<^sup>2 < (256 / 1000 :: real)" by (simp add: power2_eq_square)
  then show "505 / 1000 < sqrt (256 / 1000)" by (rule real_less_rsqrt)
  have "(256 / 1000 :: real) < (507 / 1000)\<^sup>2" by (simp add: power2_eq_square)
  then show "sqrt (256 / 1000) < 507 / 1000" by (rule real_less_lsqrt[rotated 1]) simp_all
qed

lemma occ_req_of_example:
  assumes "sfm_db < - 4"
  shows "occ_req_of (1 / 2) 1000 sfm_db = 1 / 2 * sqrt (256 / 1000)"
    and "\<bar>occ_req_of (1 / 2) 1000 sfm_db - 253 / 1000\<bar> < 1 / 1000"
proof -
  define q where "q = sqrt (256 / 1000)"
  have q: "505 / 1000 < q" "q < 507 / 1000" using sqrt_256_1000 by (simp_all add: q_def)
  have m: "max 64 (real (1000::nat)) = 1000" by simp
  have "occ_req_of (1 / 2) 1000 sfm_db = max (1 / 10) (min (45 / 100) (1 / 2 * q))"
    using assms unfolding occ_req_of_def Let_def m q_def[symmetric] by simp
  also have "\<dots> = 1 / 2 * q" using q by (simp add: max_def min_def)
  finally show 1: "occ_req_of (1 / 2) 1000 sfm_db = 1 / 2 * sqrt (256 / 1000)" by (simp add: q_def)
  show "\<bar>occ_req_of (1 / 2) 1000 sfm_db - 253 / 1000\<bar> < 1 / 1000"
    unfolding 1 q_def[symmetric] using q by linarith
qed

lemma jam_decide_occ_req_ema:
  "occ_req_ema (fst (jam_decide now mc mb ml s)) =
     Some (occ_req_smooth (occ_req_ema s)
             (occ_req_of (jam_occ_min s) (length mc) (spectral_flatness_db (map (\<lambda>v. 10 powr (v / 10)) mc))))"
  by (simp add: jam_decide_def Let_def)

lemma occ_req_eff_bounds: "1 / 10 \<le> occ_req_eff_of e" "occ_req_eff_of e \<le> 45 / 100"
  by (simp_all add: occ_req_eff_of_def clip_def)

text \<open>
  C5 as stated fails where a floor is active.  With 1011 masked bins (an FFT of 1024 bins), a
  minimum occupancy of 0.1 and a flatness of 0 dB the clamp gives 0.10; the claim's value is
  \<open>0.85 * 0.10 = 0.085\<close>, the code's is \<open>max(0.10, 0.085) = 0.10\<close>.
\<close>

theorem occ_req_floor_counterexample:
  "occ_req_of (1 / 10) 1011 0 = 1 / 10 \<and> spec_occ_req (1 / 10) 1011 0 = 85 / 1000
   \<and> occ_req_of (1 / 10) 1011 0 \<noteq> spec_occ_req (1 / 10) 1011 0"
proof -
  have "sqrt (256 / 1011) \<le> sqrt 1" by (intro real_sqrt_le_mono) simp
  then have s: "sqrt (256 / 1011) \<le> 1" by simp
  have m: "max 64 (real (1011::nat)) = 1011" by simp
  have c: "clip (1 / 10 * sqrt (256 / 1011)) (1 / 10) (45 / 100) = 1 / 10"
    using s by (simp add: clip_def max_def min_def)
  have 1: "occ_req_of (1 / 10) 1011 0 = 1 / 10"
    unfolding occ_req_of_tiers Let_def m c by simp
  have 2: "spec_occ_req (1 / 10) 1011 0 = 85 / 1000"
    unfolding spec_occ_req_def Let_def m c by simp
  from 1 2 show ?thesis by simp
qed

text \<open>
  C5, amended.  With \<open>r = clamp(occMin * sqrt(256 / max(64, N)), 0.10, 0.45)\<close>, the
  requirement of a tick is \<open>max(0.10, 0.85 r)\<close> when the flatness is at least \<open>-3.5\<close> dB,
  \<open>max(0.12, 0.92 r)\<close> when it is at least \<open>-4.0\<close> dB and below \<open>-3.5\<close> dB, and \<open>r\<close> otherwise.
  The detector stores the moving average of it (the value itself on the first tick, then
  \<open>0.6 * old + 0.4 * new\<close>), and the effective requirement is that average clipped to
  \<open>[0.10, 0.45]\<close>.  With \<open>N = 1000\<close>, \<open>occMin = 0.5\<close> and a flatness below \<open>-4\<close> dB the
  requirement is \<open>clamp(0.5 * sqrt(256 / 1000), 0.10, 0.45)\<close>, within 0.001 of 0.253.
\<close>

theorem occ_requirement_with_floors:
  "occ_req_of occ_min N sfm_db =
     (let r = clip (occ_min * sqrt (256 / max 64 (real N))) (1 / 10) (45 / 100)
      in if - (7 / 2) \<le> sfm_db then max (1 / 10) (85 / 100 * r)
         else if - 4 \<le> sfm_db then max (12 / 100) (92 / 100 * r)
         else r)
   \<and> occ_req_ema (fst (jam_decide now mc mb ml s)) =
       (let v = occ_req_of (jam_occ_min s) (length mc) (spectral_flatness_db (map (\<lambda>v. 10 powr (v / 10)) mc))
        in Some (case occ_req_ema s of None \<Rightarrow> v | Some e \<Rightarrow> 6 / 10 * e + 4 / 10 * v))
   \<and> occ_req_eff_of e = clip e (1 / 10) (45 / 100)
   \<and> 1 / 10 \<le> occ_req_eff_of e \<and> occ_req_eff_of e \<le> 45 / 100
   \<and> (sfm_db < - 4 \<longrightarrow>
        occ_req_of (1 / 2) 1000 sfm_db = clip (1 / 2 * sqrt (256 / 1000)) (1 / 10) (45 / 100)
        \<and> \<bar>occ_req_of (1 / 2) 1000 sfm_db - 253 / 1000\<bar> < 1 / 1000)"
proof -
  have 5: "occ_req_of (1 / 2) 1000 sfm_db = clip (1 / 2 * sqrt (256 / 1000)) (1 / 10) (45 / 100)
        \<and> \<bar>occ_req_of (1 / 2) 1000 sfm_db - 253 / 1000\<bar> < 1 / 1000" if "sfm_db < - 4"
  proof -
    have "clip (1 / 2 * sqrt (256 / 1000)) (1 / 10) (45 / 100) = 1 / 2 * sqrt (256 / 1000)"
      using sqrt_256_1000 by (simp add: clip_def max_def min_def)
    then show ?thesis using occ_req_of_example[OF that] by simp
  qed
  have 2: "occ_req_ema (fst (jam_decide now mc mb ml s)) =
       (let v = occ_req_of (jam_occ_min s) (length mc) (spectral_flatness_db (map (\<lambda>v. 10 powr (v / 10)) mc))
        in Some (case occ_req_ema s of None \<Rightarrow> v | Some e \<Rightarrow> 6 / 10 * e + 4 / 10 * v))"
    unfolding jam_decide_occ_req_ema by (simp only: occ_req_smooth_def Let_def)
  have 3: "occ_req_eff_of e = clip e (1 / 10) (45 / 100)" by (simp only: occ_req_eff_of_def)
  from occ_req_of_tiers[of occ_min N sfm_db] 2 3 occ_req_eff_bounds[of e] 5
  show ?thesis by blast
qed

text \<open>The example of C5 at a flatness of \<open>-10\<close> dB, and the floor at work at 0 dB.\<close>

theorem occ_requirement_with_floors_witness:
  "(- 10 :: real) < - 4
   \<and> occ_req_of (1 / 2) 1000 (- 10) = clip (1 / 2 * sqrt (256 / 1000)) (1 / 10) (45 / 100)
   \<and> \<bar>occ_req_of (1 / 2) 1000 (- 10) - 253 / 1000\<bar> < 1 / 1000
   \<and> occ_req_of (1 / 10) 1011 0 = max (1 / 10) (85 / 100 * clip (1 / 10 * sqrt (256 / max 64 (real (1011 :: nat)))) (1 / 10) (45 / 100))"
proof -
  have h: "(- 10 :: real) < - 4" by simp
  from occ_requirement_with_floors[of "1 / 10" 1011 0 0 "[]" "[]" 0 "det_init 16 0" 0]
  have a: "occ_req_of (1 / 10) 1011 0 = max (1 / 10) (85 / 100 * clip (1 / 10 * sqrt (256 / max 64 (real (1011 :: nat)))) (1 / 10) (45 / 100))"
    by (simp add: Let_def)
  from occ_requirement_with_floors[of "1 / 2" 1000 "- 10" 0 "[]" "[]" 0 "det_init 16 0" 0] h
  have b: "occ_req_of (1 / 2) 1000 (- 10) = clip (1 / 2 * sqrt (256 / 1000)) (1 / 10) (45 / 100)
        \<and> \<bar>occ_req_of (1 / 2) 1000 (- 10) - 253 / 1000\<bar> < 1 / 1000"
    by blast
  from h a b show ?thesis by blast
qed

section \<open>The stages of a detector tick\<close>

text \<open>
  The statistics stage changes the flatness reference, the smoothed requirement, the two
  hysteresis flags, the freeze deadline, the score average and the debug time, nothing else,
  and switches no port.
\<close>

lemma jam_decide_frame:
  "\<exists>r e b1 b2 f se d. fst (jam_decide now mc mb ml s) =
      s\<lparr>sfm_ref := Some r, occ_req_ema := Some e, jam_band_state := b1, jam_med_state := b2,
        baseline_freeze_until := f, score_ema := Some se, jam_last_dbg := d\<rparr>"
  unfolding jam_decide_def Let_def fst_conv by blast

lemma jam_decide_effects:
  "switch_events (snd (snd (snd (snd (jam_decide now mc mb ml s))))) = []"
  by (simp add: jam_decide_def Let_def)

text \<open>
  A tick that the first part ends switches no port and leaves the hold start, the cooldown
  deadline and the selection alone; a tick it hands over has passed every guard.
\<close>

lemma jam_front_Inl:
  assumes "jam_front raw now s = Inl (s', es)"
  shows "switch_events es = [] \<and> jam_cooldown_until s' = jam_cooldown_until s
    \<and> jam_cooldown_s s' = jam_cooldown_s s \<and> jam_started s' = jam_started s
    \<and> antenna_select s' = antenna_select s \<and> current_port_index s' = current_port_index s"
  using assms unfolding jam_front_def Let_def
  by (simp split: if_splits option.splits, safe, simp_all)

lemma jam_front_Inr:
  assumes "jam_front raw now s = Inr (p, mc, mb, ml, s1)"
  shows "\<not> rebuilding s \<and> mode s = Jamming \<and> toggle_checked s
    \<and> s1 = s\<lparr>jam_baseline_db := jam_baseline_db s1\<rparr>
    \<and> ml = median mc - median mb \<and> ml \<le> 8 \<and> jam_ready_at s \<le> now
    \<and> (case jam_ignore_until s of None \<Rightarrow> True | Some u \<Rightarrow> u \<le> now)
    \<and> (\<exists>mags. raw = Some mags \<and> length mags = fft_size s \<and> p = power_db_of (fft_size s) mags)"
  using assms unfolding jam_front_def Let_def
  by (simp split: if_splits option.splits, safe, simp_all)

lemma update_antenna_frame:
  "jam_cooldown_s (fst (update_antenna v clk s)) = jam_cooldown_s s
   \<and> jam_cooldown_until (fst (update_antenna v clk s)) = jam_cooldown_until s
   \<and> score_ema (fst (update_antenna v clk s)) = score_ema s
   \<and> ports (fst (update_antenna v clk s)) = ports s
   \<and> length (switch_events (snd (update_antenna v clk s))) \<le> 1"
  by (simp add: update_antenna_def Let_def split: option.splits)

text \<open>The three ways through the gate: reset, hold, switch.\<close>

lemma jam_gate_quiet:
  assumes "\<not> (cond \<and> improves)"
  shows "jam_gate now clk p sfm cond improves s = (s\<lparr>jam_started := None\<rparr>, [])"
  unfolding jam_gate_def by (rule if_not_P[OF assms])

lemma jam_gate_holding:
  assumes "cond" "improves"
    and "\<not> (jam_hold_s s \<le> now - (case jam_started s of None \<Rightarrow> now | Some t \<Rightarrow> t)
            \<and> 6 / 10 \<le> now - (case jam_last_switch s of None \<Rightarrow> 0 | Some t \<Rightarrow> t)
            \<and> jam_cooldown_until s \<le> now)"
  shows "jam_gate now clk p sfm cond improves s =
           (s\<lparr>jam_started := Some (case jam_started s of None \<Rightarrow> now | Some t \<Rightarrow> t)\<rparr>, [])"
  using assms by (auto simp: jam_gate_def Let_def)

lemma jam_gate_fires:
  assumes "cond" "improves"
    and "jam_hold_s s \<le> now - (case jam_started s of None \<Rightarrow> now | Some t \<Rightarrow> t)"
    and "6 / 10 \<le> now - (case jam_last_switch s of None \<Rightarrow> 0 | Some t \<Rightarrow> t)"
    and "jam_cooldown_until s \<le> now"
    and "ports s \<noteq> []"
  shows "jam_gate now clk p sfm cond improves s =
     (let idx = (current_port_index s + 1) mod length (ports s);
          new_port = ports s ! idx;
          s2 = s\<lparr>jam_started := Some (case jam_started s of None \<Rightarrow> now | Some t \<Rightarrow> t),
                 current_port_index := idx,
                 antenna_edit := (case antenna_edit s of None \<Rightarrow> None | Some _ \<Rightarrow> Some new_port)\<rparr>;
          s3 = fst (update_antenna None clk s2)
      in (s3\<lparr>jam_last_switch := Some now,
              jam_cooldown_until := now + jam_cooldown_s s,
              jam_started := None,
              jam_ready_at := now + 8 / 10,
              baseline_freeze_until := Some (now + 6 / 10),
              jam_baseline_db := Some p,
              sfm_ref := Some sfm,
              last_score_at_switch := score_ema s,
              jam_last_dbg := now\<rparr>,
          ShowJamAlert # (case antenna_edit s of None \<Rightarrow> [] | Some _ \<Rightarrow> [SetAntennaEditText new_port])
            @ snd (update_antenna None clk s2)))"
  using assms update_antenna_frame
  by (simp add: jam_gate_def Let_def split_def)

section \<open>The 8 dB safety valve\<close>

text \<open>Inside the ignore window a tick does nothing at all.\<close>

lemma check_jamming_ignored:
  assumes "jam_ignore_until s = Some u" "now < u"
  shows "check_jamming raw now clk s = (s, [])"
  using assms by (simp add: check_jamming_def jam_front_def Let_def split: option.splits)

text \<open>
  C8.  On a tick of the running detector that is past the ignore and ready windows and has a
  baseline and a mask, if the median of the masked current spectrum exceeds the median of the
  masked baseline (the baseline of this tick, after its moving-average update) by more than
  8 dB, then the baseline becomes the current spectrum, no effect is issued (so no port
  switch), and every tick earlier than 0.8 s after this one does nothing.
\<close>

theorem snap_on_step_change:
  assumes "\<not> rebuilding s" "mode s = Jamming" "toggle_checked s"
    and "length mags = fft_size s"
    and "case jam_ignore_until s of None \<Rightarrow> True | Some u \<Rightarrow> u \<le> now"
    and "jam_baseline_db s = Some base0"
    and "ema_baseline now (power_db_of (fft_size s) mags) base0 s = Some base"
    and "jam_ready_at s \<le> now"
    and "jam_mask s = Some m" "list_ex id m"
    and "mask_select (power_db_of (fft_size s) mags) m = Some mc" "mask_select base m = Some mb"
    and "8 < median mc - median mb"
  shows "check_jamming (Some mags) now clk s =
           (s\<lparr>jam_baseline_db := Some (power_db_of (fft_size s) mags),
              jam_ignore_until := Some (now + 8 / 10)\<rparr>, [])
       \<and> (\<forall>raw' now' clk'. now' < now + 8 / 10 \<longrightarrow>
            check_jamming raw' now' clk' (fst (check_jamming (Some mags) now clk s))
              = (fst (check_jamming (Some mags) now clk s), []))"
proof -
  have ig: "\<not> (case jam_ignore_until s of None \<Rightarrow> False | Some u \<Rightarrow> now < u)"
    using assms(5) by (simp split: option.splits)
  have ne: "\<not> (m = [] \<or> \<not> list_ex id m)" using assms(10) by auto
  have f: "jam_front (Some mags) now s =
      Inl (s\<lparr>jam_baseline_db := Some (power_db_of (fft_size s) mags),
              jam_ignore_until := Some (now + 8 / 10)\<rparr>, [])"
    unfolding jam_front_def Let_def
    using assms(1-4,6-9,11-13) ig ne by simp
  have 1: "check_jamming (Some mags) now clk s =
           (s\<lparr>jam_baseline_db := Some (power_db_of (fft_size s) mags),
              jam_ignore_until := Some (now + 8 / 10)\<rparr>, [])"
    by (simp add: check_jamming_def f)
  have 2: "check_jamming raw' now' clk' (fst (check_jamming (Some mags) now clk s))
              = (fst (check_jamming (Some mags) now clk s), [])" if "now' < now + 8 / 10" for raw' now' clk'
    unfolding 1 fst_conv by (rule check_jamming_ignored[OF _ that]) simp
  from 1 2 show ?thesis by blast
qed

text \<open>
  Spectra that are the same in every bin: the power of a level capture, what the mask keeps
  of them, their median, and their moving average.  The mask of 1024 bins keeps bin 2.
\<close>

lemma power_db_level:
  assumes "0 < n" "- 240 \<le> db" "db \<le> 180"
  shows "power_db_of n (level_mags n db) = replicate n db"
proof -
  define p :: real where "p = 10 powr (db / 20)"
  have "(10::real) powr (- 12) \<le> 10 powr (db / 20)" using assms by (intro powr_mono) simp_all
  moreover have "(10::real) powr (- 12) = 1 / 10 ^ 12" by (simp add: powr_minus_divide)
  ultimately have lo: "1 / 10 ^ 12 \<le> p" by (simp only: p_def)
  have "(10::real) powr (db / 20) \<le> 10 powr 9" using assms by (intro powr_mono) simp_all
  moreover have "(10::real) powr 9 = 10 ^ 9" by simp
  ultimately have hi: "p \<le> 10 ^ 9" by (simp only: p_def)
  have c: "clip p (1 / 10 ^ 12) (10 ^ 9) = p"
    unfolding clip_def using lo hi by (simp only: max_absorb1 min_absorb1)
  have s: "real n * 10 powr (db / 20) * (1 / real n) = p" using assms(1) by (simp add: p_def)
  have "20 * log 10 p = db" by (simp add: p_def)
  then show ?thesis
    unfolding power_db_of_def scale_mags_def level_mags_def map_replicate s c by simp
qed

lemma mask_select_replicate:
  assumes "length m = n"
  shows "mask_select (replicate n x) m = Some (replicate (length (filter id m)) x)"
proof -
  have "map fst (filter snd (zip (replicate (length m) x) m)) = replicate (length (filter id m)) x"
    by (induction m) simp_all
  then show ?thesis using assms by (simp add: mask_select_def)
qed

lemma median_replicate: "0 < k \<Longrightarrow> median (replicate k x) = x"
proof -
  assume k: "0 < k"
  have s: "sort (replicate k x) = replicate k x"
    by (rule sorted_sort_id) (simp add: sorted_replicate)
  have "k div 2 < k" using k by simp
  moreover have "k div 2 - 1 < k" using k by simp
  ultimately show ?thesis unfolding median_def Let_def s by simp
qed

lemma broadcast2_replicate:
  "broadcast2 f (replicate n a) (replicate n b) = Some (replicate n (f a b))"
proof -
  have "map (\<lambda>(x, y). f x y) (zip (replicate n a) (replicate n b)) = replicate n (f a b)"
    by (induction n) simp_all
  then show ?thesis by (simp add: broadcast2_def)
qed

lemma length_rebuild_jam_mask: "length (rebuild_jam_mask n) = n"
  by (simp add: rebuild_jam_mask_def Let_def)

lemma rebuild_jam_mask_nth:
  "i < n \<Longrightarrow> rebuild_jam_mask n ! i =
     (\<not> (n div 2 - max 2 (n div 256) \<le> i \<and> i < min n (n div 2 + max 2 (n div 256) + 1)) \<and> \<not> i < 2 \<and> \<not> n - 2 \<le> i)"
  by (simp add: rebuild_jam_mask_def Let_def)

lemma mask1024_some: "list_ex id (rebuild_jam_mask 1024)"
proof -
  have a: "rebuild_jam_mask 1024 ! 2 \<in> set (rebuild_jam_mask 1024)"
    by (rule nth_mem) (simp add: length_rebuild_jam_mask)
  have b: "id (rebuild_jam_mask 1024 ! 2)" by (simp add: rebuild_jam_mask_nth)
  from a b show ?thesis unfolding list_ex_iff by (rule bexI[rotated])
qed

lemma mask1024_pos: "0 < length (filter id (rebuild_jam_mask 1024))"
proof -
  have "filter id (rebuild_jam_mask 1024) \<noteq> []"
    using mask1024_some unfolding list_ex_iff filter_empty_conv by blast
  then show ?thesis by simp
qed

lemma mask_bins_pos: "0 < mask_bins"
  unfolding mask_bins_def by (rule mask1024_pos)

lemma step_state_fields:
  "\<not> rebuilding step_state" "mode step_state = Jamming" "toggle_checked step_state"
  "fft_size step_state = 1024" "jam_ignore_until step_state = None"
  "jam_baseline_db step_state = Some (replicate 1024 (- 10))"
  "jam_ready_at step_state = 3 / 2" "jam_mask step_state = Some (rebuild_jam_mask 1024)"
  "baseline_freeze_until step_state = None" "jam_alpha step_state = 5 / 100"
  by (simp_all add: step_state_def det_init_def)

text \<open>
  A baseline at \<open>-10\<close> dB and a capture at 0 dB, at time 10: the updated baseline is at
  \<open>-9.5\<close> dB, the lift is 9.5 dB, the baseline snaps to 0 dB and the tick at 10.5 s is ignored.
\<close>

theorem snap_on_step_change_witness:
  "length (level_mags 1024 0) = fft_size step_state
   \<and> jam_ready_at step_state \<le> 10
   \<and> 8 < median (replicate mask_bins (0::real)) - median (replicate mask_bins (- 19 / 2))
   \<and> check_jamming (Some (level_mags 1024 0)) 10 (10, 10) step_state =
        (step_state\<lparr>jam_baseline_db := Some (replicate 1024 0),
                     jam_ignore_until := Some (10 + 8 / 10)\<rparr>, [])
   \<and> check_jamming (Some (level_mags 1024 0)) (21 / 2) (21 / 2, 21 / 2)
        (fst (check_jamming (Some (level_mags 1024 0)) 10 (10, 10) step_state))
        = (fst (check_jamming (Some (level_mags 1024 0)) 10 (10, 10) step_state), [])"
proof -
  have p: "power_db_of 1024 (level_mags 1024 0) = replicate 1024 0"
    by (rule power_db_level) simp_all
  have h4: "length (level_mags 1024 0) = fft_size step_state"
    by (simp add: step_state_fields level_mags_def)
  have h5: "case jam_ignore_until step_state of None \<Rightarrow> True | Some u \<Rightarrow> u \<le> 10"
    by (simp add: step_state_fields)
  have h7: "ema_baseline 10 (power_db_of (fft_size step_state) (level_mags 1024 0))
      (replicate 1024 (- 10)) step_state = Some (replicate 1024 (- 19 / 2))"
    by (simp add: ema_baseline_def step_state_fields p broadcast2_replicate)
  have h8: "jam_ready_at step_state \<le> 10" by (simp add: step_state_fields)
  have m: "mask_select (replicate 1024 x) (rebuild_jam_mask 1024) = Some (replicate mask_bins x)" for x
    unfolding mask_bins_def by (rule mask_select_replicate) (rule length_rebuild_jam_mask)
  have h11: "mask_select (power_db_of (fft_size step_state) (level_mags 1024 0)) (rebuild_jam_mask 1024)
      = Some (replicate mask_bins 0)"
    by (simp add: step_state_fields p m)
  have h13: "8 < median (replicate mask_bins (0::real)) - median (replicate mask_bins (- 19 / 2))"
    by (simp add: median_replicate[OF mask_bins_pos])
  note t = snap_on_step_change[OF step_state_fields(1,2,3) h4 h5 step_state_fields(6) h7 h8
      step_state_fields(8) mask1024_some h11 m h13, of "(10, 10)", unfolded step_state_fields p]
  have c: "check_jamming (Some (level_mags 1024 0)) 10 (10, 10) step_state =
        (step_state\<lparr>jam_baseline_db := Some (replicate 1024 0),
                     jam_ignore_until := Some (10 + 8 / 10)\<rparr>, [])"
    by (rule conjunct1[OF t])
  have d: "\<forall>raw' now' clk'. now' < 10 + 8 / 10 \<longrightarrow>
            check_jamming raw' now' clk' (fst (check_jamming (Some (level_mags 1024 0)) 10 (10, 10) step_state))
              = (fst (check_jamming (Some (level_mags 1024 0)) 10 (10, 10) step_state), [])"
    by (rule conjunct2[OF t])
  have e: "check_jamming (Some (level_mags 1024 0)) (21 / 2) (21 / 2, 21 / 2)
        (fst (check_jamming (Some (level_mags 1024 0)) 10 (10, 10) step_state))
        = (fst (check_jamming (Some (level_mags 1024 0)) 10 (10, 10) step_state), [])"
    using d by simp
  from h4 h8 h13 c e show ?thesis by blast
qed

text \<open>
  Not every tick with such a lift snaps.  The first tick after Start only stores its spectrum
  as the baseline; a tick inside the ready window only averages the baseline.  From the
  started default detector: a capture at \<open>-10\<close> dB at 0.1 s, then a capture at 0 dB at 0.2 s.
  The second tick sees a median lift of 10 dB over the baseline (9.5 dB over the averaged
  one); it leaves the baseline at \<open>-9.5\<close> dB, not at the current spectrum, and opens no ignore
  window.
\<close>

lemma first_tick_baseline:
  assumes "\<not> rebuilding s" "mode s = Jamming" "toggle_checked s" "length mags = fft_size s"
    and "jam_ignore_until s = None" "jam_baseline_db s = None"
  shows "check_jamming (Some mags) now clk s = (s\<lparr>jam_baseline_db := Some (power_db_of (fft_size s) mags)\<rparr>, [])"
  using assms by (simp add: check_jamming_def jam_front_def Let_def)

lemma ready_window_tick:
  assumes "\<not> rebuilding s" "mode s = Jamming" "toggle_checked s" "length mags = fft_size s"
    and "jam_ignore_until s = None" "jam_baseline_db s = Some base0"
    and "ema_baseline now (power_db_of (fft_size s) mags) base0 s = Some base"
    and "now < jam_ready_at s"
  shows "check_jamming (Some mags) now clk s = (s\<lparr>jam_baseline_db := Some base\<rparr>, [])"
  using assms by (simp add: check_jamming_def jam_front_def Let_def)

theorem snap_skipped_before_ready:
  "(let s1 = fst (check_jamming (Some (level_mags 1024 (- 10))) (1 / 10) (1 / 10, 1 / 10) (det_init 1024 0));
        r = check_jamming (Some (level_mags 1024 0)) (2 / 10) (2 / 10, 2 / 10) s1
    in jam_baseline_db s1 = Some (replicate 1024 (- 10))
       \<and> power_db_of 1024 (level_mags 1024 0) = replicate 1024 0
       \<and> (\<exists>mc mb mb'. mask_select (replicate 1024 0) (rebuild_jam_mask 1024) = Some mc
             \<and> mask_select (replicate 1024 (- 10)) (rebuild_jam_mask 1024) = Some mb
             \<and> mask_select (replicate 1024 (- 19 / 2)) (rebuild_jam_mask 1024) = Some mb'
             \<and> median mc - median mb = 10 \<and> median mc - median mb' = 19 / 2)
       \<and> r = (s1\<lparr>jam_baseline_db := Some (replicate 1024 (- 19 / 2))\<rparr>, [])
       \<and> jam_ignore_until (fst r) = None)"
proof -
  define s0 where "s0 = det_init 1024 0"
  define s1 where "s1 = s0\<lparr>jam_baseline_db := Some (replicate 1024 (- 10))\<rparr>"
  have f0: "\<not> rebuilding s0" "mode s0 = Jamming" "toggle_checked s0" "fft_size s0 = 1024"
    "jam_ignore_until s0 = None" "jam_baseline_db s0 = None" "jam_ready_at s0 = 3 / 2"
    "baseline_freeze_until s0 = None" "jam_alpha s0 = 5 / 100"
    by (simp_all add: s0_def det_init_def)
  have p1: "power_db_of 1024 (level_mags 1024 (- 10)) = replicate 1024 (- 10)"
    by (rule power_db_level) simp_all
  have p2: "power_db_of 1024 (level_mags 1024 0) = replicate 1024 0"
    by (rule power_db_level) simp_all
  have l: "length (level_mags 1024 db) = 1024" for db by (simp add: level_mags_def)
  have t1: "check_jamming (Some (level_mags 1024 (- 10))) (1 / 10) (1 / 10, 1 / 10) s0 = (s1, [])"
    using first_tick_baseline[of s0 "level_mags 1024 (- 10)" "1 / 10" "(1 / 10, 1 / 10)"]
    by (simp add: f0 l p1 s1_def)
  have f1: "\<not> rebuilding s1" "mode s1 = Jamming" "toggle_checked s1" "fft_size s1 = 1024"
    "jam_ignore_until s1 = None" "jam_baseline_db s1 = Some (replicate 1024 (- 10))"
    "jam_ready_at s1 = 3 / 2" "baseline_freeze_until s1 = None" "jam_alpha s1 = 5 / 100"
    by (simp_all add: s1_def f0)
  have e: "ema_baseline (2 / 10) (power_db_of (fft_size s1) (level_mags 1024 0)) (replicate 1024 (- 10)) s1
      = Some (replicate 1024 (- 19 / 2))"
    by (simp add: ema_baseline_def f1 p2 broadcast2_replicate)
  have t2: "check_jamming (Some (level_mags 1024 0)) (2 / 10) (2 / 10, 2 / 10) s1
      = (s1\<lparr>jam_baseline_db := Some (replicate 1024 (- 19 / 2))\<rparr>, [])"
    by (rule ready_window_tick[OF f1(1,2,3) _ f1(5,6) e]) (simp_all add: f1 l)
  define k where "k = length (filter id (rebuild_jam_mask 1024))"
  have k: "0 < k" unfolding k_def by (rule mask1024_pos)
  have m: "mask_select (replicate 1024 x) (rebuild_jam_mask 1024) = Some (replicate k x)" for x
    unfolding k_def by (rule mask_select_replicate) (rule length_rebuild_jam_mask)
  have md: "median (replicate k (0::real)) - median (replicate k (- 10)) = 10"
    "median (replicate k (0::real)) - median (replicate k (- 19 / 2)) = 19 / 2"
    by (simp_all add: median_replicate[OF k])
  have ex: "\<exists>mc mb mb'. mask_select (replicate 1024 0) (rebuild_jam_mask 1024) = Some mc
             \<and> mask_select (replicate 1024 (- 10)) (rebuild_jam_mask 1024) = Some mb
             \<and> mask_select (replicate 1024 (- 19 / 2)) (rebuild_jam_mask 1024) = Some mb'
             \<and> median mc - median mb = 10 \<and> median mc - median mb' = 19 / 2"
    using m md by blast
  have i: "jam_ignore_until (s1\<lparr>jam_baseline_db := Some (replicate 1024 (- 19 / 2))\<rparr>) = None"
    by (simp add: f1)
  show ?thesis
    unfolding Let_def s0_def[symmetric] t1 fst_conv t2
    using f1(6) p2 ex i by simp
qed

text \<open>The 16-bin example capture is 0 dB in every bin; the mask of 16 bins keeps 7 of them.\<close>

lemma power_db_flat: "power_db_of 16 flat_mags = [0, 0, 0, 0, 0, 0, 0, 0, 0, 0, 0, 0, 0, 0, 0, 0]"
  by (simp add: power_db_of_def flat_mags_def scale_mags_def clip_def)

lemma mask16: "rebuild_jam_mask 16 =
  [False, False, True, True, True, True, False, False, False, False, False, True, True, True, False, False]"
  by code_simp

section \<open>The hold, dwell and cooldown gate\<close>

text \<open>With no ports the switch raises after the alert: nothing is switched, nothing re-armed.\<close>

lemma jam_gate_silent:
  assumes "cond" "improves"
    and "jam_hold_s s \<le> now - (case jam_started s of None \<Rightarrow> now | Some t \<Rightarrow> t)"
    and "6 / 10 \<le> now - (case jam_last_switch s of None \<Rightarrow> 0 | Some t \<Rightarrow> t)"
    and "jam_cooldown_until s \<le> now"
    and "ports s = []"
  shows "jam_gate now clk p sfm cond improves s =
           (s\<lparr>jam_started := Some (case jam_started s of None \<Rightarrow> now | Some t \<Rightarrow> t)\<rparr>,
            [ShowJamAlert, LogDetectorError])"
  using assms by (simp add: jam_gate_def Let_def)

lemma switch_events_append: "switch_events (xs @ ys) = switch_events xs @ switch_events ys"
  by (induction xs rule: switch_events.induct) simp_all

text \<open>
  The gate never changes the cooldown duration and switches at most one port; either it
  leaves the cooldown deadline alone and switches nothing, or the trigger, the stickiness,
  the hold, the dwell and the cooldown all held and the deadline is now \<open>now + cooldown\<close>.
\<close>

lemma jam_gate_frame:
  "jam_cooldown_s (fst (jam_gate now clk p sfm cond improves s)) = jam_cooldown_s s
   \<and> length (switch_events (snd (jam_gate now clk p sfm cond improves s))) \<le> 1
   \<and> (jam_cooldown_until (fst (jam_gate now clk p sfm cond improves s)) = jam_cooldown_until s
        \<and> switch_events (snd (jam_gate now clk p sfm cond improves s)) = []
      \<or> cond \<and> improves
        \<and> jam_hold_s s \<le> now - (case jam_started s of None \<Rightarrow> now | Some t \<Rightarrow> t)
        \<and> 6 / 10 \<le> now - (case jam_last_switch s of None \<Rightarrow> 0 | Some t \<Rightarrow> t)
        \<and> jam_cooldown_until s \<le> now
        \<and> jam_cooldown_until (fst (jam_gate now clk p sfm cond improves s)) = now + jam_cooldown_s s)"
proof (cases "cond \<and> improves")
  case False
  show ?thesis unfolding jam_gate_quiet[OF False] by simp
next
  case ci: True
  show ?thesis
  proof (cases "jam_hold_s s \<le> now - (case jam_started s of None \<Rightarrow> now | Some t \<Rightarrow> t)
            \<and> 6 / 10 \<le> now - (case jam_last_switch s of None \<Rightarrow> 0 | Some t \<Rightarrow> t)
            \<and> jam_cooldown_until s \<le> now")
    case False
    show ?thesis unfolding jam_gate_holding[OF conjunct1[OF ci] conjunct2[OF ci] False] by simp
  next
    case g: True
    show ?thesis
    proof (cases "ports s = []")
      case True
      show ?thesis
        unfolding jam_gate_silent[OF conjunct1[OF ci] conjunct2[OF ci] conjunct1[OF g]
            conjunct1[OF conjunct2[OF g]] conjunct2[OF conjunct2[OF g]] True]
        by simp
    next
      case False
      show ?thesis
        unfolding jam_gate_fires[OF conjunct1[OF ci] conjunct2[OF ci] conjunct1[OF g]
            conjunct1[OF conjunct2[OF g]] conjunct2[OF conjunct2[OF g]] False] Let_def
        using ci g update_antenna_frame
        by (simp add: switch_events_append split: option.splits)
    qed
  qed
qed

text \<open>The same for a whole tick.\<close>

lemma check_jamming_tick:
  "jam_cooldown_s (fst (check_jamming raw now clk s)) = jam_cooldown_s s
   \<and> length (switch_events (snd (check_jamming raw now clk s))) \<le> 1
   \<and> (jam_cooldown_until (fst (check_jamming raw now clk s)) = jam_cooldown_until s
        \<and> switch_events (snd (check_jamming raw now clk s)) = []
      \<or> jam_cooldown_until s \<le> now
        \<and> jam_cooldown_until (fst (check_jamming raw now clk s)) = now + jam_cooldown_s s)"
proof (cases "jam_front raw now s")
  case (Inl r)
  obtain s' es where r: "r = (s', es)" by (cases r)
  from jam_front_Inl[OF Inl[unfolded r]] show ?thesis
    by (simp add: check_jamming_def Inl r)
next
  case (Inr q)
  obtain p mc mb ml s1 where q: "q = (p, mc, mb, ml, s1)" by (cases q)
  obtain s2 cond improves sfm e1 where d: "jam_decide now mc mb ml s1 = (s2, cond, improves, sfm, e1)"
    by (cases "jam_decide now mc mb ml s1")
  from jam_front_Inr[OF Inr[unfolded q]]
  have s1: "s1 = s\<lparr>jam_baseline_db := jam_baseline_db s1\<rparr>" by blast
  from jam_decide_frame[of now mc mb ml s1] d
  obtain r e b1 b2 f se dd where s2: "s2 = s1\<lparr>sfm_ref := Some r, occ_req_ema := Some e,
      jam_band_state := b1, jam_med_state := b2, baseline_freeze_until := f, score_ema := Some se,
      jam_last_dbg := dd\<rparr>" by auto
  have "jam_cooldown_s s1 = jam_cooldown_s s" by (subst s1) simp
  moreover have "jam_cooldown_until s1 = jam_cooldown_until s" by (subst s1) simp
  ultimately have k: "jam_cooldown_s s2 = jam_cooldown_s s" "jam_cooldown_until s2 = jam_cooldown_until s"
    by (simp_all add: s2)
  have e1: "switch_events e1 = []" using jam_decide_effects[of now mc mb ml s1] by (simp add: d)
  have c: "check_jamming raw now clk s =
      (fst (jam_gate now clk p sfm cond improves s2), e1 @ snd (jam_gate now clk p sfm cond improves s2))"
    by (simp add: check_jamming_def Inr q d split_def Let_def)
  from jam_gate_frame[of now clk p sfm cond improves s2]
  show ?thesis unfolding c by (auto simp: k e1 switch_events_append)
qed

text \<open>
  Sufficient conditions for the two decisions of a tick: a median lift of at least the ON
  threshold (which is at least 0.5 dB) makes the composite condition true; when every masked
  bin is over the threshold the occupancy is 1, the score is at least \<open>0.6 / 0.45\<close>, and the
  stickiness test reads as stated.
\<close>

lemma jam_decide_cond_median:
  assumes "1 / 2 \<le> jam_median_db s" "jam_median_db s \<le> ml"
  shows "fst (snd (jam_decide now mc mb ml s))"
  using assms by (simp add: jam_decide_def Let_def)

lemma jam_score_floor:
  assumes "1 / 10 \<le> x" "x \<le> 45 / 100"
  shows "4 / 3 \<le> jam_score 1 x bl bon ml mon"
proof -
  define a where "a = max 0 (bl / max bon (1 / 10 ^ 6))"
  define b where "b = max 0 (ml / max mon (1 / 10 ^ 6))"
  define y where "y = 1 / x"
  have ab: "0 \<le> a" "0 \<le> b" by (simp_all add: a_def b_def)
  have m: "max x (1 / 10 ^ 6) = x" using assms by simp
  have "1 / (45 / 100) \<le> 1 / x" using assms by (intro divide_left_mono) simp_all
  then have y: "20 / 9 \<le> y" by (simp add: y_def)
  have "jam_score 1 x bl bon ml mon = 6 / 10 * y + 25 / 100 * a + 15 / 100 * b"
    unfolding jam_score_def m a_def b_def y_def by (rule refl)
  then show ?thesis using y ab by linarith
qed

lemma jam_need_first: "jam_need now ls None = 11 / 10"
  by (simp add: jam_need_def)

lemma jam_need_decayed:
  assumes "0 \<le> l" "8 \<le> now - t"
  shows "jam_need now (Some t) (Some l) \<le> max (11 / 10) (l / 2 + 1 / 10)"
proof -
  have "(1 / 2) powr (max 0 ((now - t) / 8)) \<le> (1 / 2) powr 1"
    using assms(2) by (intro powr_mono') simp_all
  then have "l * (1 / 2) powr (max 0 ((now - t) / 8)) \<le> l * (1 / 2)"
    using assms(1) by (intro mult_left_mono) simp_all
  then show ?thesis by (simp add: jam_need_def Let_def)
qed

lemma all_over_count:
  assumes "length mb = length mc" "\<forall>i < length mc. t \<le> mc ! i - mb ! i"
  shows "length (filter id (map (\<lambda>(c, b). t \<le> c - b) (zip mc mb))) = length mc"
proof -
  have "\<forall>x \<in> set (map (\<lambda>(c, b). t \<le> c - b) (zip mc mb)). id x"
    using assms by (auto simp: set_zip)
  then have "filter id (map (\<lambda>(c, b). t \<le> c - b) (zip mc mb)) = map (\<lambda>(c, b). t \<le> c - b) (zip mc mb)"
    by (simp only: filter_True)
  then show ?thesis using assms(1) by simp
qed

lemma jam_decide_all_over:
  assumes "mc \<noteq> []" "length mb = length mc" "\<forall>i < length mc. jam_thresh_db s \<le> mc ! i - mb ! i"
  shows "\<exists>sc. 4 / 3 \<le> sc
     \<and> score_ema (fst (jam_decide now mc mb ml s))
         = Some (case score_ema s of None \<Rightarrow> sc | Some e \<Rightarrow> 8 / 10 * e + 2 / 10 * sc)
     \<and> fst (snd (snd (jam_decide now mc mb ml s)))
         = (jam_need now (jam_last_switch s) (last_score_at_switch s)
            \<le> (case score_ema s of None \<Rightarrow> sc | Some e \<Rightarrow> 8 / 10 * e + 2 / 10 * sc))
     \<and> (8 / 10 * jam_median_db s \<le> ml
          \<and> (case baseline_freeze_until s of None \<Rightarrow> 0 | Some f \<Rightarrow> f) \<le> now
        \<longrightarrow> baseline_freeze_until (fst (jam_decide now mc mb ml s)) = Some (now + 6 / 10))"
proof -
  have n: "length (filter id (map (\<lambda>(c, b). jam_thresh_db s \<le> c - b) (zip mc mb))) = length mc"
    by (rule all_over_count[OF assms(2,3)])
  have mx: "max 1 (length mc) = length mc" using assms(1) by (cases mc) simp_all
  have occ: "real (length mc) / real (length mc) = 1" using assms(1) by simp
  define x where "x = occ_req_eff_of (occ_req_smooth (occ_req_ema s)
      (occ_req_of (jam_occ_min s) (length mc) (spectral_flatness_db (map (\<lambda>v. 10 powr (v / 10)) mc))))"
  define sc where "sc = jam_score 1 x (band_lift_of mc mb) (jam_band_db s) ml (jam_median_db s)"
  have b: "4 / 3 \<le> sc" unfolding sc_def x_def by (rule jam_score_floor[OF occ_req_eff_bounds])
  have pre: "8 / 10 * x \<le> 1" using occ_req_eff_bounds[of "occ_req_smooth (occ_req_ema s)
      (occ_req_of (jam_occ_min s) (length mc) (spectral_flatness_db (map (\<lambda>v. 10 powr (v / 10)) mc)))"]
    unfolding x_def by linarith
  have 1: "score_ema (fst (jam_decide now mc mb ml s))
         = Some (case score_ema s of None \<Rightarrow> sc | Some e \<Rightarrow> 8 / 10 * e + 2 / 10 * sc)"
    unfolding jam_decide_def Let_def n mx occ x_def[symmetric] sc_def[symmetric] by simp
  have 2: "fst (snd (snd (jam_decide now mc mb ml s)))
         = (jam_need now (jam_last_switch s) (last_score_at_switch s)
            \<le> (case score_ema s of None \<Rightarrow> sc | Some e \<Rightarrow> 8 / 10 * e + 2 / 10 * sc))"
    unfolding jam_decide_def Let_def n mx occ x_def[symmetric] sc_def[symmetric] by simp
  have 3: "baseline_freeze_until (fst (jam_decide now mc mb ml s)) = Some (now + 6 / 10)"
    if "8 / 10 * jam_median_db s \<le> ml" "(case baseline_freeze_until s of None \<Rightarrow> 0 | Some f \<Rightarrow> f) \<le> now"
    unfolding jam_decide_def Let_def n mx occ x_def[symmetric] sc_def[symmetric]
    using that pre by simp
  from b 1 2 3 show ?thesis by blast
qed

lemma jam_decide_improves_first:
  assumes "score_ema s = Some e" "4 / 3 \<le> e" "last_score_at_switch s = None"
    and "mc \<noteq> []" "length mb = length mc" "\<forall>i < length mc. jam_thresh_db s \<le> mc ! i - mb ! i"
  shows "fst (snd (snd (jam_decide now mc mb ml s)))"
proof -
  from jam_decide_all_over[OF assms(4,5,6), of now ml]
  obtain sc where sc: "4 / 3 \<le> sc" and im: "fst (snd (snd (jam_decide now mc mb ml s)))
         = (jam_need now (jam_last_switch s) (last_score_at_switch s)
            \<le> (case score_ema s of None \<Rightarrow> sc | Some e \<Rightarrow> 8 / 10 * e + 2 / 10 * sc))" by blast
  have "11 / 10 \<le> 8 / 10 * e + 2 / 10 * sc" using assms(2) sc by simp
  then show ?thesis by (simp add: im assms(1,3) jam_need_first)
qed

lemma jam_decide_improves_again:
  assumes "score_ema s = Some e" "last_score_at_switch s = Some l" "jam_last_switch s = Some t"
    and "0 \<le> l" "5 / 8 * l \<le> e" "11 / 10 \<le> e" "8 \<le> now - t"
    and "mc \<noteq> []" "length mb = length mc" "\<forall>i < length mc. jam_thresh_db s \<le> mc ! i - mb ! i"
  shows "fst (snd (snd (jam_decide now mc mb ml s)))
     \<and> (\<exists>e'. score_ema (fst (jam_decide now mc mb ml s)) = Some e' \<and> 8 / 10 * e \<le> e' \<and> 11 / 10 \<le> e')"
proof -
  from jam_decide_all_over[OF assms(8,9,10), of now ml]
  obtain sc where sc: "4 / 3 \<le> sc"
    and se: "score_ema (fst (jam_decide now mc mb ml s))
         = Some (case score_ema s of None \<Rightarrow> sc | Some e \<Rightarrow> 8 / 10 * e + 2 / 10 * sc)"
    and im: "fst (snd (snd (jam_decide now mc mb ml s)))
         = (jam_need now (jam_last_switch s) (last_score_at_switch s)
            \<le> (case score_ema s of None \<Rightarrow> sc | Some e \<Rightarrow> 8 / 10 * e + 2 / 10 * sc))" by blast
  have "jam_need now (Some t) (Some l) \<le> max (11 / 10) (l / 2 + 1 / 10)"
    by (rule jam_need_decayed[OF assms(4,7)])
  also have "\<dots> \<le> 8 / 10 * e + 2 / 10 * sc" using assms(5,6) sc by simp
  finally have "fst (snd (snd (jam_decide now mc mb ml s)))" by (simp add: im assms(1,2,3))
  moreover have "8 / 10 * e \<le> 8 / 10 * e + 2 / 10 * sc" "11 / 10 \<le> 8 / 10 * e + 2 / 10 * sc"
    using sc assms(6) by simp_all
  ultimately show ?thesis by (simp add: se assms(1))
qed

text \<open>The eight ports of the cyclic order are valid names, in normal form, without repetition.\<close>

lemma det_ports_table:
  "list_all (\<lambda>i. index_of det_ports (det_ports ! i) = i
                \<and> py_upper (py_strip (det_ports ! i)) = det_ports ! i
                \<and> det_ports ! i \<in> set valid_ports) [0..<8]"
  by code_simp

lemma det_ports_nth:
  assumes "i < 8"
  shows "index_of det_ports (det_ports ! i) = i"
    and "py_upper (py_strip (det_ports ! i)) = det_ports ! i"
    and "det_ports ! i \<in> set valid_ports"
  using det_ports_table assms by (simp_all add: list_all_iff)

lemma length_det_ports: "length det_ports = 8"
  by (simp add: det_ports_def)

lemma update_antenna_rotated:
  assumes "antenna_edit s = Some (det_ports ! i)" "i < 8" "ports s = det_ports" "mode s = Jamming"
  shows "update_antenna None clk s =
     (s\<lparr>antenna_select := det_ports ! i, jam_baseline_db := None, jam_ready_at := fst clk + 3 / 2,
        current_port_index := i, jam_last_switch := Some (snd clk)\<rparr>,
      (if has_src s then [HwSetAntenna (det_ports ! i)] else []) @ [LogSwitched (det_ports ! i)] @
      (if has_oc_panel s then [PanelSetActive (det_ports ! i)] else []) @ [AntennaChanged (det_ports ! i)])"
proof -
  have m: "det_ports ! i \<in> set det_ports" using assms(2) by (simp add: length_det_ports)
  show ?thesis
    unfolding update_antenna_def Let_def
    using assms(3,4) m det_ports_nth[OF assms(2)]
    by (simp add: assms(1))
qed

text \<open>A tick that reaches the gate: what the stages before the gate left unchanged.\<close>

lemma check_jamming_at_gate:
  assumes "jam_front raw now s = Inr (p, mc, mb, ml, s1)"
    and "jam_decide now mc mb ml s1 = (s2, cond, improves, sfm, e1)"
  shows "check_jamming raw now clk s =
      (fst (jam_gate now clk p sfm cond improves s2), e1 @ snd (jam_gate now clk p sfm cond improves s2))"
    and "switch_events e1 = []"
    and "jam_started s2 = jam_started s" "jam_last_switch s2 = jam_last_switch s"
    and "jam_cooldown_until s2 = jam_cooldown_until s" "jam_hold_s s2 = jam_hold_s s"
    and "jam_cooldown_s s2 = jam_cooldown_s s" "ports s2 = ports s"
    and "antenna_edit s2 = antenna_edit s" "current_port_index s2 = current_port_index s"
    and "mode s2 = Jamming"
proof -
  from jam_front_Inr[OF assms(1)]
  have s1: "s1 = s\<lparr>jam_baseline_db := jam_baseline_db s1\<rparr>" and md: "mode s = Jamming" by blast+
  from jam_decide_frame[of now mc mb ml s1] assms(2)
  obtain r e b1 b2 f se dd where s2: "s2 = s1\<lparr>sfm_ref := Some r, occ_req_ema := Some e,
      jam_band_state := b1, jam_med_state := b2, baseline_freeze_until := f, score_ema := Some se,
      jam_last_dbg := dd\<rparr>" by auto
  have a: "jam_started s1 = jam_started s" "jam_last_switch s1 = jam_last_switch s"
    "jam_cooldown_until s1 = jam_cooldown_until s" "jam_hold_s s1 = jam_hold_s s"
    "jam_cooldown_s s1 = jam_cooldown_s s" "ports s1 = ports s"
    "antenna_edit s1 = antenna_edit s" "current_port_index s1 = current_port_index s"
    "mode s1 = mode s"
    by (subst s1, simp)+
  show "check_jamming raw now clk s =
      (fst (jam_gate now clk p sfm cond improves s2), e1 @ snd (jam_gate now clk p sfm cond improves s2))"
    by (simp add: check_jamming_def assms split_def Let_def)
  show "switch_events e1 = []" using jam_decide_effects[of now mc mb ml s1] by (simp add: assms(2))
  show "jam_started s2 = jam_started s" "jam_last_switch s2 = jam_last_switch s"
    and "jam_cooldown_until s2 = jam_cooldown_until s" "jam_hold_s s2 = jam_hold_s s"
    and "jam_cooldown_s s2 = jam_cooldown_s s" "ports s2 = ports s"
    and "antenna_edit s2 = antenna_edit s" "current_port_index s2 = current_port_index s"
    and "mode s2 = Jamming"
    using a md by (simp_all add: s2)
qed



lemma gate_switch_rotates:
  assumes "jam_front raw now s = Inr (p, mc, mb, ml, s1)"
    and "jam_decide now mc mb ml s1 = (s2, cond, improves, sfm, e1)"
    and "cond" "improves"
    and "jam_hold_s s \<le> now - (case jam_started s of None \<Rightarrow> now | Some t \<Rightarrow> t)"
    and "6 / 10 \<le> now - (case jam_last_switch s of None \<Rightarrow> 0 | Some t \<Rightarrow> t)"
    and "jam_cooldown_until s \<le> now"
    and "ports s = det_ports" "antenna_edit s \<noteq> None"
  shows "switch_events (snd (check_jamming raw now clk s)) = [det_ports ! ((current_port_index s + 1) mod 8)]
    \<and> current_port_index (fst (check_jamming raw now clk s)) = (current_port_index s + 1) mod 8
    \<and> antenna_select (fst (check_jamming raw now clk s)) = det_ports ! ((current_port_index s + 1) mod 8)
    \<and> jam_baseline_db (fst (check_jamming raw now clk s)) = Some p
    \<and> sfm_ref (fst (check_jamming raw now clk s)) = Some sfm
    \<and> last_score_at_switch (fst (check_jamming raw now clk s)) = score_ema s2
    \<and> jam_started (fst (check_jamming raw now clk s)) = None
    \<and> jam_last_switch (fst (check_jamming raw now clk s)) = Some now
    \<and> jam_cooldown_until (fst (check_jamming raw now clk s)) = now + jam_cooldown_s s
    \<and> jam_ready_at (fst (check_jamming raw now clk s)) = now + 8 / 10
    \<and> baseline_freeze_until (fst (check_jamming raw now clk s)) = Some (now + 6 / 10)"
proof -
  note g = check_jamming_at_gate[OF assms(1,2)]
  define i where "i = (current_port_index s + 1) mod 8"
  have i: "i < 8" by (simp add: i_def)
  obtain q where q: "antenna_edit s = Some q" using assms(9) by auto
  have pn: "ports s2 \<noteq> []" by (simp add: g assms(8) det_ports_def)
  define s2' where "s2' = s2\<lparr>jam_started := Some (case jam_started s2 of None \<Rightarrow> now | Some t \<Rightarrow> t),
                 current_port_index := i, antenna_edit := Some (det_ports ! i)\<rparr>"
  have u: "update_antenna None clk s2' =
     (s2'\<lparr>antenna_select := det_ports ! i, jam_baseline_db := None, jam_ready_at := fst clk + 3 / 2,
        current_port_index := i, jam_last_switch := Some (snd clk)\<rparr>,
      (if has_src s2' then [HwSetAntenna (det_ports ! i)] else []) @ [LogSwitched (det_ports ! i)] @
      (if has_oc_panel s2' then [PanelSetActive (det_ports ! i)] else []) @ [AntennaChanged (det_ports ! i)])"
    by (rule update_antenna_rotated[OF _ i]) (simp_all add: s2'_def g assms(8))
  have gate: "jam_gate now clk p sfm cond improves s2 =
     (fst (update_antenna None clk s2')\<lparr>jam_last_switch := Some now,
              jam_cooldown_until := now + jam_cooldown_s s2,
              jam_started := None,
              jam_ready_at := now + 8 / 10,
              baseline_freeze_until := Some (now + 6 / 10),
              jam_baseline_db := Some p,
              sfm_ref := Some sfm,
              last_score_at_switch := score_ema s2,
              jam_last_dbg := now\<rparr>,
          ShowJamAlert # SetAntennaEditText (det_ports ! i) # snd (update_antenna None clk s2'))"
    using jam_gate_fires[of cond improves s2 now clk p sfm, OF assms(3,4) _ _ _ pn]
      assms(5,6,7)
    by (simp add: g q assms(8) length_det_ports Let_def s2'_def i_def)
  show ?thesis
    unfolding g(1) gate u i_def[symmetric]
    by (simp add: g switch_events_append)
qed


text \<open>
  The example: a baseline 7 dB below a flat capture, a hold that began 0.5 s before the tick
  at 10 s.  The tick reaches the gate with a median lift of 6.65 dB.
\<close>

lemma held_state_fields:
  "\<not> rebuilding held_state" "mode held_state = Jamming" "toggle_checked held_state"
  "fft_size held_state = 16" "jam_ignore_until held_state = None"
  "jam_baseline_db held_state =
     Some [- 7, - 7, - 7, - 7, - 7, - 7, - 7, - 7, - 7, - 7, - 7, - 7, - 7, - 7, - 7, - 7]"
  "jam_ready_at held_state = 3 / 2" "jam_mask held_state = Some (rebuild_jam_mask 16)"
  "baseline_freeze_until held_state = None" "jam_alpha held_state = 5 / 100"
  "jam_started held_state = Some (19 / 2)" "jam_last_switch held_state = Some 0"
  "jam_cooldown_until held_state = 0" "jam_hold_s held_state = 4 / 10"
  "jam_cooldown_s held_state = 4" "ports held_state = det_ports"
  "antenna_edit held_state = Some ''A4''" "current_port_index held_state = 0"
  "jam_med_state held_state = False" "jam_median_db held_state = 2"
  "score_ema held_state = Some 2" "last_score_at_switch held_state = None"
  "jam_thresh_db held_state = 65 / 10"
  by (simp_all add: held_state_def det_init_def)

lemma held_front:
  "jam_front (Some flat_mags) 10 held_state =
     Inr ([0, 0, 0, 0, 0, 0, 0, 0, 0, 0, 0, 0, 0, 0, 0, 0], [0, 0, 0, 0, 0, 0, 0],
          [- 133 / 20, - 133 / 20, - 133 / 20, - 133 / 20, - 133 / 20, - 133 / 20, - 133 / 20],
          133 / 20, held_state\<lparr>jam_baseline_db := Some held_base\<rparr>)"
proof -
  have l: "length flat_mags = 16" by (simp add: flat_mags_def)
  have e: "ema_baseline 10 [0, 0, 0, 0, 0, 0, 0, 0, 0, 0, 0, 0, 0, 0, 0, 0]
      [- 7, - 7, - 7, - 7, - 7, - 7, - 7, - 7, - 7, - 7, - 7, - 7, - 7, - 7, - 7, - 7] held_state
      = Some held_base"
    by (simp add: ema_baseline_def held_state_fields broadcast2_def held_base_def)
  have m1: "mask_select [0, 0, 0, 0, 0, 0, 0, 0, 0, 0, 0, 0, 0, 0, 0, 0] (rebuild_jam_mask 16)
      = Some [0, 0, 0, 0, 0, 0, 0]"
    by (simp add: mask16 mask_select_def)
  have m2: "mask_select held_base (rebuild_jam_mask 16)
      = Some [- 133 / 20, - 133 / 20, - 133 / 20, - 133 / 20, - 133 / 20, - 133 / 20, - 133 / 20]"
    by (simp add: mask16 mask_select_def held_base_def)
  have md: "median [0, 0, 0, 0, 0, 0, 0 :: real] = 0"
    "median [- (133 / 20), - (133 / 20), - (133 / 20), - (133 / 20), - (133 / 20), - (133 / 20),
       - (133 / 20) :: real] = - (133 / 20)"
    by (simp_all add: median_def)
  have ex: "list_ex id (rebuild_jam_mask 16)" "rebuild_jam_mask 16 \<noteq> []" by (simp_all add: mask16)
  show ?thesis
    unfolding jam_front_def Let_def
    by (simp add: held_state_fields l power_db_flat e m1 m2 md ex)
qed

lemma held_tick:
  "switch_events (snd (check_jamming (Some flat_mags) 10 (10, 10) held_state)) = [''A3'']
   \<and> current_port_index (fst (check_jamming (Some flat_mags) 10 (10, 10) held_state)) = 1
   \<and> antenna_select (fst (check_jamming (Some flat_mags) 10 (10, 10) held_state)) = ''A3''
   \<and> jam_baseline_db (fst (check_jamming (Some flat_mags) 10 (10, 10) held_state))
        = Some [0, 0, 0, 0, 0, 0, 0, 0, 0, 0, 0, 0, 0, 0, 0, 0]
   \<and> jam_started (fst (check_jamming (Some flat_mags) 10 (10, 10) held_state)) = None
   \<and> jam_cooldown_until (fst (check_jamming (Some flat_mags) 10 (10, 10) held_state)) = 14"
proof -
  let ?mc = "[0, 0, 0, 0, 0, 0, 0 :: real]"
  let ?mb = "[- 133 / 20, - 133 / 20, - 133 / 20, - 133 / 20, - 133 / 20, - 133 / 20, - 133 / 20 :: real]"
  let ?s1 = "held_state\<lparr>jam_baseline_db := Some held_base\<rparr>"
  obtain s2 cond improves sfm e1 where d: "jam_decide 10 ?mc ?mb (133 / 20) ?s1 = (s2, cond, improves, sfm, e1)"
    by (cases "jam_decide 10 ?mc ?mb (133 / 20) ?s1")
  have "fst (snd (jam_decide 10 ?mc ?mb (133 / 20) ?s1))"
    by (rule jam_decide_cond_median) (simp_all add: held_state_fields)
  then have c: "cond" unfolding d by simp
  have "fst (snd (snd (jam_decide 10 ?mc ?mb (133 / 20) ?s1)))"
    by (rule jam_decide_improves_first[where e = 2])
      (simp_all add: held_state_fields less_Suc_eq eval_nat_numeral)
  then have i: "improves" unfolding d by simp
  from gate_switch_rotates[OF held_front d c i, of "(10, 10)"]
  show ?thesis by (simp add: held_state_fields det_ports_def)
qed

section \<open>The cooldown between switches\<close>

text \<open>
  Along a run the cooldown deadline never moves back, and every switch of the run comes at
  or after the deadline of the state the run starts in.
\<close>

lemma tick_switch_cases:
  obtains (quiet) "switch_events (snd (check_jamming raw now clk s)) = []"
      "jam_cooldown_until (fst (check_jamming raw now clk s)) = jam_cooldown_until s
       \<or> jam_cooldown_until s \<le> now
         \<and> jam_cooldown_until (fst (check_jamming raw now clk s)) = now + jam_cooldown_s s"
    | (switch) q where "switch_events (snd (check_jamming raw now clk s)) = [q]"
      "jam_cooldown_until s \<le> now"
      "jam_cooldown_until (fst (check_jamming raw now clk s)) = now + jam_cooldown_s s"
proof (cases "switch_events (snd (check_jamming raw now clk s))")
  case Nil
  with check_jamming_tick[of raw now clk s] show ?thesis by (intro quiet) auto
next
  case (Cons q qs)
  with check_jamming_tick[of raw now clk s] have "qs = []" by auto
  with Cons check_jamming_tick[of raw now clk s] show ?thesis by (intro switch[of q]) auto
qed

lemma run_after_deadline:
  assumes "0 \<le> jam_cooldown_s s" "e \<in> set (run_detector s ticks)"
  shows "jam_cooldown_until s \<le> fst e"
  using assms
proof (induction ticks arbitrary: s)
  case Nil
  then show ?case by simp
next
  case (Cons tk ticks)
  obtain raw now clk where tk: "tk = (raw, now, clk)" by (cases tk)
  let ?s' = "fst (check_jamming raw now clk s)"
  have cd: "jam_cooldown_s ?s' = jam_cooldown_s s" using check_jamming_tick[of raw now clk s] by blast
  have mono: "jam_cooldown_until s \<le> jam_cooldown_until ?s'"
    using check_jamming_tick[of raw now clk s] Cons.prems(1) by auto
  from Cons.prems(2) consider
    "e \<in> set (map (Pair now) (switch_events (snd (check_jamming raw now clk s))))"
    | "e \<in> set (run_detector ?s' ticks)" by (auto simp: tk)
  then show ?case
  proof cases
    case 1
    then have "fst e = now" "switch_events (snd (check_jamming raw now clk s)) \<noteq> []" by auto
    then show ?thesis using check_jamming_tick[of raw now clk s] by auto
  next
    case 2
    have "jam_cooldown_until ?s' \<le> fst e" using Cons.IH[of ?s'] Cons.prems(1) cd 2 by simp
    then show ?thesis using mono by simp
  qed
qed

lemma run_successive:
  assumes "0 \<le> jam_cooldown_s s"
  shows "successively (\<lambda>a b. fst a + jam_cooldown_s s \<le> fst b) (run_detector s ticks)"
  using assms
proof (induction ticks arbitrary: s)
  case Nil
  show ?case by simp
next
  case (Cons tk ticks)
  obtain raw now clk where tk: "tk = (raw, now, clk)" by (cases tk)
  let ?s' = "fst (check_jamming raw now clk s)"
  have cd: "jam_cooldown_s ?s' = jam_cooldown_s s" using check_jamming_tick[of raw now clk s] by blast
  have ih: "successively (\<lambda>a b. fst a + jam_cooldown_s s \<le> fst b) (run_detector ?s' ticks)"
    using Cons.IH[of ?s'] Cons.prems cd by simp
  show ?case
  proof (cases rule: tick_switch_cases[of raw now clk s])
    case quiet
    then show ?thesis using ih by (simp add: tk)
  next
    case (switch q)
    have "fst (now, q) + jam_cooldown_s s \<le> fst (hd (run_detector ?s' ticks))"
      if "run_detector ?s' ticks \<noteq> []"
    proof -
      have "hd (run_detector ?s' ticks) \<in> set (run_detector ?s' ticks)" using that by simp
      then have "jam_cooldown_until ?s' \<le> fst (hd (run_detector ?s' ticks))"
        using run_after_deadline[of ?s'] Cons.prems cd by simp
      then show ?thesis using switch(3) by simp
    qed
    then show ?thesis using ih switch(1) by (auto simp: tk successively_Cons)
  qed
qed

text \<open>
  C2.  For a cooldown duration that is not negative (4 s in the source) and every sequence of
  ticks, whatever the captures and the clock readings: any two consecutive port switches of
  the run are at least \<^verbatim>\<open>jam_cooldown_s\<close> apart.  A tick that switches sets the cooldown
  deadline to \<open>now + jam_cooldown_s\<close>, and no tick before the deadline switches.
\<close>

theorem cooldown_separates_switches:
  assumes "0 \<le> jam_cooldown_s s"
  shows "successively (\<lambda>a b. fst a + jam_cooldown_s s \<le> fst b) (run_detector s ticks)
    \<and> (switch_events (snd (check_jamming raw now clk s)) \<noteq> [] \<longrightarrow>
         jam_cooldown_until s \<le> now
         \<and> jam_cooldown_until (fst (check_jamming raw now clk s)) = now + jam_cooldown_s s)
    \<and> (now < jam_cooldown_until s \<longrightarrow> switch_events (snd (check_jamming raw now clk s)) = [])"
  using run_successive[OF assms, of ticks] check_jamming_tick[of raw now clk s] by auto

text \<open>The state a tick leaves when it holds and when it switches, for the example run.\<close>

lemma power_db_loud: "power_db_of 16 loud_mags = [7, 7, 7, 7, 7, 7, 7, 7, 7, 7, 7, 7, 7, 7, 7, 7]"
proof -
  have lo: "(1::real) \<le> 10 powr (7 / 20)" by (rule ge_one_powr_ge_zero) simp_all
  have "(10::real) powr (7 / 20) \<le> 10 powr 1" by (intro powr_mono) simp_all
  then have hi: "(10::real) powr (7 / 20) \<le> 10" by simp
  have c: "clip (10 powr (7 / 20)) (1 / 10 ^ 12) (10 ^ 9) = 10 powr (7 / 20)"
    using lo hi by (simp add: clip_def max_def min_def)
  have "20 * log 10 (clip (16 * 10 powr (7 / 20) * (1 / real (16::nat))) (1 / 10 ^ 12) (10 ^ 9)) = 7"
    using c by simp
  then show ?thesis
    unfolding power_db_of_def scale_mags_def loud_mags_def
    by (simp add: numeral_eq_Suc)
qed

lemma gate_holding_state:
  assumes "jam_front raw now s = Inr (p, mc, mb, ml, s1)"
    and "jam_decide now mc mb ml s1 = (s2, cond, improves, sfm, e1)"
    and "cond" "improves"
    and "\<not> (jam_hold_s s \<le> now - (case jam_started s of None \<Rightarrow> now | Some t \<Rightarrow> t)
            \<and> 6 / 10 \<le> now - (case jam_last_switch s of None \<Rightarrow> 0 | Some t \<Rightarrow> t)
            \<and> jam_cooldown_until s \<le> now)"
  shows "fst (check_jamming raw now clk s) =
           s2\<lparr>jam_started := Some (case jam_started s of None \<Rightarrow> now | Some t \<Rightarrow> t)\<rparr>"
    and "switch_events (snd (check_jamming raw now clk s)) = []"
proof -
  note g = check_jamming_at_gate[OF assms(1,2)]
  have h: "\<not> (jam_hold_s s2 \<le> now - (case jam_started s2 of None \<Rightarrow> now | Some t \<Rightarrow> t)
            \<and> 6 / 10 \<le> now - (case jam_last_switch s2 of None \<Rightarrow> 0 | Some t \<Rightarrow> t)
            \<and> jam_cooldown_until s2 \<le> now)"
    using assms(5) by (simp add: g)
  show "fst (check_jamming raw now clk s) =
           s2\<lparr>jam_started := Some (case jam_started s of None \<Rightarrow> now | Some t \<Rightarrow> t)\<rparr>"
    unfolding g(1) jam_gate_holding[OF assms(3,4) h] by (simp add: g)
  show "switch_events (snd (check_jamming raw now clk s)) = []"
    unfolding g(1) jam_gate_holding[OF assms(3,4) h] by (simp add: g)
qed

lemma gate_switch_state:
  assumes "jam_front raw now s = Inr (p, mc, mb, ml, s1)"
    and "jam_decide now mc mb ml s1 = (s2, cond, improves, sfm, e1)"
    and "cond" "improves"
    and "jam_hold_s s \<le> now - (case jam_started s of None \<Rightarrow> now | Some t \<Rightarrow> t)"
    and "6 / 10 \<le> now - (case jam_last_switch s of None \<Rightarrow> 0 | Some t \<Rightarrow> t)"
    and "jam_cooldown_until s \<le> now"
    and "ports s = det_ports" "antenna_edit s \<noteq> None"
  shows "fst (check_jamming raw now clk s) =
     s2\<lparr>antenna_select := det_ports ! ((current_port_index s + 1) mod 8),
        antenna_edit := Some (det_ports ! ((current_port_index s + 1) mod 8)),
        current_port_index := (current_port_index s + 1) mod 8,
        jam_ready_at := now + 8 / 10,
        jam_baseline_db := Some p,
        jam_started := None,
        jam_cooldown_until := now + jam_cooldown_s s,
        sfm_ref := Some sfm,
        baseline_freeze_until := Some (now + 6 / 10),
        jam_last_switch := Some now,
        last_score_at_switch := score_ema s2,
        jam_last_dbg := now\<rparr>"
proof -
  note g = check_jamming_at_gate[OF assms(1,2)]
  define i where "i = (current_port_index s + 1) mod 8"
  have i: "i < 8" by (simp add: i_def)
  obtain q where q: "antenna_edit s = Some q" using assms(9) by auto
  have pn: "ports s2 \<noteq> []" by (simp add: g assms(8) det_ports_def)
  define s2' where "s2' = s2\<lparr>jam_started := Some (case jam_started s2 of None \<Rightarrow> now | Some t \<Rightarrow> t),
                 current_port_index := i, antenna_edit := Some (det_ports ! i)\<rparr>"
  have u: "update_antenna None clk s2' =
     (s2'\<lparr>antenna_select := det_ports ! i, jam_baseline_db := None, jam_ready_at := fst clk + 3 / 2,
        current_port_index := i, jam_last_switch := Some (snd clk)\<rparr>,
      (if has_src s2' then [HwSetAntenna (det_ports ! i)] else []) @ [LogSwitched (det_ports ! i)] @
      (if has_oc_panel s2' then [PanelSetActive (det_ports ! i)] else []) @ [AntennaChanged (det_ports ! i)])"
    by (rule update_antenna_rotated[OF _ i]) (simp_all add: s2'_def g assms(8))
  have gate: "jam_gate now clk p sfm cond improves s2 =
     (fst (update_antenna None clk s2')\<lparr>jam_last_switch := Some now,
              jam_cooldown_until := now + jam_cooldown_s s2,
              jam_started := None,
              jam_ready_at := now + 8 / 10,
              baseline_freeze_until := Some (now + 6 / 10),
              jam_baseline_db := Some p,
              sfm_ref := Some sfm,
              last_score_at_switch := score_ema s2,
              jam_last_dbg := now\<rparr>,
          ShowJamAlert # SetAntennaEditText (det_ports ! i) # snd (update_antenna None clk s2'))"
    using jam_gate_fires[of cond improves s2 now clk p sfm, OF assms(3,4) _ _ _ pn]
      assms(5,6,7)
    by (simp add: g q assms(8) length_det_ports Let_def s2'_def i_def)
  have "fst (check_jamming raw now clk s) =
     (s2'\<lparr>antenna_select := det_ports ! i, jam_baseline_db := None, jam_ready_at := fst clk + 3 / 2,
        current_port_index := i, jam_last_switch := Some (snd clk)\<rparr>)\<lparr>jam_last_switch := Some now,
              jam_cooldown_until := now + jam_cooldown_s s2,
              jam_started := None,
              jam_ready_at := now + 8 / 10,
              baseline_freeze_until := Some (now + 6 / 10),
              jam_baseline_db := Some p,
              sfm_ref := Some sfm,
              last_score_at_switch := score_ema s2,
              jam_last_dbg := now\<rparr>"
    by (simp only: g(1) gate u fst_conv)
  then show ?thesis
    by (simp add: s2'_def g i_def)
qed

lemma jam_front_reaches:
  assumes "\<not> rebuilding s" "mode s = Jamming" "toggle_checked s"
    and "length mags = fft_size s"
    and "case jam_ignore_until s of None \<Rightarrow> True | Some u \<Rightarrow> u \<le> now"
    and "jam_baseline_db s = Some base0"
    and "ema_baseline now (power_db_of (fft_size s) mags) base0 s = Some base"
    and "jam_ready_at s \<le> now"
    and "jam_mask s = Some m" "list_ex id m"
    and "mask_select (power_db_of (fft_size s) mags) m = Some mc" "mask_select base m = Some mb"
    and "median mc - median mb \<le> 8"
  shows "jam_front (Some mags) now s =
     Inr (power_db_of (fft_size s) mags, mc, mb, median mc - median mb, s\<lparr>jam_baseline_db := Some base\<rparr>)"
proof -
  have ig: "\<not> (case jam_ignore_until s of None \<Rightarrow> False | Some u \<Rightarrow> now < u)"
    using assms(5) by (simp split: option.splits)
  have ne: "\<not> (m = [] \<or> \<not> list_ex id m)" using assms(10) by auto
  have nl: "\<not> 8 < median mc - median mb" using assms(13) by simp
  show ?thesis
    unfolding jam_front_def Let_def
    using assms(1-4,6-9,11,12) ig ne nl by simp
qed

lemma median7: "median [x, x, x, x, x, x, x] = x"
  by (simp add: median_def)

lemma second_front:
  assumes "\<not> rebuilding s" "mode s = Jamming" "toggle_checked s" "fft_size s = 16"
    and "jam_ignore_until s = None" "jam_ready_at s \<le> now" "jam_mask s = Some (rebuild_jam_mask 16)"
    and "jam_baseline_db s = Some base0"
    and "ema_baseline now [7, 7, 7, 7, 7, 7, 7, 7, 7, 7, 7, 7, 7, 7, 7, 7] base0 s =
      Some [7 / 20, 7 / 20, 7 / 20, 7 / 20, 7 / 20, 7 / 20, 7 / 20, 7 / 20,
            7 / 20, 7 / 20, 7 / 20, 7 / 20, 7 / 20, 7 / 20, 7 / 20, 7 / 20]"
  shows "jam_front (Some loud_mags) now s =
     Inr ([7, 7, 7, 7, 7, 7, 7, 7, 7, 7, 7, 7, 7, 7, 7, 7], [7, 7, 7, 7, 7, 7, 7],
          [7 / 20, 7 / 20, 7 / 20, 7 / 20, 7 / 20, 7 / 20, 7 / 20], 7 - 7 / 20,
          s\<lparr>jam_baseline_db := Some [7 / 20, 7 / 20, 7 / 20, 7 / 20, 7 / 20, 7 / 20, 7 / 20, 7 / 20,
            7 / 20, 7 / 20, 7 / 20, 7 / 20, 7 / 20, 7 / 20, 7 / 20, 7 / 20]\<rparr>)"
proof -
  have l: "length loud_mags = fft_size s" by (simp add: loud_mags_def assms(4))
  have ig: "case jam_ignore_until s of None \<Rightarrow> True | Some u \<Rightarrow> u \<le> now" by (simp add: assms(5))
  have pw: "power_db_of (fft_size s) loud_mags = [7, 7, 7, 7, 7, 7, 7, 7, 7, 7, 7, 7, 7, 7, 7, 7]"
    by (simp only: assms(4) power_db_loud)
  have ex: "list_ex id (rebuild_jam_mask 16)" by (simp add: mask16)
  have m1: "mask_select (power_db_of (fft_size s) loud_mags) (rebuild_jam_mask 16) = Some [7, 7, 7, 7, 7, 7, 7]"
    unfolding pw by (simp add: mask16 mask_select_def)
  have m2: "mask_select [7 / 20, 7 / 20, 7 / 20, 7 / 20, 7 / 20, 7 / 20, 7 / 20, 7 / 20,
            7 / 20, 7 / 20, 7 / 20, 7 / 20, 7 / 20, 7 / 20, 7 / 20, 7 / 20 :: real] (rebuild_jam_mask 16)
      = Some [7 / 20, 7 / 20, 7 / 20, 7 / 20, 7 / 20, 7 / 20, 7 / 20]"
    by (simp add: mask16 mask_select_def)
  have md: "median [7, 7, 7, 7, 7, 7, 7 :: real] - median [7 / 20, 7 / 20, 7 / 20, 7 / 20, 7 / 20, 7 / 20, 7 / 20 :: real] \<le> 8"
    unfolding median7 by simp
  have e: "ema_baseline now (power_db_of (fft_size s) loud_mags) base0 s =
      Some [7 / 20, 7 / 20, 7 / 20, 7 / 20, 7 / 20, 7 / 20, 7 / 20, 7 / 20,
            7 / 20, 7 / 20, 7 / 20, 7 / 20, 7 / 20, 7 / 20, 7 / 20, 7 / 20]"
    unfolding pw by (rule assms(9))
  from jam_front_reaches[OF assms(1,2,3) l ig assms(8) e assms(6,7) ex m1 m2 md]
  show ?thesis unfolding pw median7 .
qed

lemma held_state_config:
  "has_src held_state" "jam_debug held_state"
  by (simp_all add: held_state_def det_init_def)

text \<open>
  The example run: the flat capture at 10 s switches to A3; the capture 7 dB louder at 20 s
  starts a hold and freezes the baseline; the same capture at 20.5 s switches to A2.
\<close>

lemma three_ticks_run:
  "run_detector held_state three_ticks = [(10, ''A3''), (41 / 2, ''A2'')]"
proof -
  let ?z7 = "[0, 0, 0, 0, 0, 0, 0 :: real]"
  let ?b7 = "[- 133 / 20, - 133 / 20, - 133 / 20, - 133 / 20, - 133 / 20, - 133 / 20, - 133 / 20 :: real]"
  let ?z16 = "[0, 0, 0, 0, 0, 0, 0, 0, 0, 0, 0, 0, 0, 0, 0, 0 :: real]"
  let ?s16 = "[7, 7, 7, 7, 7, 7, 7, 7, 7, 7, 7, 7, 7, 7, 7, 7 :: real]"
  let ?s7 = "[7, 7, 7, 7, 7, 7, 7 :: real]"
  let ?q7 = "[7 / 20, 7 / 20, 7 / 20, 7 / 20, 7 / 20, 7 / 20, 7 / 20 :: real]"
  let ?q16 = "[7 / 20, 7 / 20, 7 / 20, 7 / 20, 7 / 20, 7 / 20, 7 / 20, 7 / 20,
            7 / 20, 7 / 20, 7 / 20, 7 / 20, 7 / 20, 7 / 20, 7 / 20, 7 / 20 :: real]"
  \<comment> \<open>First tick: the switch to A3.\<close>
  let ?s1 = "held_state\<lparr>jam_baseline_db := Some held_base\<rparr>"
  define sa where "sa = fst (check_jamming (Some flat_mags) 10 (10, 10) held_state)"
  obtain s2 c1 i1 sfm1 e1 where d1: "jam_decide 10 ?z7 ?b7 (133 / 20) ?s1 = (s2, c1, i1, sfm1, e1)"
    by (cases "jam_decide 10 ?z7 ?b7 (133 / 20) ?s1")
  have "fst (snd (jam_decide 10 ?z7 ?b7 (133 / 20) ?s1))"
    by (rule jam_decide_cond_median) (simp_all add: held_state_fields)
  then have c1: "c1" unfolding d1 by simp
  have ao1: "?z7 \<noteq> []" "length ?b7 = length ?z7" "\<forall>i < length ?z7. jam_thresh_db ?s1 \<le> ?z7 ! i - ?b7 ! i"
    by (simp_all add: held_state_fields less_Suc_eq eval_nat_numeral)
  have "fst (snd (snd (jam_decide 10 ?z7 ?b7 (133 / 20) ?s1)))"
    by (rule jam_decide_improves_first[where e = 2, OF _ _ _ ao1]) (simp_all add: held_state_fields)
  then have i1: "i1" unfolding d1 by simp
  from jam_decide_all_over[OF ao1, of 10 "133 / 20", unfolded d1 fst_conv snd_conv]
  obtain sc where sc: "4 / 3 \<le> sc" and se: "score_ema s2
      = Some (case score_ema ?s1 of None \<Rightarrow> sc | Some e \<Rightarrow> 8 / 10 * e + 2 / 10 * sc)"
    by blast
  define sc1 where "sc1 = (case score_ema ?s1 of None \<Rightarrow> sc | Some e \<Rightarrow> 8 / 10 * e + 2 / 10 * sc)"
  have sc1: "4 / 3 \<le> sc1" unfolding sc1_def using sc by (simp add: held_state_fields)
  have se1: "score_ema s2 = Some sc1" unfolding sc1_def by (rule se)
  from jam_decide_frame[of 10 ?z7 ?b7 "133 / 20" ?s1, unfolded d1 fst_conv]
  obtain r e b1 b2 f se dd where s2: "s2 = ?s1\<lparr>sfm_ref := Some r, occ_req_ema := Some e,
      jam_band_state := b1, jam_med_state := b2, baseline_freeze_until := f, score_ema := Some se,
      jam_last_dbg := dd\<rparr>" by blast
  have g1: "jam_hold_s held_state \<le> 10 - (case jam_started held_state of None \<Rightarrow> 10 | Some t \<Rightarrow> t)"
    "6 / 10 \<le> 10 - (case jam_last_switch held_state of None \<Rightarrow> 0 | Some t \<Rightarrow> t)"
    "jam_cooldown_until held_state \<le> 10" "ports held_state = det_ports" "antenna_edit held_state \<noteq> None"
    by (simp_all add: held_state_fields)
  note st1 = gate_switch_state[OF held_front d1 c1 i1 g1, of "(10, 10)", folded sa_def]
  have ev1: "switch_events (snd (check_jamming (Some flat_mags) 10 (10, 10) held_state)) = [''A3'']"
    using gate_switch_rotates[OF held_front d1 c1 i1 g1, of "(10, 10)"]
    by (simp add: held_state_fields det_ports_def)
  have fa: "\<not> rebuilding sa" "mode sa = Jamming" "toggle_checked sa" "fft_size sa = 16"
    "jam_ignore_until sa = None" "jam_ready_at sa = 54 / 5" "jam_mask sa = Some (rebuild_jam_mask 16)"
    "jam_baseline_db sa = Some ?z16" "baseline_freeze_until sa = Some (53 / 5)"
    "jam_alpha sa = 5 / 100" "jam_median_db sa = 2" "jam_thresh_db sa = 65 / 10"
    "score_ema sa = Some sc1" "last_score_at_switch sa = Some sc1" "jam_last_switch sa = Some 10"
    "jam_started sa = None" "jam_hold_s sa = 4 / 10" "jam_cooldown_until sa = 14"
    "ports sa = det_ports" "antenna_edit sa = Some ''A3''" "current_port_index sa = 1"
    unfolding st1 using se1
    by (simp_all add: s2 held_state_fields held_state_config power_db_flat det_ports_def)
  \<comment> \<open>Second tick: the louder capture starts a hold.\<close>
  let ?t1 = "sa\<lparr>jam_baseline_db := Some ?q16\<rparr>"
  define sb where "sb = fst (check_jamming (Some loud_mags) 20 (20, 20) sa)"
  have em2: "ema_baseline 20 ?s16 ?z16 sa = Some ?q16"
    by (simp add: ema_baseline_def fa broadcast2_def)
  have f2: "jam_front (Some loud_mags) 20 sa = Inr (?s16, ?s7, ?q7, 7 - 7 / 20, ?t1)"
    by (rule second_front[OF fa(1,2,3,4,5) _ fa(7,8) em2]) (simp add: fa)
  obtain t2 c2 i2 sfm2 e2 where d2: "jam_decide 20 ?s7 ?q7 (7 - 7 / 20) ?t1 = (t2, c2, i2, sfm2, e2)"
    by (cases "jam_decide 20 ?s7 ?q7 (7 - 7 / 20) ?t1")
  have "fst (snd (jam_decide 20 ?s7 ?q7 (7 - 7 / 20) ?t1))"
    by (rule jam_decide_cond_median) (simp_all add: fa)
  then have c2: "c2" unfolding d2 by simp
  have ao2: "?s7 \<noteq> []" "length ?q7 = length ?s7" "\<forall>i < length ?s7. jam_thresh_db ?t1 \<le> ?s7 ! i - ?q7 ! i"
    by (simp_all add: fa less_Suc_eq eval_nat_numeral)
  have "fst (snd (snd (jam_decide 20 ?s7 ?q7 (7 - 7 / 20) ?t1)))
     \<and> (\<exists>e'. score_ema (fst (jam_decide 20 ?s7 ?q7 (7 - 7 / 20) ?t1)) = Some e' \<and> 8 / 10 * sc1 \<le> e' \<and> 11 / 10 \<le> e')"
    by (rule jam_decide_improves_again[where l = sc1 and t = 10, OF _ _ _ _ _ _ _ ao2])
      (use sc1 in \<open>simp_all add: fa\<close>)
  then obtain sc2 where i2: "i2" and se2: "score_ema t2 = Some sc2" and sc2: "8 / 10 * sc1 \<le> sc2" "11 / 10 \<le> sc2"
    unfolding d2 by auto
  from jam_decide_all_over[OF ao2, of 20 "7 - 7 / 20", unfolded d2 fst_conv snd_conv]
  have fr2: "baseline_freeze_until t2 = Some (20 + 6 / 10)"
    by (auto simp: fa)
  from jam_decide_frame[of 20 ?s7 ?q7 "7 - 7 / 20" ?t1, unfolded d2 fst_conv]
  obtain r' e' b1' b2' f' se' dd' where t2: "t2 = ?t1\<lparr>sfm_ref := Some r', occ_req_ema := Some e',
      jam_band_state := b1', jam_med_state := b2', baseline_freeze_until := f', score_ema := Some se',
      jam_last_dbg := dd'\<rparr>" by blast
  have ng2: "\<not> (jam_hold_s sa \<le> 20 - (case jam_started sa of None \<Rightarrow> 20 | Some t \<Rightarrow> t)
            \<and> 6 / 10 \<le> 20 - (case jam_last_switch sa of None \<Rightarrow> 0 | Some t \<Rightarrow> t)
            \<and> jam_cooldown_until sa \<le> 20)"
    by (simp add: fa)
  note st2 = gate_holding_state[OF f2 d2 c2 i2 ng2, of "(20, 20)", folded sb_def]
  have fb: "\<not> rebuilding sb" "mode sb = Jamming" "toggle_checked sb" "fft_size sb = 16"
    "jam_ignore_until sb = None" "jam_ready_at sb = 54 / 5" "jam_mask sb = Some (rebuild_jam_mask 16)"
    "jam_baseline_db sb = Some ?q16" "baseline_freeze_until sb = Some (20 + 6 / 10)"
    "jam_alpha sb = 5 / 100" "jam_median_db sb = 2" "jam_thresh_db sb = 65 / 10"
    "score_ema sb = Some sc2" "last_score_at_switch sb = Some sc1" "jam_last_switch sb = Some 10"
    "jam_started sb = Some 20" "jam_hold_s sb = 4 / 10" "jam_cooldown_until sb = 14"
    "ports sb = det_ports" "antenna_edit sb = Some ''A3''" "current_port_index sb = 1"
    unfolding st2(1) using se2 fr2
    by (simp_all add: t2 fa)
  \<comment> \<open>Third tick: the hold has lasted 0.5 s, the switch to A2.\<close>
  let ?u1 = "sb\<lparr>jam_baseline_db := Some ?q16\<rparr>"
  have em3: "ema_baseline (41 / 2) ?s16 ?q16 sb = Some ?q16"
    by (simp add: ema_baseline_def fb)
  have f3: "jam_front (Some loud_mags) (41 / 2) sb = Inr (?s16, ?s7, ?q7, 7 - 7 / 20, ?u1)"
    by (rule second_front[OF fb(1,2,3,4,5) _ fb(7,8) em3]) (simp add: fb)
  obtain u2 c3 i3 sfm3 e3 where d3: "jam_decide (41 / 2) ?s7 ?q7 (7 - 7 / 20) ?u1 = (u2, c3, i3, sfm3, e3)"
    by (cases "jam_decide (41 / 2) ?s7 ?q7 (7 - 7 / 20) ?u1")
  have "fst (snd (jam_decide (41 / 2) ?s7 ?q7 (7 - 7 / 20) ?u1))"
    by (rule jam_decide_cond_median) (simp_all add: fb)
  then have c3: "c3" unfolding d3 by simp
  have ao3: "?s7 \<noteq> []" "length ?q7 = length ?s7" "\<forall>i < length ?s7. jam_thresh_db ?u1 \<le> ?s7 ! i - ?q7 ! i"
    by (simp_all add: fb less_Suc_eq eval_nat_numeral)
  have "fst (snd (snd (jam_decide (41 / 2) ?s7 ?q7 (7 - 7 / 20) ?u1)))
     \<and> (\<exists>e'. score_ema (fst (jam_decide (41 / 2) ?s7 ?q7 (7 - 7 / 20) ?u1)) = Some e' \<and> 8 / 10 * sc2 \<le> e' \<and> 11 / 10 \<le> e')"
    by (rule jam_decide_improves_again[where l = sc1 and t = 10, OF _ _ _ _ _ _ _ ao3])
      (use sc1 sc2 in \<open>simp_all add: fb\<close>)
  then have i3: "i3" unfolding d3 by simp
  have g3: "jam_hold_s sb \<le> 41 / 2 - (case jam_started sb of None \<Rightarrow> 41 / 2 | Some t \<Rightarrow> t)"
    "6 / 10 \<le> 41 / 2 - (case jam_last_switch sb of None \<Rightarrow> 0 | Some t \<Rightarrow> t)"
    "jam_cooldown_until sb \<le> 41 / 2" "ports sb = det_ports" "antenna_edit sb \<noteq> None"
    by (simp_all add: fb)
  have ev3: "switch_events (snd (check_jamming (Some loud_mags) (41 / 2) (41 / 2, 41 / 2) sb)) = [''A2'']"
    using gate_switch_rotates[OF f3 d3 c3 i3 g3, of "(41 / 2, 41 / 2)"]
    by (simp add: fb det_ports_def)
  show ?thesis
    unfolding three_ticks_def
    by (simp add: ev1 sa_def[symmetric] st2(2) sb_def[symmetric] ev3)
qed

section \<open>The example run\<close>

text \<open>
  The two switches of the example run, at 10 s and 20.5 s, are more than the 4 s of the
  default cooldown apart; the first sets the deadline to 14 s.
\<close>

theorem cooldown_separates_switches_witness:
  "0 \<le> jam_cooldown_s held_state
   \<and> jam_cooldown_s held_state = 4
   \<and> run_detector held_state three_ticks = [(10, ''A3''), (41 / 2, ''A2'')]
   \<and> successively (\<lambda>a b. fst a + jam_cooldown_s held_state \<le> fst b) [(10 :: real, ''A3''), (41 / 2, ''A2'')]
   \<and> switch_events (snd (check_jamming (Some flat_mags) 10 (10, 10) held_state)) = [''A3'']
   \<and> jam_cooldown_until (fst (check_jamming (Some flat_mags) 10 (10, 10) held_state)) = 10 + 4"
proof -
  have h: "0 \<le> jam_cooldown_s held_state" and c: "jam_cooldown_s held_state = 4"
    by (simp_all add: held_state_fields)
  note t = cooldown_separates_switches[OF h, of three_ticks "Some flat_mags" 10 "(10, 10)"]
  have 1: "successively (\<lambda>a b. fst a + jam_cooldown_s held_state \<le> fst b) [(10 :: real, ''A3''), (41 / 2, ''A2'')]"
    using conjunct1[OF t] by (simp only: three_ticks_run)
  have ev: "switch_events (snd (check_jamming (Some flat_mags) 10 (10, 10) held_state)) = [''A3'']"
    using held_tick by blast
  have 2: "jam_cooldown_until (fst (check_jamming (Some flat_mags) 10 (10, 10) held_state)) = 10 + 4"
    using conjunct1[OF conjunct2[OF t]] ev by (simp add: c)
  from h c three_ticks_run 1 ev 2 show ?thesis by blast
qed

section \<open>The hold along a run\<close>









section \<open>An example run with a gap\<close>














end
